(* ===== verification/Prelude.thy ===== *)
theory Prelude
  imports Complex_Main "HOL-Library.AList" "HOL-Library.Multiset"
begin

text \<open>
  Shared vocabulary of the development.

  \<^item> \<open>comp\<close>: a computation that reads and writes a state and either returns a value or
    raises, as a Python method does.  State changes made before a \<open>raise\<close> persist, and
    \<open>handle\<close> is \<open>try/except\<close>.
  \<^item> \<open>keeps\<close> and the locale \<open>frame\<close>: what a computation may do to the state, as a
    reflexive and transitive relation between the state before and after.  The rules of
    the locale follow the constructs of \<open>comp\<close>, so a frame property of a handler
    reduces to one of each state change it makes.
  \<^item> generic lemmas on lists, association lists (Python dictionaries keep insertion order)
    and on reading a numbered clock.
\<close>

named_theorems comp_defs \<open>definitions of the computation combinators\<close>

section \<open>Computations that may raise\<close>

type_synonym ('e, 's, 'a) comp = "'s \<Rightarrow> ('e + 'a) \<times> 's"

definition ret :: "'a \<Rightarrow> ('e, 's, 'a) comp" where
  [comp_defs]: "ret x = (\<lambda>s. (Inr x, s))"

definition throw :: "'e \<Rightarrow> ('e, 's, 'a) comp" where
  [comp_defs]: "throw e = (\<lambda>s. (Inl e, s))"

definition bindc :: "('e, 's, 'a) comp \<Rightarrow> ('a \<Rightarrow> ('e, 's, 'b) comp) \<Rightarrow> ('e, 's, 'b) comp" where
  [comp_defs]: "bindc m f = (\<lambda>s. case m s of (Inl e, s') \<Rightarrow> (Inl e, s') | (Inr x, s') \<Rightarrow> f x s')"

definition handle :: "('e, 's, 'a) comp \<Rightarrow> ('e \<Rightarrow> ('e, 's, 'a) comp) \<Rightarrow> ('e, 's, 'a) comp" where
  [comp_defs]: "handle m h = (\<lambda>s. case m s of (Inl e, s') \<Rightarrow> h e s' | (Inr x, s') \<Rightarrow> (Inr x, s'))"

definition gets :: "('s \<Rightarrow> 'a) \<Rightarrow> ('e, 's, 'a) comp" where
  [comp_defs]: "gets f = (\<lambda>s. (Inr (f s), s))"

definition modify :: "('s \<Rightarrow> 's) \<Rightarrow> ('e, 's, unit) comp" where
  [comp_defs]: "modify f = (\<lambda>s. (Inr (), f s))"

definition liftE :: "'e + 'a \<Rightarrow> ('e, 's, 'a) comp" where
  [comp_defs]: "liftE r = (\<lambda>s. (r, s))"

text \<open>A computation on a component of the state, with the component's getter and setter.\<close>

definition zoom :: "('s \<Rightarrow> 't) \<Rightarrow> ('t \<Rightarrow> 's \<Rightarrow> 's) \<Rightarrow> ('e, 't, 'a) comp \<Rightarrow> ('e, 's, 'a) comp" where
  [comp_defs]: "zoom get put m = (\<lambda>s. case m (get s) of (r, t) \<Rightarrow> (r, put t s))"

fun mapc :: "('a \<Rightarrow> ('e, 's, 'b) comp) \<Rightarrow> 'a list \<Rightarrow> ('e, 's, 'b list) comp" where
  "mapc f [] = ret []"
| "mapc f (x # xs) = bindc (f x) (\<lambda>y. bindc (mapc f xs) (\<lambda>ys. ret (y # ys)))"

abbreviation seqc :: "('e, 's, 'a) comp \<Rightarrow> ('e, 's, 'b) comp \<Rightarrow> ('e, 's, 'b) comp" where
  "seqc m n \<equiv> bindc m (\<lambda>_. n)"

lemma bindc_ret [simp]: "bindc (ret x) f = f x"
  by (simp add: comp_defs)

lemma bindc_throw [simp]: "bindc (throw e) f = throw e"
  by (simp add: comp_defs)

lemma ret_apply [simp]: "ret x s = (Inr x, s)"
  by (simp add: ret_def)

lemma throw_apply [simp]: "throw e s = (Inl e, s)"
  by (simp add: throw_def)

lemma gets_apply [simp]: "gets f s = (Inr (f s), s)"
  by (simp add: gets_def)

lemma modify_apply [simp]: "modify f s = (Inr (), f s)"
  by (simp add: modify_def)

lemma liftE_apply [simp]: "liftE r s = (r, s)"
  by (simp add: liftE_def)

lemma outcome_eq: "fst p = r \<Longrightarrow> p = (r, snd p)"
  by (cases p) simp

lemma bindc_Inl: "m s = (Inl e, s') \<Longrightarrow> bindc m f s = (Inl e, s')"
  by (simp add: bindc_def)

lemma bindc_Inr: "m s = (Inr x, s') \<Longrightarrow> bindc m f s = f x s'"
  by (simp add: bindc_def)

lemma bindc_gets [simp]: "bindc (gets f) g s = g (f s) s"
  by (simp add: bindc_def)

lemma bindc_modify [simp]: "bindc (modify f) g s = g () (f s)"
  by (simp add: bindc_def)

lemma bindc_liftE: "bindc (liftE r) f s = (case r of Inl e \<Rightarrow> (Inl e, s) | Inr x \<Rightarrow> f x s)"
  by (simp add: bindc_def split: sum.splits)

lemma bindc_eq_Inr:
  "bindc m f s = (Inr y, s'') \<longleftrightarrow> (\<exists>x s'. m s = (Inr x, s') \<and> f x s' = (Inr y, s''))"
  by (auto simp: bindc_def split: prod.splits sum.splits)

lemma bindc_eq_Inl:
  "bindc m f s = (Inl e, s'') \<longleftrightarrow>
     m s = (Inl e, s'') \<or> (\<exists>x s'. m s = (Inr x, s') \<and> f x s' = (Inl e, s''))"
  by (auto simp: bindc_def split: prod.splits sum.splits)

lemma bindc_assoc: "bindc (bindc m f) g = bindc m (\<lambda>x. bindc (f x) g)"
  by (rule ext) (simp add: bindc_def split: prod.splits sum.splits)

section \<open>Frames: what a computation may do to the state\<close>

definition keeps :: "('s \<Rightarrow> 's \<Rightarrow> bool) \<Rightarrow> ('e, 's, 'a) comp \<Rightarrow> bool" where
  "keeps R m \<longleftrightarrow> (\<forall>s. R s (snd (m s)))"

lemma keepsI: "(\<And>s r s'. m s = (r, s') \<Longrightarrow> R s s') \<Longrightarrow> keeps R m"
  by (auto simp: keeps_def prod_eq_iff)

lemma keepsD: "keeps R m \<Longrightarrow> m s = (r, s') \<Longrightarrow> R s s'"
  by (metis keeps_def snd_conv)

lemma keeps_mono: "keeps R m \<Longrightarrow> (\<And>s t. R s t \<Longrightarrow> Q s t) \<Longrightarrow> keeps Q m"
  by (auto simp: keeps_def)

lemma keeps_if: "(b \<Longrightarrow> keeps R m) \<Longrightarrow> (\<not> b \<Longrightarrow> keeps R n) \<Longrightarrow> keeps R (if b then m else n)"
  by simp

lemma keeps_option:
  "(x = None \<Longrightarrow> keeps R m) \<Longrightarrow> (\<And>y. x = Some y \<Longrightarrow> keeps R (f y)) \<Longrightarrow>
     keeps R (case x of None \<Rightarrow> m | Some y \<Rightarrow> f y)"
  by (simp split: option.split)

lemma keeps_sum:
  "(\<And>y. x = Inl y \<Longrightarrow> keeps R (f y)) \<Longrightarrow> (\<And>y. x = Inr y \<Longrightarrow> keeps R (g y)) \<Longrightarrow>
     keeps R (case x of Inl y \<Rightarrow> f y | Inr y \<Rightarrow> g y)"
  by (simp split: sum.split)

lemma keeps_prod: "(\<And>a b. x = (a, b) \<Longrightarrow> keeps R (f a b)) \<Longrightarrow> keeps R (case x of (a, b) \<Rightarrow> f a b)"
  by (simp split: prod.split)

lemma keeps_Let: "(\<And>y. y = x \<Longrightarrow> keeps R (f y)) \<Longrightarrow> keeps R (let y = x in f y)"
  by simp

lemma keeps_zoom:
  assumes "keeps Q m" and "\<And>s t. Q (get s) t \<Longrightarrow> R s (put t s)"
  shows "keeps R (zoom get put m)"
  using assms by (auto simp: keeps_def zoom_def split: prod.split) (metis snd_conv)

locale frame =
  fixes R :: "'s \<Rightarrow> 's \<Rightarrow> bool"
  assumes frame_refl: "R s s"
    and frame_trans: "R s t \<Longrightarrow> R t u \<Longrightarrow> R s u"
begin

lemma keeps_ret: "keeps R (ret x)"
  by (simp add: keeps_def frame_refl)

lemma keeps_throw: "keeps R (throw e)"
  by (simp add: keeps_def frame_refl)

lemma keeps_gets: "keeps R (gets f)"
  by (simp add: keeps_def frame_refl)

lemma keeps_liftE: "keeps R (liftE r)"
  by (simp add: keeps_def frame_refl)

lemma keeps_modify: "(\<And>s. R s (f s)) \<Longrightarrow> keeps R (modify f)"
  by (simp add: keeps_def)

lemma keeps_bindc: "keeps R m \<Longrightarrow> (\<And>x. keeps R (f x)) \<Longrightarrow> keeps R (bindc m f)"
  by (rule keepsI) (auto simp: bindc_def split: prod.splits sum.splits
      dest: keepsD intro: frame_trans)

text \<open>The same for one start state, when the first computation keeps the relation only there, or
  since an earlier state.\<close>

lemma bindc_at:
  assumes "bindc m f s = (r, s')" and "\<And>r1 s1. m s = (r1, s1) \<Longrightarrow> R s0 s1" and "\<And>x. keeps R (f x)"
  shows "R s0 s'"
  using assms(1,2) keepsD [OF assms(3)]
  by (auto simp: bindc_def split: prod.splits sum.splits) (blast intro: frame_trans)+

lemma keeps_handle: "keeps R m \<Longrightarrow> (\<And>e. keeps R (h e)) \<Longrightarrow> keeps R (handle m h)"
  by (rule keepsI) (auto simp: handle_def split: prod.splits sum.splits
      dest: keepsD intro: frame_trans)

lemma keeps_mapc: "(\<And>x. keeps R (f x)) \<Longrightarrow> keeps R (mapc f xs)"
  by (induction xs) (auto intro: keeps_ret keeps_bindc)

lemmas keeps_rules =
  keeps_ret keeps_throw keeps_gets keeps_liftE keeps_bindc keeps_handle keeps_mapc
  keeps_if keeps_option keeps_sum keeps_prod keeps_Let

end

section \<open>Lists and association lists\<close>

lemma filter_map_same:
  assumes "\<And>x. x \<in> set xs \<Longrightarrow> P (f x) = P x" and "\<And>x. x \<in> set xs \<Longrightarrow> P x \<Longrightarrow> f x = x"
  shows "filter P (map f xs) = filter P xs"
  using assms by (induction xs) auto

lemma find_map_same:
  "(\<And>x. P (f x) = P x) \<Longrightarrow> List.find P (map f xs) = map_option f (List.find P xs)"
  by (induction xs) auto

lemma find_append: "List.find P (xs @ ys) = (case List.find P xs of None \<Rightarrow> List.find P ys | r \<Rightarrow> r)"
  by (induction xs) auto

lemma find_None_iff2: "List.find P xs = None \<longleftrightarrow> (\<forall>x\<in>set xs. \<not> P x)"
  by (induction xs) auto

lemma find_SomeD: "List.find P xs = Some x \<Longrightarrow> x \<in> set xs \<and> P x"
  by (induction xs) (auto split: if_splits)

lemma find_unique:
  "distinct (map k xs) \<Longrightarrow> x \<in> set xs \<Longrightarrow> List.find (\<lambda>y. k y = k x) xs = Some x"
  by (induction xs) (auto simp: image_iff)

lemma map_of_update [simp]: "map_of (AList.update k v d) = (map_of d)(k \<mapsto> v)"
  by (rule update_conv')

text \<open>Sorting by keys that are pairwise different does not depend on the order of the list.\<close>

lemma sort_key_permute:
  assumes "mset ps = mset qs" and "inj_on k (set ps)"
  shows "sort_key k ps = sort_key k qs"
proof (rule properties_for_sort_key)
  show "mset (sort_key k qs) = mset ps" using assms(1) by simp
  show "sorted (map k (sort_key k qs))" by simp
  fix x assume "x \<in> set (sort_key k qs)"
  with assms(1) have x: "x \<in> set ps" by (metis set_mset_mset set_sort)
  have grp: "filter (\<lambda>y. k x = k y) ys = replicate (count (mset ps) x) x"
    if "mset ys = mset ps" for ys
  proof -
    have "filter (\<lambda>y. k x = k y) ys = filter (\<lambda>y. x = y) ys"
      using that x assms(2) by (intro filter_cong refl) (metis inj_onD set_mset_mset)
    also have "\<dots> = replicate (length (filter (\<lambda>y. x = y) ys)) x"
      by (simp add: replicate_length_filter)
    also have "\<dots> = replicate (count (mset ps) x) x"
      by (simp add: count_mset that [symmetric] count_list_eq_length_filter)
    finally show ?thesis .
  qed
  show "filter (\<lambda>y. k x = k y) (sort_key k qs) = filter (\<lambda>y. k x = k y) ps"
    using assms(1) by (simp add: grp)
qed

end
