(* ===== verification/Models.thy ===== *)
theory Models
  imports PyValues
begin

text \<open>
  \<open>errors.py\<close> and \<open>models.py\<close>: the typed error hierarchy and the domain types.

  An exception is its class and the text \<open>str(exc)\<close> gives; \<open>mro\<close> lists a class with
  its bases, so \<open>except C\<close> is \<open>is_a C\<close>.  Dataclasses are records (the field \<open>f\<close> of
  class \<open>Run\<close> is \<open>r_f\<close>, of \<open>Event\<close> \<open>ev_f\<close>, of \<open>Tool\<close> \<open>t_f\<close>, of \<open>Agent\<close>
  \<open>a_f\<close>, of \<open>Step\<close> \<open>s_f\<close>, of \<open>Workflow\<close> \<open>wf_f\<close>).

  What the process reads from outside is a parameter: \<open>env\<close> gives the value of the
  \<open>n\<close>-th reading of each clock, the \<open>n\<close>-th random UUID and the shortest decimal text of a
  float; the type variable \<open>'x\<close> is
  the state of everything behind the tools (external systems, the model, approvers).
\<close>

section \<open>Errors\<close>

datatype exn_class =
    BassError | ConfigError | PolicyDenied | BudgetExceeded | RateLimited | ApprovalRequired
  | ConnectorError | CircuitOpen | Transient | ToolError | TenantIsolationError
  | MaxStepsExceeded | WorkflowError | AuthError
  | Paused \<comment> \<open>\<open>workflow._Paused\<close>, an \<open>Exception\<close> of its own\<close>
  | KeyError | ValueError | TypeError | AssertionError | IntegrityError
  | PyException string \<comment> \<open>any other subclass of \<open>Exception\<close>, by name\<close>
  | Crash \<comment> \<open>the process dies; no handler sees it\<close>

datatype exn = Exn (exn_cls: exn_class) (exn_str: string)

fun bases :: "exn_class \<Rightarrow> exn_class list" where
  "bases ConfigError = [BassError]"
| "bases PolicyDenied = [BassError]"
| "bases BudgetExceeded = [BassError]"
| "bases RateLimited = [BassError]"
| "bases ApprovalRequired = [BassError]"
| "bases ConnectorError = [BassError]"
| "bases CircuitOpen = [ConnectorError, BassError]"
| "bases Transient = [ConnectorError, BassError]"
| "bases ToolError = [BassError]"
| "bases TenantIsolationError = [BassError]"
| "bases MaxStepsExceeded = [BassError]"
| "bases WorkflowError = [BassError]"
| "bases AuthError = [BassError]"
| "bases _ = []"

text \<open>\<open>except C\<close> for a class of the hierarchy, and \<open>except Exception\<close>.\<close>

definition is_a :: "exn_class \<Rightarrow> exn \<Rightarrow> bool" where
  "is_a c e \<longleftrightarrow> c = exn_cls e \<or> c \<in> set (bases (exn_cls e))"

definition is_exception :: "exn \<Rightarrow> bool" where
  "is_exception e \<longleftrightarrow> exn_cls e \<noteq> Crash"

lemma is_a_ConnectorError [simp]:
  "is_a ConnectorError e \<longleftrightarrow> exn_cls e \<in> {ConnectorError, CircuitOpen, Transient}"
  by (cases e; cases "exn_cls e") (auto simp: is_a_def)

lemma is_a_PolicyDenied [simp]: "is_a PolicyDenied e \<longleftrightarrow> exn_cls e = PolicyDenied"
  by (cases e; cases "exn_cls e") (auto simp: is_a_def)

lemma is_a_Transient [simp]: "is_a Transient e \<longleftrightarrow> exn_cls e = Transient"
  by (cases e; cases "exn_cls e") (auto simp: is_a_def)

text \<open>A step of a function that may raise, without state.\<close>

definition bind_sum :: "exn + 'a \<Rightarrow> ('a \<Rightarrow> exn + 'b) \<Rightarrow> exn + 'b" where
  "bind_sum r f = (case r of Inl e \<Rightarrow> Inl e | Inr x \<Rightarrow> f x)"

lemma bind_sum_simps [simp]: "bind_sum (Inl e) f = Inl e" "bind_sum (Inr x) f = f x"
  by (simp_all add: bind_sum_def)

lemma bind_sum_Inr: "bind_sum r f = Inr y \<longleftrightarrow> (\<exists>x. r = Inr x \<and> f x = Inr y)"
  by (cases r) auto

lemma bind_sum_Inl: "bind_sum r f = Inl e \<longleftrightarrow> r = Inl e \<or> (\<exists>x. r = Inr x \<and> f x = Inl e)"
  by (simp add: bind_sum_def split: sum.splits)

lemma bind_sum_cong: "(\<And>x. r = Inr x \<Longrightarrow> f x = g x) \<Longrightarrow> bind_sum r f = bind_sum r g"
  by (cases r) auto

section \<open>Environment and identifiers\<close>

record env =
  wall :: "nat \<Rightarrow> rat" \<comment> \<open>\<open>time.time()\<close>\<close>
  mono :: "nat \<Rightarrow> rat" \<comment> \<open>\<open>time.monotonic()\<close>\<close>
  uuid_hex :: "nat \<Rightarrow> string" \<comment> \<open>\<open>uuid.uuid4().hex\<close>\<close>
  float_str :: "rat \<Rightarrow> string" \<comment> \<open>\<open>str(f)\<close> of a finite float\<close>

definition new_id :: "env \<Rightarrow> nat \<Rightarrow> string \<Rightarrow> string" where
  "new_id E n prefix = prefix @ ''_'' @ take 12 (uuid_hex E n)"

section \<open>Enumerations\<close>

datatype RunStatus = PENDING | RUNNING | WAITING_APPROVAL | SUCCEEDED | FAILED | CANCELED

fun status_value :: "RunStatus \<Rightarrow> string" where
  "status_value PENDING = ''pending''"
| "status_value RUNNING = ''running''"
| "status_value WAITING_APPROVAL = ''waiting_approval''"
| "status_value SUCCEEDED = ''succeeded''"
| "status_value FAILED = ''failed''"
| "status_value CANCELED = ''canceled''"

datatype PolicyEffect = ALLOW | DENY | REQUIRE_APPROVAL

fun effect_value :: "PolicyEffect \<Rightarrow> string" where
  "effect_value ALLOW = ''allow''"
| "effect_value DENY = ''deny''"
| "effect_value REQUIRE_APPROVAL = ''require_approval''"

datatype ApprovalStatus = AP_PENDING | AP_APPROVED | AP_REJECTED | AP_EXPIRED

definition terminal :: "RunStatus \<Rightarrow> bool" where
  "terminal st \<longleftrightarrow> st \<in> {SUCCEEDED, FAILED, CANCELED}"

lemma terminal_simps [simp]:
  "terminal SUCCEEDED" "terminal FAILED" "terminal CANCELED"
  "\<not> terminal PENDING" "\<not> terminal RUNNING" "\<not> terminal WAITING_APPROVAL"
  by (simp_all add: terminal_def)

section \<open>Tenants, tools and agents\<close>

record Tenant =
  tn_name :: string
  tn_id :: string
  tn_settings :: pydict

text \<open>
  What a call of a tool's function gives within the connector's timeout: a result, no
  answer in time, or an exception.
\<close>

datatype outcome = Returned pyval | TimedOut | Raised exn

record 'x Tool =
  t_name :: string
  t_description :: string
  t_connector :: string
  t_fn :: "pydict \<Rightarrow> 'x \<Rightarrow> outcome \<times> 'x"
  t_side_effect :: bool
  t_cost_usd :: rat
  t_input_schema :: pydict

record Agent =
  a_name :: string
  a_role :: string
  a_instructions :: string
  a_model :: string
  a_tools :: "string list"
  a_max_steps :: int
  a_max_tokens :: int
  a_output_schema :: "pydict option"

definition mk_agent :: "string \<Rightarrow> string \<Rightarrow> string \<Rightarrow> string list \<Rightarrow> Agent" where
  "mk_agent nm role instr tools =
     \<lparr>a_name = nm, a_role = role, a_instructions = instr, a_model = ''claude-sonnet-5'',
      a_tools = tools, a_max_steps = 8, a_max_tokens = 4096, a_output_schema = None\<rparr>"

section \<open>Workflows\<close>

text \<open>
  A step argument is a value or a callable on the run's context, a branch is an optional
  predicate on the context and a target; a callable may raise.
\<close>

datatype arg = Const pyval | Computed "pydict \<Rightarrow> exn + pyval"

record Step =
  s_id :: string
  s_node_type :: string
  s_agent :: "string option"
  s_tool :: "string option"
  s_args :: "(string \<times> arg) list"
  s_branches :: "((pydict \<Rightarrow> exn + bool) option \<times> string) list"
  s_approvers :: "string list"
  s_max_attempts :: int
  s_compensate_with :: "string option"
  s_next :: "string option"

definition mk_step :: "string \<Rightarrow> string \<Rightarrow> Step" where
  "mk_step i nt =
     \<lparr>s_id = i, s_node_type = nt, s_agent = None, s_tool = None, s_args = [], s_branches = [],
      s_approvers = [], s_max_attempts = 3, s_compensate_with = None, s_next = None\<rparr>"

record Workflow =
  wf_name :: string
  wf_steps :: "string \<rightharpoonup> Step"
  wf_start :: string
  wf_version :: int
  wf_budget_usd :: rat
  wf_max_steps :: int
  wf_id :: string

section \<open>Runtime records\<close>

record Event =
  ev_run_id :: string
  ev_tenant_id :: string
  ev_type :: string
  ev_payload :: pydict
  ev_step_id :: "string option"
  ev_actor :: string
  ev_cost_usd :: rat
  ev_seq :: int

record Run =
  r_tenant_id :: string
  r_workflow_id :: string
  r_workflow_version :: int
  r_trigger_event :: pydict
  r_idempotency_key :: string
  r_status :: RunStatus
  r_cursor_step :: "string option"
  r_context :: pydict
  r_cost_usd :: rat
  r_steps_used :: int
  r_result :: pyval
  r_id :: string

definition mk_run :: "string \<Rightarrow> string \<Rightarrow> int \<Rightarrow> pydict \<Rightarrow> string \<Rightarrow> string option \<Rightarrow> string \<Rightarrow> Run" where
  "mk_run tenant wid wver trig key cursor i =
     \<lparr>r_tenant_id = tenant, r_workflow_id = wid, r_workflow_version = wver,
      r_trigger_event = trig, r_idempotency_key = key, r_status = PENDING,
      r_cursor_step = cursor, r_context = [], r_cost_usd = 0, r_steps_used = 0,
      r_result = PNone, r_id = i\<rparr>"

end
