(* ===== verification/RateLimit.thy ===== *)
theory RateLimit
  imports Models
begin

text \<open>
  \<open>ratelimit.py\<close>: the fixed-window limiters.  \<open>InMemoryRateLimiter\<close> keeps a counter per
  (key, window) and drops counters of past windows when there are more than 4096;
  \<open>RedisRateLimiter\<close> uses \<open>INCR\<close> and \<open>EXPIRE\<close> on a Redis server.  The lock makes
  \<open>allow\<close> atomic, so concurrent calls are a sequence of calls.

  The dictionary of counters is an association list.  A call reads the clock once; the time
  it reads is an argument.  The Redis server is a parameter: its state and the two commands.
\<close>

record InMemoryRateLimiter =
  rl_limit :: int
  rl_window_s :: rat
  rl_counts :: "((string \<times> int) \<times> int) list"

definition new_limiter :: "int \<Rightarrow> rat \<Rightarrow> InMemoryRateLimiter" where
  "new_limiter limit window = \<lparr>rl_limit = limit, rl_window_s = window, rl_counts = []\<rparr>"

definition bucket_of :: "rat \<Rightarrow> rat \<Rightarrow> int" where
  "bucket_of now window = \<lfloor>now / window\<rfloor>"

text \<open>\<open>self._counts[k]\<close> of a \<open>defaultdict(int)\<close>.\<close>

definition count_of :: "((string \<times> int) \<times> int) list \<Rightarrow> string \<times> int \<Rightarrow> int" where
  "count_of cs k = (case map_of cs k of None \<Rightarrow> 0 | Some n \<Rightarrow> n)"

definition limiter_allow :: "string \<Rightarrow> rat \<Rightarrow> InMemoryRateLimiter \<Rightarrow> bool \<times> InMemoryRateLimiter" where
  "limiter_allow key now rl =
     (let bucket = bucket_of now (rl_window_s rl);
          counts = AList.update (key, bucket) (count_of (rl_counts rl) (key, bucket) + 1) (rl_counts rl);
          count = count_of counts (key, bucket);
          counts' = (if length counts > 4096 then filter (\<lambda>(k, v). snd k \<ge> bucket) counts else counts)
      in (count \<le> rl_limit rl, rl\<lparr>rl_counts := counts'\<rparr>))"

section \<open>Redis\<close>

record 'r redis_ops =
  redis_incr :: "string \<Rightarrow> 'r \<Rightarrow> int \<times> 'r"
  redis_expire :: "string \<Rightarrow> int \<Rightarrow> 'r \<Rightarrow> 'r"

record RedisRateLimiter =
  rr_limit :: int
  rr_window_s :: int

definition redis_key :: "string \<Rightarrow> int \<Rightarrow> string" where
  "redis_key key bucket = ''rl:'' @ key @ '':'' @ int_str bucket"

definition redis_allow :: "'r redis_ops \<Rightarrow> RedisRateLimiter \<Rightarrow> string \<Rightarrow> rat \<Rightarrow> 'r \<Rightarrow> bool \<times> 'r" where
  "redis_allow R rl key now r =
     (let bucket = bucket_of now (of_int (rr_window_s rl));
          rkey = redis_key key bucket
      in case redis_incr R rkey r of (n, r') \<Rightarrow>
           (n \<le> rr_limit rl, if n = 1 then redis_expire R rkey (rr_window_s rl) r' else r'))"

section \<open>The contract of a fixed-window limiter\<close>

text \<open>A sequence of calls of a limiter, each a key and the time it reads; the answers in
  order.\<close>

fun run_calls :: "(string \<Rightarrow> rat \<Rightarrow> 's \<Rightarrow> bool \<times> 's) \<Rightarrow> (string \<times> rat) list \<Rightarrow> 's \<Rightarrow> bool list \<times> 's" where
  "run_calls allow [] s = ([], s)"
| "run_calls allow ((key, now) # calls) s =
     (case allow key now s of (ok, s') \<Rightarrow>
       (case run_calls allow calls s' of (oks, s'') \<Rightarrow> (ok # oks, s'')))"

text \<open>How many of the calls have the given key in the given window.\<close>

definition seen :: "(rat \<Rightarrow> int) \<Rightarrow> (string \<times> rat) list \<Rightarrow> string \<Rightarrow> int \<Rightarrow> nat" where
  "seen bucket calls key b = length (filter (\<lambda>(k, t). k = key \<and> bucket t = b) calls)"

lemma seen_simps [simp]:
  "seen bucket [] key b = 0"
  "seen bucket ((k, t) # calls) key b = (if k = key \<and> bucket t = b then 1 else 0) + seen bucket calls key b"
  "seen bucket (xs @ ys) key b = seen bucket xs key b + seen bucket ys key b"
  by (simp_all add: seen_def)

text \<open>What \<open>RateLimiter.allow\<close> promises: \<open>cnt\<close> counts the calls of a key in a window that
  has not passed, and a call is admitted while the count is below the limit.\<close>

locale fixed_window =
  fixes allow :: "string \<Rightarrow> rat \<Rightarrow> 's \<Rightarrow> bool \<times> 's"
    and bucket :: "'s \<Rightarrow> rat \<Rightarrow> int"
    and lim :: "'s \<Rightarrow> int"
    and cnt :: "'s \<Rightarrow> string \<Rightarrow> int \<Rightarrow> int"
    and ok :: "'s \<Rightarrow> bool"
  assumes answer: "ok s \<Longrightarrow> fst (allow k t s) \<longleftrightarrow> cnt s k (bucket s t) < lim s"
    and count: "ok s \<Longrightarrow> bucket s t \<le> b \<Longrightarrow>
      cnt (snd (allow k t s)) k' b = cnt s k' b + (if k' = k \<and> b = bucket s t then 1 else 0)"
    and stable: "ok s \<Longrightarrow> ok (snd (allow k t s)) \<and> lim (snd (allow k t s)) = lim s \<and>
      bucket (snd (allow k t s)) = bucket s"
    and window_mono: "ok s \<Longrightarrow> t \<le> t' \<Longrightarrow> bucket s t \<le> bucket s t'"
begin

lemma run_calls_answers:
  assumes "ok s" and "sorted (map snd calls)" and "i < length calls"
  shows "fst (run_calls allow calls s) ! i \<longleftrightarrow>
    cnt s (fst (calls ! i)) (bucket s (snd (calls ! i))) +
      int (seen (bucket s) (take i calls) (fst (calls ! i)) (bucket s (snd (calls ! i)))) < lim s"
  using assms
proof (induction calls arbitrary: s i)
  case Nil
  then show ?case by simp
next
  case (Cons c calls)
  obtain key now where c: "c = (key, now)" by (cases c)
  show ?case
  proof (cases i)
    case 0
    then show ?thesis using answer [OF Cons.prems(1)] by (simp add: c split_beta)
  next
    case (Suc j)
    let ?s = "snd (allow key now s)"
    let ?k = "fst (calls ! j)" and ?b = "bucket s (snd (calls ! j))"
    from Suc Cons.prems have j: "j < length calls" by simp
    then have "calls ! j \<in> set calls" by simp
    with Cons.prems(2) have "now \<le> snd (calls ! j)" by (auto simp: c)
    with Cons.prems(1) have le: "bucket s now \<le> ?b" by (rule window_mono)
    from stable [OF Cons.prems(1)] have st: "ok ?s" "lim ?s = lim s" "bucket ?s = bucket s" by auto
    from Cons.prems(2) have "sorted (map snd calls)" by (simp add: c)
    from Cons.IH [OF st(1) this j] count [OF Cons.prems(1) le, of key ?k] st
    show ?thesis by (simp add: Suc c split_beta algebra_simps)
  qed
qed

lemma length_run_calls: "length (fst (run_calls allow calls s)) = length calls"
  by (induction calls arbitrary: s) (auto simp: split_beta)

end

section \<open>The in-memory limiter keeps the contract\<close>

lemma map_of_filter_keys: "map_of (filter (\<lambda>(k, v). Q k) al) k = (if Q k then map_of al k else None)"
  by (induction al) auto

lemma count_of_update: "count_of (AList.update k v cs) k' = (if k' = k then v else count_of cs k')"
  by (simp add: count_of_def)

lemma count_of_filter: "Q k \<Longrightarrow> count_of (filter (\<lambda>(k, v). Q k) cs) k = count_of cs k"
  by (simp add: count_of_def map_of_filter_keys)

definition mem_bucket :: "InMemoryRateLimiter \<Rightarrow> rat \<Rightarrow> int" where
  "mem_bucket rl t = bucket_of t (rl_window_s rl)"

definition mem_count :: "InMemoryRateLimiter \<Rightarrow> string \<Rightarrow> int \<Rightarrow> int" where
  "mem_count rl key b = count_of (rl_counts rl) (key, b)"

lemma bucket_of_mono: "0 < w \<Longrightarrow> t \<le> t' \<Longrightarrow> bucket_of t w \<le> bucket_of t' w"
  by (simp add: bucket_of_def divide_right_mono floor_mono)

lemma mem_bucket_new [simp]: "mem_bucket (new_limiter limit window) = (\<lambda>t. bucket_of t window)"
  by (simp add: mem_bucket_def new_limiter_def fun_eq_iff)

lemma mem_count_new [simp]: "mem_count (new_limiter limit window) k b = 0"
  by (simp add: mem_count_def new_limiter_def count_of_def)

lemma new_limiter_fields [simp]:
  "rl_limit (new_limiter limit window) = limit" "rl_window_s (new_limiter limit window) = window"
  by (simp_all add: new_limiter_def)

interpretation mem: fixed_window limiter_allow mem_bucket rl_limit mem_count "\<lambda>rl. 0 < rl_window_s rl"
proof unfold_locales
  fix s :: InMemoryRateLimiter and k t b k'
  show "fst (limiter_allow k t s) \<longleftrightarrow> mem_count s k (mem_bucket s t) < rl_limit s"
    by (auto simp: limiter_allow_def Let_def mem_count_def mem_bucket_def count_of_update)
  show "0 < rl_window_s (snd (limiter_allow k t s)) \<and> rl_limit (snd (limiter_allow k t s)) = rl_limit s \<and>
      mem_bucket (snd (limiter_allow k t s)) = mem_bucket s" if "0 < rl_window_s s"
    using that by (simp add: limiter_allow_def Let_def mem_bucket_def fun_eq_iff)
  show "mem_count (snd (limiter_allow k t s)) k' b =
      mem_count s k' b + (if k' = k \<and> b = mem_bucket s t then 1 else 0)" if "mem_bucket s t \<le> b"
    using that count_of_filter [of "\<lambda>k. mem_bucket s t \<le> snd k" "(k', b)"]
    by (auto simp: limiter_allow_def Let_def mem_count_def mem_bucket_def count_of_update)
qed (simp add: mem_bucket_def bucket_of_mono)

section \<open>Properties\<close>

text \<open>C31: the in-memory limiter is exact.  For any interleaving of calls of any keys at
  non-decreasing times, a call is admitted if and only if fewer than \<open>limit\<close> earlier calls
  of the same key fell in the same window, whatever counters were dropped on the way.\<close>

theorem limiter_admits_first_limit:
  assumes "0 < window" and "sorted (map snd calls)" and "i < length calls"
  shows "fst (run_calls limiter_allow calls (new_limiter limit window)) ! i \<longleftrightarrow>
    int (seen (\<lambda>t. bucket_of t window) (take i calls) (fst (calls ! i)) (bucket_of (snd (calls ! i)) window)) < limit"
  using mem.run_calls_answers [of "new_limiter limit window" calls i] assms
  by simp

theorem limiter_admits_first_limit_witness:
  "\<not> fst (run_calls limiter_allow [(''a'', 0), (''b'', 1), (''a'', 59), (''a'', 60)] (new_limiter 1 60)) ! 2 \<and>
   fst (run_calls limiter_allow [(''a'', 0), (''b'', 1), (''a'', 59), (''a'', 60)] (new_limiter 1 60)) ! 3"
proof -
  let ?calls = "[(''a'', 0), (''b'', 1), (''a'', 59), (''a'', 60)] :: (string \<times> rat) list"
  have "fst (run_calls limiter_allow ?calls (new_limiter 1 60)) ! i \<longleftrightarrow>
      int (seen (\<lambda>t. bucket_of t 60) (take i ?calls) (fst (?calls ! i)) (bucket_of (snd (?calls ! i)) 60)) < 1"
    if "i < length ?calls" for i
    using that by (intro limiter_admits_first_limit) simp_all
  note admit = this
  have "bucket_of 0 60 = 0" "bucket_of 1 60 = 0" "bucket_of 59 60 = 0" "bucket_of 60 60 = 1"
    by code_simp+
  with admit [of 2] admit [of 3] show ?thesis by (simp del: run_calls.simps)
qed

end
