(* ===== verification/Connectors.thy ===== *)
theory Connectors
  imports Models
begin

text \<open>
  \<open>connectors.py\<close>: the circuit breaker and \<open>Connector.run\<close>.

  \<open>world\<close> is what a connector call touches outside its own object: the external systems
  \<open>ext\<close>, the number \<open>mclk\<close> of readings of the monotonic clock so far, the delays
  \<open>sleeps\<close> slept so far, and the history \<open>execs\<close> of the calls made through
  \<open>ToolRegistry.execute\<close> (kept for stating properties; no code reads it).  The thread
  pool is the outcome of the call: an answer in time, a timeout, or an exception.
\<close>

record ReliabilityConfig =
  timeout_s :: rat
  max_retries :: int
  backoff_base_s :: rat
  backoff_cap_s :: rat
  breaker_threshold :: int
  breaker_reset_s :: rat

definition default_reliability :: ReliabilityConfig where
  "default_reliability =
     \<lparr>timeout_s = 10, max_retries = 3, backoff_base_s = 5/100, backoff_cap_s = 2,
      breaker_threshold = 5, breaker_reset_s = 30\<rparr>"

section \<open>Circuit breaker\<close>

record CircuitBreaker =
  cb_threshold :: int
  cb_reset_s :: rat
  cb_failures :: int
  cb_opened_at :: "rat option"

definition new_breaker :: "int \<Rightarrow> rat \<Rightarrow> CircuitBreaker" where
  "new_breaker threshold reset =
     \<lparr>cb_threshold = threshold, cb_reset_s = reset, cb_failures = 0, cb_opened_at = None\<rparr>"

text \<open>\<open>allow\<close> at time \<open>now\<close>; the clock is read only when the breaker has opened.\<close>

definition breaker_allow :: "CircuitBreaker \<Rightarrow> rat \<Rightarrow> bool" where
  "breaker_allow b now = (case cb_opened_at b of
      None \<Rightarrow> True
    | Some t \<Rightarrow> now - t \<ge> cb_reset_s b)"

definition record_success :: "CircuitBreaker \<Rightarrow> CircuitBreaker" where
  "record_success b = b\<lparr>cb_failures := 0, cb_opened_at := None\<rparr>"

definition record_failure :: "CircuitBreaker \<Rightarrow> rat \<Rightarrow> CircuitBreaker" where
  "record_failure b now =
     (let b' = b\<lparr>cb_failures := cb_failures b + 1\<rparr>
      in if cb_failures b' \<ge> cb_threshold b' then b'\<lparr>cb_opened_at := Some now\<rparr> else b')"

definition is_open :: "CircuitBreaker \<Rightarrow> rat \<Rightarrow> bool" where
  "is_open b now = (case cb_opened_at b of None \<Rightarrow> False | Some t \<Rightarrow> now - t < cb_reset_s b)"

section \<open>Connector\<close>

record 'x world =
  ext :: 'x
  mclk :: nat
  sleeps :: "rat list"
  execs :: "(string \<times> pydict) list"

record Connector =
  c_name :: string
  c_config :: ReliabilityConfig
  c_breaker :: CircuitBreaker

definition new_connector :: "string \<Rightarrow> ReliabilityConfig \<Rightarrow> Connector" where
  "new_connector nm cfg =
     \<lparr>c_name = nm, c_config = cfg,
      c_breaker = new_breaker (breaker_threshold cfg) (breaker_reset_s cfg)\<rparr>"

type_synonym 'x conn_state = "Connector \<times> 'x world"

text \<open>\<open>self._breaker.allow()\<close>.\<close>

definition conn_allow :: "env \<Rightarrow> 'x conn_state \<Rightarrow> bool \<times> 'x conn_state" where
  "conn_allow E = (\<lambda>(c, w).
     (case cb_opened_at (c_breaker c) of
        None \<Rightarrow> (True, (c, w))
      | Some _ \<Rightarrow> (breaker_allow (c_breaker c) (mono E (mclk w)), (c, w\<lparr>mclk := mclk w + 1\<rparr>))))"

text \<open>\<open>self._breaker.record_failure()\<close>: reads the clock when the threshold is reached.\<close>

definition conn_failure :: "env \<Rightarrow> 'x conn_state \<Rightarrow> 'x conn_state" where
  "conn_failure E = (\<lambda>(c, w).
     (c\<lparr>c_breaker := record_failure (c_breaker c) (mono E (mclk w))\<rparr>,
      if cb_failures (c_breaker c) + 1 \<ge> cb_threshold (c_breaker c) then w\<lparr>mclk := mclk w + 1\<rparr> else w))"

definition conn_success :: "'x conn_state \<Rightarrow> 'x conn_state" where
  "conn_success = (\<lambda>(c, w). (c\<lparr>c_breaker := record_success (c_breaker c)\<rparr>, w))"

definition backoff :: "ReliabilityConfig \<Rightarrow> nat \<Rightarrow> rat" where
  "backoff cfg attempt = min (backoff_base_s cfg * 2 ^ attempt) (backoff_cap_s cfg)"

text \<open>\<open>if attempt < cfg.max_retries: self._sleep(delay)\<close>.\<close>

definition conn_backoff :: "nat \<Rightarrow> 'x conn_state \<Rightarrow> 'x conn_state" where
  "conn_backoff attempt = (\<lambda>(c, w).
     if int attempt < max_retries (c_config c)
     then (c, w\<lparr>sleeps := sleeps w @ [backoff (c_config c) attempt]\<rparr>) else (c, w))"

definition timeout_exn :: "env \<Rightarrow> Connector \<Rightarrow> exn" where
  "timeout_exn E c = Exn Transient (''connector '' @ [CHR 0x27] @ c_name c @ [CHR 0x27] @
     '' timed out after '' @ float_str E (timeout_s (c_config c)) @ ''s'')"

definition failed_exn :: "Connector \<Rightarrow> exn \<Rightarrow> exn" where
  "failed_exn c e = Exn ConnectorError (''connector '' @ [CHR 0x27] @ c_name c @ [CHR 0x27] @
     '' failed: '' @ exn_str e)"

text \<open>The retry loop over the attempts that are left, with the last error seen.\<close>

fun conn_attempts ::
  "env \<Rightarrow> (pydict \<Rightarrow> 'x \<Rightarrow> outcome \<times> 'x) \<Rightarrow> pydict \<Rightarrow> nat list \<Rightarrow> exn option \<Rightarrow>
     'x conn_state \<Rightarrow> (exn + pyval) \<times> 'x conn_state" where
  "conn_attempts E fn args [] prev s =
     ((case prev of None \<Rightarrow> Inl (Exn AssertionError []) | Some e \<Rightarrow> Inl e), s)"
| "conn_attempts E fn args (attempt # rest) prev (c, w) =
     (case fn args (ext w) of (out, x) \<Rightarrow>
        let s = (c, w\<lparr>ext := x\<rparr>) in
        (case out of
           Returned v \<Rightarrow> (Inr v, conn_success s)
         | TimedOut \<Rightarrow>
             conn_attempts E fn args rest (Some (timeout_exn E c)) (conn_backoff attempt (conn_failure E s))
         | Raised e \<Rightarrow>
             if is_a Transient e
             then conn_attempts E fn args rest (Some e) (conn_backoff attempt (conn_failure E s))
             else if is_a ConnectorError e then (Inl e, s)
             else if is_exception e then (Inl (failed_exn c e), conn_failure E s)
             else (Inl e, s)))"

definition connector_run ::
  "env \<Rightarrow> (pydict \<Rightarrow> 'x \<Rightarrow> outcome \<times> 'x) \<Rightarrow> pydict \<Rightarrow> 'x conn_state \<Rightarrow> (exn + pyval) \<times> 'x conn_state" where
  "connector_run E fn args s =
     (case conn_allow E s of (ok, s') \<Rightarrow>
        if \<not> ok
        then (Inl (Exn CircuitOpen (''connector '' @ [CHR 0x27] @ c_name (fst s) @ [CHR 0x27] @
                '' circuit is open'')), s')
        else conn_attempts E fn args [0..<nat (max_retries (c_config (fst s)) + 1)] None s')"

section \<open>The breaker\<close>

text \<open>A breaker is open exactly when the failures since the last success reached the
  threshold.\<close>

definition breaker_inv :: "CircuitBreaker \<Rightarrow> bool" where
  "breaker_inv b \<longleftrightarrow> 0 \<le> cb_failures b \<and> (cb_opened_at b \<noteq> None \<longleftrightarrow> cb_threshold b \<le> cb_failures b)"

lemma breaker_inv_new: "0 < threshold \<Longrightarrow> breaker_inv (new_breaker threshold reset)"
  by (simp add: breaker_inv_def new_breaker_def)

lemma breaker_inv_success: "0 < cb_threshold b \<Longrightarrow> breaker_inv (record_success b)"
  by (simp add: breaker_inv_def record_success_def)

lemma breaker_inv_failure: "breaker_inv b \<Longrightarrow> breaker_inv (record_failure b now)"
  by (auto simp: breaker_inv_def record_failure_def Let_def)

lemma record_failure_fields [simp]:
  "cb_threshold (record_failure b now) = cb_threshold b"
  "cb_reset_s (record_failure b now) = cb_reset_s b"
  "cb_failures (record_failure b now) = cb_failures b + 1"
  by (simp_all add: record_failure_def Let_def)

lemma record_failure_opened:
  "cb_opened_at (record_failure b t) = (if cb_threshold b \<le> cb_failures b + 1 then Some t else cb_opened_at b)"
  by (simp add: record_failure_def Let_def)

lemma record_success_fields [simp]:
  "cb_threshold (record_success b) = cb_threshold b" "cb_reset_s (record_success b) = cb_reset_s b"
  "cb_failures (record_success b) = 0" "cb_opened_at (record_success b) = None"
  by (simp_all add: record_success_def)

lemma fold_failures:
  "cb_failures (fold (\<lambda>t b. record_failure b t) ts b) = cb_failures b + int (length ts)"
  "cb_threshold (fold (\<lambda>t b. record_failure b t) ts b) = cb_threshold b"
  "cb_reset_s (fold (\<lambda>t b. record_failure b t) ts b) = cb_reset_s b"
  by (induction ts arbitrary: b) simp_all

lemma fold_failures_inv: "breaker_inv b \<Longrightarrow> breaker_inv (fold (\<lambda>t b. record_failure b t) ts b)"
  by (induction ts arbitrary: b) (simp_all add: breaker_inv_failure)

section \<open>One run of a connector\<close>

abbreviation iter_ext :: "(pydict \<Rightarrow> 'x \<Rightarrow> outcome \<times> 'x) \<Rightarrow> pydict \<Rightarrow> nat \<Rightarrow> 'x \<Rightarrow> 'x" where
  "iter_ext fn args k \<equiv> (\<lambda>x. snd (fn args x)) ^^ k"

lemma conn_failure_simps [simp]:
  "ext (snd (conn_failure E s)) = ext (snd s)"
  "sleeps (snd (conn_failure E s)) = sleeps (snd s)"
  "execs (snd (conn_failure E s)) = execs (snd s)"
  "c_name (fst (conn_failure E s)) = c_name (fst s)"
  "c_config (fst (conn_failure E s)) = c_config (fst s)"
  by (cases s; simp add: conn_failure_def)+

lemma conn_backoff_simps [simp]:
  "ext (snd (conn_backoff a s)) = ext (snd s)"
  "execs (snd (conn_backoff a s)) = execs (snd s)"
  "c_name (fst (conn_backoff a s)) = c_name (fst s)"
  "c_config (fst (conn_backoff a s)) = c_config (fst s)"
  "sleeps (snd (conn_backoff a s)) = sleeps (snd s) @
     (if int a < max_retries (c_config (fst s)) then [backoff (c_config (fst s)) a] else [])"
  by (cases s; simp add: conn_backoff_def)+

lemma conn_success_simps [simp]:
  "snd (conn_success s) = snd s"
  "c_name (fst (conn_success s)) = c_name (fst s)"
  "c_config (fst (conn_success s)) = c_config (fst s)"
  by (cases s; simp add: conn_success_def)+

lemma conn_allow_simps [simp]:
  "ext (snd (snd (conn_allow E s))) = ext (snd s)"
  "sleeps (snd (snd (conn_allow E s))) = sleeps (snd s)"
  "execs (snd (snd (conn_allow E s))) = execs (snd s)"
  "fst (snd (conn_allow E s)) = fst s"
  by (cases s; simp add: conn_allow_def split: option.split)+

text \<open>What a run of the loop over \<open>atts\<close> may have done: the operation was called between
  zero and \<open>length atts\<close> times, a success is the answer of the last call, and each delay
  slept is the backoff of one of the attempts that is not the last one allowed.\<close>

definition attempts_spec ::
  "(pydict \<Rightarrow> 'x \<Rightarrow> outcome \<times> 'x) \<Rightarrow> pydict \<Rightarrow> nat list \<Rightarrow> 'x conn_state \<Rightarrow>
     (exn + pyval) \<times> 'x conn_state \<Rightarrow> bool" where
  "attempts_spec fn args atts s res \<longleftrightarrow>
     (case res of (r, s') \<Rightarrow>
       (\<exists>k\<le>length atts. ext (snd s') = iter_ext fn args k (ext (snd s)) \<and>
          (\<forall>v. r = Inr v \<longrightarrow> 0 < k \<and> fst (fn args (iter_ext fn args (k - 1) (ext (snd s)))) = Returned v)) \<and>
       execs (snd s') = execs (snd s) \<and> c_name (fst s') = c_name (fst s) \<and>
       c_config (fst s') = c_config (fst s) \<and>
       (\<exists>ds. sleeps (snd s') = sleeps (snd s) @ map (backoff (c_config (fst s))) ds \<and>
             set ds \<subseteq> {a \<in> set atts. int a < max_retries (c_config (fst s))} \<and>
             length ds \<le> length atts))"

lemma iter_ext_Suc: "iter_ext fn args (Suc k) x = iter_ext fn args k (snd (fn args x))"
  by (simp add: funpow_Suc_right del: funpow.simps)

lemma attempts_spec_retry:
  assumes call: "fn args (ext w) = (out, x)"
    and IH: "attempts_spec fn args rest (conn_backoff a (conn_failure E (c, w\<lparr>ext := x\<rparr>))) res"
  shows "attempts_spec fn args (a # rest) (c, w) res"
proof -
  let ?add = "if int a < max_retries (c_config c) then [a] else []"
  obtain r s' where res: "res = (r, s')" by (cases res)
  from IH obtain k where k: "k \<le> length rest" "ext (snd s') = iter_ext fn args k x"
    "\<forall>v. r = Inr v \<longrightarrow> 0 < k \<and> fst (fn args (iter_ext fn args (k - 1) x)) = Returned v"
    by (auto simp: attempts_spec_def res)
  from IH obtain ds where ds: "sleeps (snd s') = (sleeps w @ map (backoff (c_config c)) ?add) @
      map (backoff (c_config c)) ds"
    "set ds \<subseteq> {a \<in> set rest. int a < max_retries (c_config c)}" "length ds \<le> length rest"
    by (auto simp: attempts_spec_def res)
  have "0 < k \<Longrightarrow> iter_ext fn args k (ext w) = iter_ext fn args (k - 1) x"
    using iter_ext_Suc [of "k - 1" fn args "ext w"] call by (simp del: funpow.simps)
  with k have "Suc k \<le> length (a # rest) \<and> ext (snd s') = iter_ext fn args (Suc k) (ext w) \<and>
      (\<forall>v. r = Inr v \<longrightarrow> 0 < Suc k \<and> fst (fn args (iter_ext fn args (Suc k - 1) (ext w))) = Returned v)"
    using iter_ext_Suc [of k fn args "ext w"] call by auto
  moreover have "sleeps (snd s') = sleeps w @ map (backoff (c_config c)) (?add @ ds) \<and>
      set (?add @ ds) \<subseteq> {b \<in> set (a # rest). int b < max_retries (c_config c)} \<and>
      length (?add @ ds) \<le> length (a # rest)"
    using ds by auto
  moreover have "execs (snd s') = execs w \<and> c_name (fst s') = c_name c \<and> c_config (fst s') = c_config c"
    using IH by (simp add: attempts_spec_def res)
  ultimately show ?thesis unfolding attempts_spec_def res by (simp only: prod.case snd_conv fst_conv) blast
qed

lemma attempts_spec_once:
  assumes call: "fn args (ext w) = (out, x)" and "ext (snd s') = x"
    and "\<forall>v. r = Inr v \<longrightarrow> out = Returned v"
    and "sleeps (snd s') = sleeps w" "execs (snd s') = execs w"
    and "c_name (fst s') = c_name c" "c_config (fst s') = c_config c"
  shows "attempts_spec fn args (a # rest) (c, w) (r, s')"
  using assms by (auto simp: attempts_spec_def intro!: exI [of _ "Suc 0"] exI [of _ "[]"])

lemma conn_attempts_spec: "attempts_spec fn args atts s (conn_attempts E fn args atts prev s)"
proof (induction E fn args atts prev s rule: conn_attempts.induct)
  case (1 E fn args prev s)
  then show ?case by (auto simp: attempts_spec_def split: option.splits)
next
  case (2 E fn args a rest prev c w)
  obtain out x where fx: "fn args (ext w) = (out, x)" by (cases "fn args (ext w)")
  show ?case
    using 2 [OF fx [symmetric] refl] attempts_spec_retry [of fn args w out x rest a E c, OF fx]
    by (cases out) (auto simp: fx Let_def intro!: attempts_spec_once [of fn args w, OF fx])
qed


lemma conn_attempts_error:
  assumes "conn_attempts E fn args atts prev s = (Inl e, s')"
    and "prev = None \<longrightarrow> atts \<noteq> []" and "\<forall>p. prev = Some p \<longrightarrow> is_a ConnectorError p"
    and "\<And>x. fst (fn args x) \<noteq> Raised (Exn Crash (exn_str e))"
  shows "is_a ConnectorError e"
  using assms
proof (induction E fn args atts prev s rule: conn_attempts.induct)
  case (1 E fn args prev s)
  then show ?case by (auto split: option.splits)
next
  case (2 E fn args a rest prev c w)
  obtain out x where fx: "fn args (ext w) = (out, x)" by (cases "fn args (ext w)")
  have crash: "\<not> is_exception e' \<Longrightarrow> e' \<noteq> e" if "out = Raised e'" for e'
    using that 2(6) [of "ext w"] fx by (cases e') (auto simp: is_exception_def)
  show ?case
    using 2(1,2) [OF fx [symmetric] refl] 2(3,6) crash
    by (cases out) (auto simp: fx Let_def timeout_exn_def failed_exn_def split: if_splits)
qed

section \<open>Properties\<close>

text \<open>Instances for the examples: clocks that count their readings, and an operation that
  times out \<open>k\<close> times and then answers, with the number of calls as its external state.\<close>

definition ex_env :: env where
  "ex_env = \<lparr>wall = of_nat, mono = of_nat, uuid_hex = (\<lambda>n. replicate n (CHR ''0'') @ ''1'' @ replicate 12 (CHR ''0'')),
     float_str = (\<lambda>_. ''10.0'')\<rparr>"

definition ex_world :: "'x \<Rightarrow> 'x world" where
  "ex_world x = \<lparr>ext = x, mclk = 0, sleeps = [], execs = []\<rparr>"

definition flaky :: "nat \<Rightarrow> pydict \<Rightarrow> nat \<Rightarrow> outcome \<times> nat" where
  "flaky k args n = (if n < k then TimedOut else Returned (PInt (int n)), n + 1)"

lemma connector_run_calls:
  assumes "connector_run E fn args (c, w) = (r, (c', w'))"
  shows "(\<exists>k\<le>nat (max_retries (c_config c) + 1).
            ext w' = iter_ext fn args k (ext w) \<and>
            (\<forall>v. r = Inr v \<longrightarrow> 0 < k \<and> fst (fn args (iter_ext fn args (k - 1) (ext w))) = Returned v)) \<and>
         (\<exists>ds. sleeps w' = sleeps w @ ds \<and> length ds \<le> nat (max_retries (c_config c) + 1) \<and>
            (\<forall>d\<in>set ds. d \<le> backoff_cap_s (c_config c)))"
proof (cases "fst (conn_allow E (c, w))")
  case True
  let ?atts = "[0..<nat (max_retries (c_config c) + 1)]" and ?s = "snd (conn_allow E (c, w))"
  have "connector_run E fn args (c, w) = conn_attempts E fn args ?atts None ?s"
    using True by (simp add: connector_run_def split_beta)
  with assms conn_attempts_spec [of fn args ?atts ?s E None]
  have spec: "attempts_spec fn args ?atts ?s (r, (c', w'))" by simp
  then obtain ds where "sleeps w' = sleeps w @ map (backoff (c_config c)) ds" "length ds \<le> length ?atts"
    by (auto simp: attempts_spec_def)
  then have "sleeps w' = sleeps w @ map (backoff (c_config c)) ds \<and>
      length (map (backoff (c_config c)) ds) \<le> nat (max_retries (c_config c) + 1) \<and>
      (\<forall>d\<in>set (map (backoff (c_config c)) ds). d \<le> backoff_cap_s (c_config c))"
    by (auto simp: backoff_def)
  moreover from spec have "\<exists>k\<le>nat (max_retries (c_config c) + 1).
      ext w' = iter_ext fn args k (ext w) \<and>
      (\<forall>v. r = Inr v \<longrightarrow> 0 < k \<and> fst (fn args (iter_ext fn args (k - 1) (ext w))) = Returned v)"
    by (simp add: attempts_spec_def)
  ultimately show ?thesis by blast
next
  case False
  with assms have "(c', w') = snd (conn_allow E (c, w))" "\<forall>v. r \<noteq> Inr v"
    by (auto simp: connector_run_def split_beta)
  then have "ext w' = ext w" "sleeps w' = sleeps w" "\<forall>v. r \<noteq> Inr v"
    using conn_allow_simps [of E "(c, w)"] by (metis snd_conv)+
  then show ?thesis by (intro conjI exI [of _ 0] exI [of _ "[]"]) auto
qed

text \<open>C32: a connector run is bounded.  The operation is called at most \<open>max_retries + 1\<close>
  times, a result is the answer of the last call made, and every delay slept is at most the
  backoff cap.\<close>

theorem connector_run_bounded:
  assumes "connector_run E fn args (c, w) = (r, (c', w'))"
  shows "(\<exists>k\<le>nat (max_retries (c_config c) + 1).
            ext w' = iter_ext fn args k (ext w) \<and>
            (\<forall>v. r = Inr v \<longrightarrow> 0 < k \<and> fst (fn args (iter_ext fn args (k - 1) (ext w))) = Returned v)) \<and>
         (\<exists>ds. sleeps w' = sleeps w @ ds \<and> length ds \<le> nat (max_retries (c_config c) + 1) \<and>
            (\<forall>d\<in>set ds. d \<le> backoff_cap_s (c_config c)))"
  by (rule connector_run_calls [OF assms])

theorem connector_run_bounded_witness:
  "\<exists>r c' w'. connector_run ex_env (flaky 2) [] (new_connector ''c'' default_reliability, ex_world 0) = (r, (c', w')) \<and>
     r = Inr (PInt 2) \<and> ext w' = 3 \<and>
     (\<exists>ds. sleeps w' = ds \<and> length ds \<le> 4 \<and> (\<forall>d\<in>set ds. d \<le> 2))"
proof -
  obtain r c' w' where run:
    "connector_run ex_env (flaky 2) [] (new_connector ''c'' default_reliability, ex_world 0) = (r, (c', w'))"
    by (metis prod.exhaust)
  have "(case connector_run ex_env (flaky 2) [] (new_connector ''c'' default_reliability, ex_world 0) of
      (r, (c, w)) \<Rightarrow> (r, ext w)) = (Inr (PInt 2), 3)"
    by code_simp
  with run have "r = Inr (PInt 2)" "ext w' = 3" by simp_all
  moreover have "c_config (new_connector ''c'' default_reliability) = default_reliability"
    by (simp add: new_connector_def)
  ultimately show ?thesis using connector_run_bounded [OF run] run
    by (simp add: default_reliability_def ex_world_def)
qed

text \<open>An open breaker shields the dependency.  While the breaker is open a run raises
  \<open>CircuitOpen\<close> and the operation is not attempted: the external state, the breaker and the
  delays are as before.\<close>

theorem connector_open_not_attempted:
  assumes "is_open (c_breaker c) (mono E (mclk w))"
  shows "connector_run E fn args (c, w) =
     (Inl (Exn CircuitOpen (''connector '' @ [CHR 0x27] @ c_name c @ [CHR 0x27] @ '' circuit is open'')),
      (c, w\<lparr>mclk := mclk w + 1\<rparr>))"
  using assms
  by (auto simp: is_open_def connector_run_def conn_allow_def breaker_allow_def split: option.splits)

theorem connector_open_not_attempted_witness:
  "fst (connector_run ex_env (flaky 0) []
     ((new_connector ''c'' default_reliability)\<lparr>c_breaker := fold (\<lambda>t b. record_failure b t) [0, 0, 0, 0, 0] (new_breaker 5 30)\<rparr>,
      ex_world 0)) = Inl (Exn CircuitOpen (''connector '' @ [CHR 0x27] @ ''c'' @ [CHR 0x27] @ '' circuit is open''))"
proof -
  let ?c = "(new_connector ''c'' default_reliability)\<lparr>c_breaker := fold (\<lambda>t b. record_failure b t) [0, 0, 0, 0, 0] (new_breaker 5 30)\<rparr>"
  have "is_open (c_breaker ?c) (mono ex_env (mclk (ex_world (0::nat))))" by code_simp
  from connector_open_not_attempted [OF this] show ?thesis by (simp add: new_connector_def)
qed

text \<open>The breaker trips after exactly \<open>threshold\<close> consecutive failures.  From any
  breaker whose last event was a success, failures at the times \<open>ts\<close> open it if and only if
  there are at least \<open>threshold\<close> of them, and once open it lets a call through again exactly
  when the cooldown has passed since the last failure.\<close>

theorem breaker_trips_at_threshold:
  assumes "0 < cb_threshold b" and "ts \<noteq> []"
  defines "b' \<equiv> fold (\<lambda>t b. record_failure b t) ts (record_success b)"
  shows "(cb_opened_at b' \<noteq> None \<longleftrightarrow> cb_threshold b \<le> int (length ts)) \<and>
    (breaker_allow b' now \<longleftrightarrow> int (length ts) < cb_threshold b \<or> cb_reset_s b \<le> now - last ts) \<and>
    (is_open b' now \<longleftrightarrow> \<not> breaker_allow b' now)"
proof -
  have inv: "breaker_inv b'"
    unfolding b'_def using assms(1) by (intro fold_failures_inv breaker_inv_success)
  have flds: "cb_failures b' = int (length ts)" "cb_threshold b' = cb_threshold b"
    "cb_reset_s b' = cb_reset_s b"
    by (simp_all add: b'_def fold_failures)
  have at: "cb_opened_at b' = Some (last ts)" if "cb_opened_at b' \<noteq> None"
  proof -
    obtain us t where ts: "ts = us @ [t]" using assms(2) by (metis rev_exhaust)
    let ?u = "fold (\<lambda>t b. record_failure b t) us (record_success b)"
    have "b' = record_failure ?u t" by (simp add: b'_def ts)
    moreover from inv flds that have "cb_threshold b \<le> int (length us) + 1"
      by (simp add: breaker_inv_def ts)
    ultimately show ?thesis
      by (simp add: record_failure_opened fold_failures ts)
  qed
  show ?thesis
    using inv flds at by (auto simp: breaker_inv_def breaker_allow_def is_open_def split: option.splits)
qed

theorem breaker_trips_at_threshold_witness:
  "breaker_allow (fold (\<lambda>t b. record_failure b t) [1, 2] (record_success (new_breaker 2 5))) 6 = False \<and>
   breaker_allow (fold (\<lambda>t b. record_failure b t) [1, 2] (record_success (new_breaker 2 5))) 7"
  using breaker_trips_at_threshold [of "new_breaker 2 5" "[1, 2]" 6]
    breaker_trips_at_threshold [of "new_breaker 2 5" "[1, 2]" 7]
  by (simp add: new_breaker_def)

text \<open>A failed run raises only connector errors.  With a non-negative retry count, an
  operation that fails in any way makes \<open>Connector.run\<close> raise a \<open>ConnectorError\<close> (or a
  subclass), which is what the workflow engine retries and compensates on.\<close>

theorem connector_run_error_class:
  assumes "connector_run E fn args (c, w) = (Inl e, s')" and "0 \<le> max_retries (c_config c)"
    and "\<And>x. fst (fn args x) \<noteq> Raised (Exn Crash (exn_str e))"
  shows "is_a ConnectorError e"
proof (cases "fst (conn_allow E (c, w))")
  case True
  with assms(1) have
    "conn_attempts E fn args [0..<nat (max_retries (c_config c) + 1)] None (snd (conn_allow E (c, w))) = (Inl e, s')"
    by (simp add: connector_run_def split_beta)
  moreover have "[0..<nat (max_retries (c_config c) + 1)] \<noteq> []" using assms(2) by simp
  ultimately show ?thesis using assms(3) by (intro conn_attempts_error [of E fn args]) auto
next
  case False
  with assms(1) show ?thesis by (auto simp: connector_run_def split_beta)
qed

theorem connector_run_error_class_witness:
  "\<exists>e s'. connector_run ex_env (\<lambda>args x. (Raised (Exn KeyError ''k''), x)) []
       (new_connector ''c'' default_reliability, ex_world (0::nat)) = (Inl e, s') \<and> is_a ConnectorError e"
proof -
  obtain e s' where run: "connector_run ex_env (\<lambda>args x. (Raised (Exn KeyError ''k''), x)) []
       (new_connector ''c'' default_reliability, ex_world (0::nat)) = (Inl e, s')"
    by (simp add: connector_run_def conn_allow_def new_connector_def new_breaker_def
        default_reliability_def upt_rec is_exception_def)
  have "is_a ConnectorError e"
    by (rule connector_run_error_class [OF run])
      (simp_all add: new_connector_def default_reliability_def)
  with run show ?thesis by blast
qed

text \<open>A half-open breaker does not limit the trial to one call.  After the cooldown a
  run against an operation that keeps timing out calls it \<open>max_retries + 1\<close> times, since the
  breaker is asked only before the first attempt.\<close>

theorem half_open_trial_retries:
  assumes "cb_opened_at (c_breaker c) = Some t" and "cb_reset_s (c_breaker c) \<le> mono E (mclk w) - t"
    and "\<And>x. fst (fn args x) = TimedOut"
  shows "ext (snd (snd (connector_run E fn args (c, w)))) =
    iter_ext fn args (nat (max_retries (c_config c) + 1)) (ext w)"
proof -
  have all: "ext (snd (snd (conn_attempts E fn args atts prev s))) =
      iter_ext fn args (length atts) (ext (snd s))" for atts prev s
  proof (induction atts arbitrary: prev s)
    case Nil
    then show ?case by simp
  next
    case (Cons a atts)
    obtain c w where s: "s = (c, w)" by (cases s)
    have "conn_attempts E fn args (a # atts) prev s = conn_attempts E fn args atts (Some (timeout_exn E c))
        (conn_backoff a (conn_failure E (c, w\<lparr>ext := snd (fn args (ext w))\<rparr>)))"
      using assms(3) [of "ext w"] by (simp add: s split_beta Let_def)
    then show ?case by (simp add: Cons s iter_ext_Suc del: funpow.simps conn_attempts.simps)
  qed
  have "conn_allow E (c, w) = (True, (c, w\<lparr>mclk := mclk w + 1\<rparr>))"
    using assms(1,2) by (simp add: conn_allow_def breaker_allow_def)
  then show ?thesis by (simp add: connector_run_def all del: upt_Suc)
qed

theorem half_open_trial_retries_witness:
  "ext (snd (snd (connector_run ex_env (\<lambda>args n. (TimedOut, n + 1)) []
     ((new_connector ''c'' default_reliability)\<lparr>c_breaker := record_failure (new_breaker 1 0) 0\<rparr>,
      ex_world (0::nat))))) = 4"
proof -
  let ?c = "(new_connector ''c'' default_reliability)\<lparr>c_breaker := record_failure (new_breaker 1 0) 0\<rparr>"
  have "ext (snd (snd (connector_run ex_env (\<lambda>args n. (TimedOut, n + 1)) [] (?c, ex_world (0::nat))))) =
      iter_ext (\<lambda>args n. (TimedOut, n + 1)) [] (nat (max_retries (c_config ?c) + 1)) (ext (ex_world 0))"
    by (rule half_open_trial_retries [where t = 0])
      (simp_all add: record_failure_def new_breaker_def ex_env_def ex_world_def)
  then show ?thesis
    by (simp add: new_connector_def default_reliability_def ex_world_def numeral_eq_Suc)
qed

end
