(* ===== verification/PyNumbers.thy ===== *)
theory PyNumbers
  imports Models
begin

text \<open>
  Python's conversions from text to numbers, \<open>int(s)\<close> and \<open>float(v)\<close>, and the string
  operations used next to them.  A float literal denotes its exact decimal value.
\<close>

definition py_space :: "char \<Rightarrow> bool" where
  "py_space c \<longleftrightarrow> (let n = of_char c :: nat in
     9 \<le> n \<and> n \<le> 13 \<or> 28 \<le> n \<and> n \<le> 32 \<or> n = 133 \<or> n = 160)"

definition py_strip :: "string \<Rightarrow> string" where
  "py_strip s = rev (dropWhile py_space (rev (dropWhile py_space s)))"

definition is_digit :: "char \<Rightarrow> bool" where
  "is_digit c \<longleftrightarrow> 48 \<le> (of_char c :: nat) \<and> (of_char c :: nat) \<le> 57"

definition digit_val :: "char \<Rightarrow> nat" where
  "digit_val c = of_char c - 48"

fun digits_val :: "nat \<Rightarrow> bool \<Rightarrow> string \<Rightarrow> nat option" where
  "digits_val acc ok [] = (if ok then Some acc else None)"
| "digits_val acc ok (c # cs) =
     (if is_digit c then digits_val (10 * acc + digit_val c) True cs
      else if c = CHR ''_'' \<and> ok then digits_val acc False cs
      else None)"

fun int_body :: "string \<Rightarrow> int option" where
  "int_body [] = None"
| "int_body (c # cs) =
     (if c = CHR ''-'' then map_option (\<lambda>n. - int n) (digits_val 0 False cs)
      else if c = CHR ''+'' then map_option int (digits_val 0 False cs)
      else map_option int (digits_val 0 False (c # cs)))"

text \<open>\<open>int(s)\<close>; the message of the \<open>ValueError\<close> is not used by the callers.\<close>

definition py_int :: "string \<Rightarrow> exn + int" where
  "py_int s = (case int_body (py_strip s) of
      Some i \<Rightarrow> Inr i
    | None \<Rightarrow> Inl (Exn ValueError (''invalid literal for int() with base 10: '' @ s)))"

section \<open>\<open>repr\<close> of a string\<close>

definition hex_digit :: "nat \<Rightarrow> char" where
  "hex_digit d = char_of (if d < 10 then 48 + d else 87 + d)"

definition repr_char :: "char \<Rightarrow> char \<Rightarrow> string" where
  "repr_char q c =
     (let n = of_char c :: nat in
      if c = q \<or> n = 92 then [CHR 0x5C, c]
      else if n = 9 then [CHR 0x5C, CHR ''t'']
      else if n = 10 then [CHR 0x5C, CHR ''n'']
      else if n = 13 then [CHR 0x5C, CHR ''r'']
      else if n < 32 \<or> 127 \<le> n \<and> n \<le> 160 \<or> n = 173
      then [CHR 0x5C, CHR ''x'', hex_digit (n div 16), hex_digit (n mod 16)]
      else [c])"

definition repr_str :: "string \<Rightarrow> string" where
  "repr_str s =
     (let q = (if CHR 0x27 \<in> set s \<and> CHR 0x22 \<notin> set s then CHR 0x22 else CHR 0x27)
      in [q] @ concat (map (repr_char q) s) @ [q])"

section \<open>Floats\<close>

fun scan_digits :: "nat \<Rightarrow> nat \<Rightarrow> string \<Rightarrow> nat \<times> nat \<times> string" where
  "scan_digits acc n [] = (acc, n, [])"
| "scan_digits acc n (c # cs) =
     (if is_digit c then scan_digits (10 * acc + digit_val c) (Suc n) cs
      else if c = CHR ''_'' \<and> 0 < n \<and> cs \<noteq> [] \<and> is_digit (hd cs) then scan_digits acc n cs
      else (acc, n, c # cs))"

definition ascii_lower :: "char \<Rightarrow> char" where
  "ascii_lower c = (let n = of_char c :: nat in if 65 \<le> n \<and> n \<le> 90 then char_of (n + 32) else c)"

definition split_sign :: "string \<Rightarrow> bool \<times> string" where
  "split_sign s = (case s of [] \<Rightarrow> (False, [])
     | c # cs \<Rightarrow> if c = CHR ''-'' then (True, cs) else if c = CHR ''+'' then (False, cs) else (False, s))"

definition float_exponent :: "string \<Rightarrow> int option" where
  "float_exponent s = (case s of [] \<Rightarrow> Some 0
     | c # cs \<Rightarrow>
         if ascii_lower c = CHR ''e''
         then (case split_sign cs of (neg, ds) \<Rightarrow>
                (case scan_digits 0 0 ds of (e, n, rest) \<Rightarrow>
                   if 0 < n \<and> rest = [] then Some (if neg then - int e else int e) else None))
         else None)"

definition scale10 :: "rat \<Rightarrow> int \<Rightarrow> rat" where
  "scale10 q e = (if e < 0 then q / 10 ^ nat (- e) else q * 10 ^ nat e)"

definition float_number :: "string \<Rightarrow> rat option" where
  "float_number s =
     (case scan_digits 0 0 s of (i, ni, r1) \<Rightarrow>
       (case (case r1 of [] \<Rightarrow> (0, 0, []) | c # cs \<Rightarrow>
                if c = CHR ''.'' then scan_digits 0 0 cs else (0, 0, r1)) of (f, nf, r2) \<Rightarrow>
          if ni + nf = 0 then None
          else map_option (scale10 (of_nat i + of_nat f / 10 ^ nf)) (float_exponent r2)))"

definition float_body :: "string \<Rightarrow> pyfloat option" where
  "float_body s =
     (case split_sign s of (neg, b) \<Rightarrow>
        let l = map ascii_lower b in
        if l = ''inf'' \<or> l = ''infinity'' then Some (if neg then NegInf else PosInf)
        else if l = ''nan'' then Some NaN
        else map_option (\<lambda>q. Fin (if neg then - q else q)) (float_number b))"

fun py_float :: "pyval \<Rightarrow> exn + pyfloat" where
  "py_float (PBool b) = Inr (Fin (if b then 1 else 0))"
| "py_float (PInt i) = Inr (Fin (of_int i))"
| "py_float (PFloat f) = Inr f"
| "py_float (PStr s) = (case float_body (py_strip s) of
      Some f \<Rightarrow> Inr f
    | None \<Rightarrow> Inl (Exn ValueError (''could not convert string to float: '' @ s)))"
| "py_float _ = Inl (Exn TypeError ''float() argument must be a string or a real number'')"

text \<open>\<open>x > n\<close> for a float and an integer: comparisons with not-a-number are false.\<close>

fun float_gt :: "pyfloat \<Rightarrow> int \<Rightarrow> bool" where
  "float_gt (Fin q) n = (q > of_int n)"
| "float_gt PosInf n = True"
| "float_gt NegInf n = False"
| "float_gt NaN n = False"

lemmas py_number_defs =
  py_strip_def py_space_def float_body_def split_sign_def ascii_lower_def float_number_def
  is_digit_def digit_val_def float_exponent_def scale10_def py_int_def

section \<open>Decimal text round trip\<close>

lemma digit_char_is_digit [simp]: "d < 10 \<Longrightarrow> is_digit (digit_char d)"
  by (simp add: is_digit_def digit_char_def)

lemma digit_val_digit_char [simp]: "d < 10 \<Longrightarrow> digit_val (digit_char d) = d"
  by (simp add: digit_val_def digit_char_def)

lemma nat_str_digits: "\<forall>c\<in>set (nat_str n). is_digit c"
proof (induction n rule: nat_str.induct)
  case (1 n)
  then show ?case
    by (cases "n < 10") (auto simp: nat_str.simps [of n])
qed

lemma nat_str_free: "c \<in> set (nat_str n) \<Longrightarrow> is_digit c"
  using nat_str_digits by blast

lemma digits_val_append:
  "digits_val a b xs = Some v \<Longrightarrow> \<forall>c\<in>set xs. is_digit c \<Longrightarrow>
     digits_val a b (xs @ ys) = digits_val v True ys"
  by (induction xs arbitrary: a b) (auto split: if_splits)

lemma digits_val_nat_str: "digits_val 0 b (nat_str n) = Some n"
proof (induction n rule: nat_str.induct)
  case (1 n)
  show ?case
  proof (cases "n < 10")
    case True
    then show ?thesis by (simp add: nat_str.simps [of n])
  next
    case False
    with "1.IH" have "digits_val 0 b (nat_str (n div 10)) = Some (n div 10)" by simp
    then show ?thesis
      using False nat_str_digits [of "n div 10"]
      by (simp add: nat_str.simps [of n] digits_val_append)
  qed
qed

lemma is_digit_not_special:
  "is_digit c \<Longrightarrow> \<not> py_space c \<and> c \<noteq> CHR ''-'' \<and> c \<noteq> CHR ''+'' \<and> c \<noteq> CHR ''_'' \<and> c \<noteq> CHR '','' \<and>
     c \<noteq> CHR ''/'' \<and> c \<noteq> CHR ''*''"
  by (auto simp: is_digit_def py_space_def Let_def)

lemma dropWhile_none: "\<forall>c\<in>set s. \<not> P c \<Longrightarrow> dropWhile P s = s"
  by (cases s) auto

lemma py_strip_id: "\<forall>c\<in>set s. \<not> py_space c \<Longrightarrow> py_strip s = s"
  by (simp add: py_strip_def dropWhile_none)

lemma py_int_nat_str [simp]: "py_int (nat_str n) = Inr (int n)"
proof -
  have "py_strip (nat_str n) = nat_str n"
    using nat_str_digits is_digit_not_special by (intro py_strip_id) blast
  moreover obtain c cs where c: "nat_str n = c # cs" by (cases "nat_str n") auto
  ultimately show ?thesis
    using digits_val_nat_str [of False n] nat_str_digits [of n] is_digit_not_special [of c]
    by (simp add: py_int_def)
qed

end
