(* ===== verification/Tools.thy ===== *)
theory Tools
  imports Connectors PyNumbers
begin

text \<open>
  \<open>tools.py\<close>: the tool registry, the example accounting system and the offline model.

  \<open>registry\<close> is the object \<open>ToolRegistry\<close> with its connectors, whose breakers change as
  tools run.  \<open>execute\<close> also records the call in the history \<open>execs\<close> of the world.
\<close>

record 'x ToolRegistry =
  tr_tools :: "string \<rightharpoonup> 'x Tool"
  tr_connectors :: "string \<rightharpoonup> Connector"

definition empty_registry :: "'x ToolRegistry" where
  "empty_registry = \<lparr>tr_tools = Map.empty, tr_connectors = Map.empty\<rparr>"

definition register_connector :: "Connector \<Rightarrow> 'x ToolRegistry \<Rightarrow> 'x ToolRegistry" where
  "register_connector c reg = reg\<lparr>tr_connectors := (tr_connectors reg)(c_name c \<mapsto> c)\<rparr>"

definition register :: "'x Tool \<Rightarrow> 'x ToolRegistry \<Rightarrow> exn + 'x ToolRegistry" where
  "register tool reg =
     (if tr_connectors reg (t_connector tool) = None
      then Inl (Exn ToolError (''tool '' @ [CHR 0x27] @ t_name tool @ [CHR 0x27] @
             '' names unknown connector '' @ [CHR 0x27] @ t_connector tool @ [CHR 0x27]))
      else Inr (reg\<lparr>tr_tools := (tr_tools reg)(t_name tool \<mapsto> tool)\<rparr>))"

definition get_tool :: "string \<Rightarrow> 'x ToolRegistry \<Rightarrow> exn + 'x Tool" where
  "get_tool name reg = (case tr_tools reg name of
      None \<Rightarrow> Inl (Exn ToolError (''unknown tool: '' @ name))
    | Some tool \<Rightarrow> Inr tool)"

definition execute ::
  "env \<Rightarrow> string \<Rightarrow> pydict \<Rightarrow> 'x ToolRegistry \<times> 'x world \<Rightarrow> (exn + pyval) \<times> 'x ToolRegistry \<times> 'x world" where
  "execute E name args = (\<lambda>(reg, w).
     (case get_tool name reg of
        Inl e \<Rightarrow> (Inl e, (reg, w))
      | Inr tool \<Rightarrow>
          (case tr_connectors reg (t_connector tool) of
             None \<Rightarrow> (Inl (Exn KeyError (repr_str (t_connector tool))), (reg, w))
           | Some c \<Rightarrow>
               (case connector_run E (t_fn tool) args (c, w\<lparr>execs := execs w @ [(name, args)]\<rparr>) of
                  (r, (c', w')) \<Rightarrow>
                    (r, (reg\<lparr>tr_connectors := (tr_connectors reg)(t_connector tool \<mapsto> c')\<rparr>, w'))))))"

text \<open>Every registered tool names a registered connector.\<close>

definition registry_inv :: "'x ToolRegistry \<Rightarrow> bool" where
  "registry_inv reg \<longleftrightarrow>
     (\<forall>n t. tr_tools reg n = Some t \<longrightarrow> t_name t = n \<and> tr_connectors reg (t_connector t) \<noteq> None)"

section \<open>The example accounting system\<close>

definition known_vendors :: "string \<rightharpoonup> pydict" where
  "known_vendors = map_of
     [(''Globex Corp'', [(''id'', PStr ''V-100''), (''currency'', PStr ''USD'')]),
      (''Initech'', [(''id'', PStr ''V-200''), (''currency'', PStr ''USD'')])]"

type_synonym accounting = "(pyval \<times> pyval) list" \<comment> \<open>\<open>_entries\<close>: idempotency key to entry\<close>

definition lookup_vendor :: "pydict \<Rightarrow> accounting \<Rightarrow> outcome \<times> accounting" where
  "lookup_vendor args acct =
     (let vendor = dget args ''vendor'' PNone;
          found = (case vendor of PStr v \<Rightarrow> known_vendors v | _ \<Rightarrow> None)
      in (Returned (PDict
            [(''vendor'', vendor),
             (''id'', case found of None \<Rightarrow> PNone | Some d \<Rightarrow> dget d ''id'' PNone),
             (''known'', PBool (found \<noteq> None))]), acct))"

text \<open>\<open>args.get("_idempotency_key") or args.get("invoice_number") or ""\<close>.\<close>

definition entry_key :: "pydict \<Rightarrow> pyval" where
  "entry_key args =
     (let a = dget args ''_idempotency_key'' PNone; b = dget args ''invoice_number'' PNone
      in if truthy a then a else if truthy b then b else PStr [])"

text \<open>A value as a dictionary key: numbers are keys by value, lists and dictionaries are not
  hashable.\<close>

fun hash_key :: "pyval \<Rightarrow> pyval option" where
  "hash_key (PBool b) = Some (PInt (if b then 1 else 0))"
| "hash_key (PFloat (Fin q)) = Some (if q = of_int \<lfloor>q\<rfloor> then PInt \<lfloor>q\<rfloor> else PFloat (Fin q))"
| "hash_key (PList _) = None"
| "hash_key (PDict _) = None"
| "hash_key v = Some v"

definition create_ap_entry :: "pydict \<Rightarrow> accounting \<Rightarrow> outcome \<times> accounting" where
  "create_ap_entry args acct =
     (case hash_key (entry_key args) of
        None \<Rightarrow> (Raised (Exn TypeError ''unhashable type''), acct)
      | Some key \<Rightarrow>
          (case map_of acct key of
             Some entry \<Rightarrow> (Returned entry, acct)
           | None \<Rightarrow>
               let entry = PDict
                 [(''vendor'', dget args ''vendor'' PNone),
                  (''invoice_number'', dget args ''invoice_number'' PNone),
                  (''amount'', dget args ''amount'' PNone),
                  (''status'', PStr ''posted'')]
               in (Returned entry, AList.update key entry acct)))"

definition accounting_count :: "accounting \<Rightarrow> nat" where
  "accounting_count acct = length acct"

section \<open>The example registry\<close>

definition lookup_vendor_tool :: "accounting Tool" where
  "lookup_vendor_tool =
     \<lparr>t_name = ''lookup_vendor'', t_description = ''Look up a vendor by name; returns id and known-status.'',
      t_connector = ''accounting'', t_fn = lookup_vendor, t_side_effect = False, t_cost_usd = 0,
      t_input_schema =
        [(''type'', PStr ''object''),
         (''properties'', PDict [(''vendor'', PDict [(''type'', PStr ''string'')])]),
         (''required'', PList [PStr ''vendor''])]\<rparr>"

definition create_ap_entry_tool :: "accounting Tool" where
  "create_ap_entry_tool =
     \<lparr>t_name = ''create_ap_entry'', t_description = ''Create an accounts-payable entry in the accounting system.'',
      t_connector = ''accounting'', t_fn = create_ap_entry, t_side_effect = True, t_cost_usd = 0,
      t_input_schema =
        [(''type'', PStr ''object''),
         (''properties'', PDict
           [(''vendor'', PDict [(''type'', PStr ''string'')]),
            (''invoice_number'', PDict [(''type'', PStr ''string'')]),
            (''amount'', PDict [(''type'', PStr ''number'')])]),
         (''required'', PList [PStr ''vendor'', PStr ''invoice_number'', PStr ''amount''])]\<rparr>"

definition default_registry :: "exn + accounting ToolRegistry" where
  "default_registry =
     (case register lookup_vendor_tool
             (register_connector (new_connector ''accounting'' default_reliability) empty_registry) of
        Inl e \<Rightarrow> Inl e
      | Inr reg \<Rightarrow> register create_ap_entry_tool reg)"

section \<open>The model interface\<close>

text \<open>
  What \<open>respond\<close> returns, by the keys the agent loop reads; \<open>None\<close> is a missing key.
\<close>

record ModelCall =
  call_tool :: "string option"
  call_args :: "pydict option"
  call_id :: "pyval option"

record ModelResponse =
  resp_type :: "string option"
  resp_cost_usd :: "rat option"
  resp_calls :: "ModelCall list option"
  resp_output :: "pyval option"

definition final_response :: "rat \<Rightarrow> pyval \<Rightarrow> ModelResponse" where
  "final_response cost out =
     \<lparr>resp_type = Some ''final'', resp_cost_usd = Some cost, resp_calls = None, resp_output = Some out\<rparr>"

definition mock_respond :: "Agent \<Rightarrow> pydict \<Rightarrow> pydict \<Rightarrow> exn + ModelResponse" where
  "mock_respond agent task scratch =
     (if a_name agent = ''invoice_extractor''
      then (case dget task ''email'' (PDict []) of
              PDict email \<Rightarrow> Inr (final_response (2/1000) (PDict
                [(''vendor'', dget email ''vendor'' (PStr ''Globex Corp'')),
                 (''invoice_number'', dget email ''invoice_number'' (PStr ''INV-4471'')),
                 (''amount'', dget email ''amount'' (PFloat (Fin 8200))),
                 (''currency'', PStr ''USD'')]))
            | _ \<Rightarrow> Inl (Exn (PyException ''AttributeError'') ''object has no attribute get''))
      else Inr (final_response (1/1000) (PDict task)))"

section \<open>Registry invariant and what execute does\<close>

lemma empty_registry_inv: "registry_inv empty_registry"
  by (simp add: registry_inv_def empty_registry_def)

lemma register_connector_inv: "registry_inv reg \<Longrightarrow> registry_inv (register_connector c reg)"
  by (auto simp: registry_inv_def register_connector_def)

lemma register_inv: "registry_inv reg \<Longrightarrow> register tool reg = Inr reg' \<Longrightarrow> registry_inv reg'"
  by (auto simp: registry_inv_def register_def split: if_splits)

lemma default_registry_inv: "\<exists>reg. default_registry = Inr reg \<and> registry_inv reg"
  by (auto simp: default_registry_def register_def register_connector_def empty_registry_def
      lookup_vendor_tool_def create_ap_entry_tool_def new_connector_def registry_inv_def)

lemma conn_attempts_execs:
  "execs (snd (snd (conn_attempts E fn args as prev s))) = execs (snd s)"
proof (induction E fn args as prev s rule: conn_attempts.induct)
  case (2 E fn args a as prev c w)
  then show ?case
    by (auto simp: Let_def conn_success_def conn_failure_def conn_backoff_def
        split: prod.splits outcome.splits if_splits)
qed simp

lemma connector_run_execs: "connector_run E fn args (c, w) = (r, (c', w')) \<Longrightarrow> execs w' = execs w"
  using conn_attempts_execs [of E fn args _ _ "snd (conn_allow E (c, w))"]
  by (auto simp: connector_run_def conn_allow_def split: prod.splits option.splits if_splits)
    (metis snd_conv)+

text \<open>A call through the registry is recorded exactly when the tool is known, and leaves the
  tools alone.\<close>

lemma execute_frame:
  assumes "execute E name args (reg, w) = (r, (reg', w'))"
  shows "tr_tools reg' = tr_tools reg"
    and "execs w' = (if \<exists>t c. tr_tools reg name = Some t \<and> tr_connectors reg (t_connector t) = Some c
                     then execs w @ [(name, args)] else execs w)"
  using assms by (auto simp: execute_def get_tool_def split: option.splits prod.splits dest: connector_run_execs)

end
