(* ===== verification/Policy.thy ===== *)
theory Policy
  imports PyNumbers
begin

text \<open>
  \<open>policy.py\<close>: the policy engine.  A policy's predicate is a function of the agent, the
  tool, the arguments and the run context that may raise; the engine keeps the policies
  sorted by priority (\<open>sorted\<close> is stable, as \<open>sort_key\<close> is) and the first that matches
  or errors decides.
\<close>

record Decision =
  d_effect :: PolicyEffect
  d_reason :: string
  d_approvers :: "string list"

record 'x Policy =
  p_name :: string
  p_version :: int
  p_applies :: "Agent \<Rightarrow> 'x Tool \<Rightarrow> pydict \<Rightarrow> pydict \<Rightarrow> exn + bool"
  p_effect :: PolicyEffect
  p_reason :: string
  p_approvers :: "string list"
  p_priority :: int

record 'x PolicyEngine =
  policies :: "'x Policy list"

definition policy_engine :: "'x Policy list \<Rightarrow> 'x PolicyEngine" where
  "policy_engine ps = \<lparr>policies = sort_key p_priority ps\<rparr>"

fun check_policies :: "'x Policy list \<Rightarrow> Agent \<Rightarrow> 'x Tool \<Rightarrow> pydict \<Rightarrow> pydict \<Rightarrow> Decision" where
  "check_policies [] agent tool args context =
     (if t_side_effect tool
      then \<lparr>d_effect = DENY,
            d_reason = ''no policy permits mutating tool '' @ [CHR 0x27] @ t_name tool @
                       [CHR 0x27] @ '' (deny-by-default)'',
            d_approvers = []\<rparr>
      else \<lparr>d_effect = ALLOW, d_reason = ''read-only tool, default allow'', d_approvers = []\<rparr>)"
| "check_policies (p # ps) agent tool args context =
     (case p_applies p agent tool args context of
        Inl _ \<Rightarrow> \<lparr>d_effect = DENY,
                  d_reason = ''policy '' @ [CHR 0x27] @ p_name p @ [CHR 0x27] @
                             '' errored during evaluation'',
                  d_approvers = []\<rparr>
      | Inr matched \<Rightarrow>
          if matched
          then \<lparr>d_effect = p_effect p,
                d_reason = ''policy '' @ [CHR 0x27] @ p_name p @ [CHR 0x27] @ '' v'' @
                           int_str (p_version p) @ '': '' @ p_reason p,
                d_approvers = p_approvers p\<rparr>
          else check_policies ps agent tool args context)"

definition check :: "'x PolicyEngine \<Rightarrow> Agent \<Rightarrow> 'x Tool \<Rightarrow> pydict \<Rightarrow> pydict \<Rightarrow> Decision" where
  "check pe agent tool args context =
     (if t_name tool \<notin> set (a_tools agent)
      then \<lparr>d_effect = DENY,
            d_reason = [CHR 0x27] @ t_name tool @ [CHR 0x27] @ '' not in '' @ a_name agent @
                       [CHR 0x27] @ ''s allow-list'',
            d_approvers = []\<rparr>
      else check_policies (policies pe) agent tool args context)"

section \<open>The reference ruleset\<close>

definition default_policies :: "'x Policy list" where
  "default_policies =
     [\<lparr>p_name = ''read-only-ok'', p_version = 1,
       p_applies = (\<lambda>a t args ctx. Inr (\<not> t_side_effect t)),
       p_effect = ALLOW, p_reason = ''read-only tools are always permitted'',
       p_approvers = [], p_priority = 10\<rparr>,
      \<lparr>p_name = ''large-ap-entry-needs-approval'', p_version = 1,
       p_applies = (\<lambda>a t args ctx.
         if t_name t = ''create_ap_entry''
         then (case py_float (dget args ''amount'' (PInt 0)) of
                 Inl e \<Rightarrow> Inl e | Inr f \<Rightarrow> Inr (float_gt f 5000))
         else Inr False),
       p_effect = REQUIRE_APPROVAL, p_reason = ''AP entries over $5,000 require finance approval'',
       p_approvers = [''finance-team''], p_priority = 20\<rparr>,
      \<lparr>p_name = ''small-ap-entry-ok'', p_version = 1,
       p_applies = (\<lambda>a t args ctx. Inr (t_name t = ''create_ap_entry'')),
       p_effect = ALLOW, p_reason = ''AP entries at or under $5,000 are auto-approved'',
       p_approvers = [], p_priority = 30\<rparr>]"

section \<open>First match in priority order\<close>

definition matches :: "'x Policy \<Rightarrow> Agent \<Rightarrow> 'x Tool \<Rightarrow> pydict \<Rightarrow> pydict \<Rightarrow> bool" where
  "matches p agent tool args context \<longleftrightarrow> p_applies p agent tool args context = Inr True"

text \<open>The policies that take part in a decision: the ones that match or error.\<close>

definition decisive :: "'x Policy \<Rightarrow> Agent \<Rightarrow> 'x Tool \<Rightarrow> pydict \<Rightarrow> pydict \<Rightarrow> bool" where
  "decisive p agent tool args context \<longleftrightarrow> p_applies p agent tool args context \<noteq> Inr False"

lemma check_policies_first:
  "check_policies ps agent tool args context =
     (case List.find (\<lambda>p. decisive p agent tool args context) ps of
        None \<Rightarrow> check_policies [] agent tool args context
      | Some p \<Rightarrow> check_policies [p] agent tool args context)"
  by (induction ps) (auto simp: decisive_def split: sum.splits)

lemma check_policies_permits:
  assumes "d_effect (check_policies ps agent tool args context) \<noteq> DENY" and "t_side_effect tool"
  shows "\<exists>pre p post. ps = pre @ p # post \<and> matches p agent tool args context \<and>
     d_effect (check_policies ps agent tool args context) = p_effect p \<and>
     d_approvers (check_policies ps agent tool args context) = p_approvers p \<and>
     (\<forall>q\<in>set pre. p_applies q agent tool args context = Inr False)"
  using assms
proof (induction ps)
  case Nil
  then show ?case by simp
next
  case (Cons a ps)
  show ?case
  proof (cases "p_applies a agent tool args context = Inr False")
    case True
    with Cons obtain pre p post where "ps = pre @ p # post" "matches p agent tool args context"
      "d_effect (check_policies ps agent tool args context) = p_effect p"
      "d_approvers (check_policies ps agent tool args context) = p_approvers p"
      "\<forall>q\<in>set pre. p_applies q agent tool args context = Inr False"
      by auto
    with True show ?thesis
      by (intro exI [of _ "a # pre"] exI [of _ p] exI [of _ post]) simp
  next
    case False
    with Cons.prems show ?thesis
      by (intro exI [of _ "[]"] exI [of _ a] exI [of _ ps])
        (auto simp: matches_def split: sum.splits if_splits)
  qed
qed

lemma find_sorted_least:
  "sorted (map k ys) \<Longrightarrow> List.find P ys = Some p \<Longrightarrow> q \<in> set ys \<Longrightarrow> P q \<Longrightarrow> k p \<le> k q"
  by (induction ys) (auto split: if_splits dest: find_SomeD)

section \<open>Properties\<close>

text \<open>A mutating tool for the examples below: it answers \<open>None\<close> at once.\<close>

definition ap_tool :: "unit Tool" where
  "ap_tool = \<lparr>t_name = ''create_ap_entry'', t_description = [], t_connector = ''accounting'',
     t_fn = (\<lambda>args x. (Returned PNone, x)), t_side_effect = True, t_cost_usd = 0,
     t_input_schema = []\<rparr>"

text \<open>C25: the gate is fail-closed.  A tool call that is not denied is on the agent's
  allow-list, and if the tool mutates, some registered policy permits it: one that matches,
  whose effect and approvers are the decision's, and that no matching or erroring policy
  precedes in priority.\<close>

theorem check_fail_closed:
  assumes "d_effect (check (policy_engine ps) agent tool args context) \<noteq> DENY"
  shows "t_name tool \<in> set (a_tools agent) \<and>
    (t_side_effect tool \<longrightarrow>
      (\<exists>p\<in>set ps. matches p agent tool args context \<and>
         d_effect (check (policy_engine ps) agent tool args context) = p_effect p \<and>
         d_approvers (check (policy_engine ps) agent tool args context) = p_approvers p \<and>
         (\<forall>q\<in>set ps. decisive q agent tool args context \<longrightarrow> p_priority p \<le> p_priority q)))"
proof -
  let ?qs = "sort_key p_priority ps"
  have listed: "t_name tool \<in> set (a_tools agent)"
    using assms by (auto simp: check_def split: if_splits)
  then have eq: "check (policy_engine ps) agent tool args context =
      check_policies ?qs agent tool args context"
    by (simp add: check_def policy_engine_def)
  have "\<exists>p\<in>set ps. matches p agent tool args context \<and>
      d_effect (check_policies ?qs agent tool args context) = p_effect p \<and>
      d_approvers (check_policies ?qs agent tool args context) = p_approvers p \<and>
      (\<forall>q\<in>set ps. decisive q agent tool args context \<longrightarrow> p_priority p \<le> p_priority q)"
    if mut: "t_side_effect tool"
  proof -
    from check_policies_permits [OF assms [unfolded eq] mut] obtain pre p post where
      p: "?qs = pre @ p # post" "matches p agent tool args context"
        "d_effect (check_policies ?qs agent tool args context) = p_effect p"
        "d_approvers (check_policies ?qs agent tool args context) = p_approvers p"
        "\<forall>q\<in>set pre. p_applies q agent tool args context = Inr False"
      by blast
    from p(1) have mem: "p \<in> set ps" by (metis in_set_conv_decomp set_sort)
    from p(2,5) have "List.find (\<lambda>q. decisive q agent tool args context) ?qs = Some p"
      by (simp add: p(1) find_append find_None_iff2 [THEN iffD2] decisive_def matches_def)
    then have "\<forall>q\<in>set ps. decisive q agent tool args context \<longrightarrow> p_priority p \<le> p_priority q"
      using find_sorted_least [of p_priority ?qs] by (metis set_sort sorted_sort_key)
    with p mem show ?thesis by blast
  qed
  with listed eq show ?thesis by simp
qed

theorem check_fail_closed_witness:
  "d_effect (check (policy_engine default_policies) (mk_agent ''system'' ''workflow'' [] [''create_ap_entry''])
       ap_tool
       [(''amount'', PInt 100)] []) = ALLOW \<and>
   (\<exists>p\<in>set (default_policies :: unit Policy list). p_effect p = ALLOW \<and>
      matches p (mk_agent ''system'' ''workflow'' [] [''create_ap_entry''])
       ap_tool
       [(''amount'', PInt 100)] [])"
proof -
  let ?a = "mk_agent ''system'' ''workflow'' [] [''create_ap_entry'']"
  let ?t = "ap_tool"
  have eff: "d_effect (check (policy_engine default_policies) ?a ?t [(''amount'', PInt 100)] []) = ALLOW"
    by (simp add: check_def policy_engine_def default_policies_def mk_agent_def dget_def ap_tool_def)
  then have "d_effect (check (policy_engine default_policies) ?a ?t [(''amount'', PInt 100)] []) \<noteq> DENY"
    by simp
  moreover have "t_side_effect ap_tool" by (simp add: ap_tool_def)
  ultimately show ?thesis using check_fail_closed eff by metis
qed

text \<open>C26: the order in which policies are registered does not matter.  For a ruleset whose
  priorities are pairwise different, any permutation of it gives the same decisions.\<close>

theorem check_order_independent:
  assumes "mset ps = mset qs" and "inj_on p_priority (set ps)"
  shows "check (policy_engine ps) = check (policy_engine qs)"
  using sort_key_permute [OF assms] by (simp add: policy_engine_def)

theorem check_order_independent_witness:
  "check (policy_engine (rev default_policies)) = check (policy_engine (default_policies :: unit Policy list))"
  by (rule check_order_independent) (simp_all add: default_policies_def)

text \<open>What the reference ruleset decides about posting an AP entry.  The amount is read
  as a Python float: above 5000 it takes approval by the finance team, any other number is
  allowed, and an amount that is no number is denied, since the predicate errors.\<close>

lemma default_policies_create_ap_entry:
  assumes "t_name tool = ''create_ap_entry''" and "t_side_effect tool"
    and "''create_ap_entry'' \<in> set (a_tools agent)"
  shows "(case py_float (dget args ''amount'' (PInt 0)) of
      Inl _ \<Rightarrow> d_effect (check (policy_engine default_policies) agent tool args context) = DENY
    | Inr f \<Rightarrow>
        if float_gt f 5000
        then d_effect (check (policy_engine default_policies) agent tool args context) = REQUIRE_APPROVAL \<and>
             d_approvers (check (policy_engine default_policies) agent tool args context) = [''finance-team'']
        else d_effect (check (policy_engine default_policies) agent tool args context) = ALLOW)"
  using assms
  by (simp add: check_def policy_engine_def default_policies_def split: sum.split)

text \<open>An amount that is not-a-number is not above 5000, so the reference ruleset allows
  an AP entry with the amount \<open>NaN\<close> (a JSON number, or the text \<open>nan\<close>) without approval.\<close>

theorem default_policies_nan_allowed:
  assumes "t_name tool = ''create_ap_entry''" and "t_side_effect tool"
    and "''create_ap_entry'' \<in> set (a_tools agent)"
    and "map_of args ''amount'' \<in> {Some (PFloat NaN), Some (PStr ''nan'')}"
  shows "d_effect (check (policy_engine default_policies) agent tool args context) = ALLOW"
proof -
  have "py_float (PStr ''nan'') = Inr NaN" by (simp add: py_number_defs)
  with assms(4) have "py_float (dget args ''amount'' (PInt 0)) = Inr NaN"
    by (auto simp: dget_def)
  with assms(1-3) show ?thesis
    by (simp add: check_def policy_engine_def default_policies_def)
qed

theorem default_policies_nan_allowed_witness:
  "d_effect (check (policy_engine default_policies) (mk_agent ''a'' [] [] [''create_ap_entry''])
     ap_tool [(''amount'', PFloat NaN)] []) = ALLOW"
  by (rule default_policies_nan_allowed) (simp_all add: mk_agent_def ap_tool_def)

end
