(* ===== verification/Json.thy ===== *)
theory Json
  imports PyNumbers "HOL-Library.List_Lexorder" "HOL-Library.Char_ord"
begin

text \<open>
  Text of Python values: \<open>json.dumps\<close> (ASCII only, with the separators and key order a caller
  chooses) and \<open>str\<close>.  The decimal text of a finite float is the parameter \<open>fs\<close>
  (\<open>float_str\<close> of the environment).
\<close>

section \<open>\<open>json.dumps\<close>\<close>

definition json_char :: "char \<Rightarrow> string" where
  "json_char c =
     (let n = of_char c :: nat in
      if n = 34 \<or> n = 92 then [CHR 0x5C, c]
      else if n = 10 then [CHR 0x5C, CHR ''n'']
      else if n = 13 then [CHR 0x5C, CHR ''r'']
      else if n = 9 then [CHR 0x5C, CHR ''t'']
      else if n = 12 then [CHR 0x5C, CHR ''f'']
      else if n = 8 then [CHR 0x5C, CHR ''b'']
      else if 32 \<le> n \<and> n < 127 then [c]
      else [CHR 0x5C, CHR ''u'', CHR ''0'', CHR ''0'', hex_digit (n div 16), hex_digit (n mod 16)])"

definition json_string :: "string \<Rightarrow> string" where
  "json_string s = [CHR 0x22] @ concat (map json_char s) @ [CHR 0x22]"

definition json_float :: "(rat \<Rightarrow> string) \<Rightarrow> pyfloat \<Rightarrow> string" where
  "json_float fs f = (case f of Fin q \<Rightarrow> fs q | PosInf \<Rightarrow> ''Infinity'' | NegInf \<Rightarrow> ''-Infinity'' | NaN \<Rightarrow> ''NaN'')"

fun join :: "string \<Rightarrow> string list \<Rightarrow> string" where
  "join sep [] = []"
| "join sep [x] = x"
| "join sep (x # y # ys) = x @ sep @ join sep (y # ys)"

text \<open>\<open>dumps(v, separators=(isep, ksep), sort_keys=sorted_keys)\<close>.\<close>

fun json_dumps :: "(rat \<Rightarrow> string) \<Rightarrow> string \<Rightarrow> string \<Rightarrow> bool \<Rightarrow> pyval \<Rightarrow> string" where
  "json_dumps fs isep ksep sorted_keys PNone = ''null''"
| "json_dumps fs isep ksep sorted_keys (PBool b) = (if b then ''true'' else ''false'')"
| "json_dumps fs isep ksep sorted_keys (PInt i) = int_str i"
| "json_dumps fs isep ksep sorted_keys (PFloat f) = json_float fs f"
| "json_dumps fs isep ksep sorted_keys (PStr s) = json_string s"
| "json_dumps fs isep ksep sorted_keys (PList vs) =
     ''['' @ join isep (map (json_dumps fs isep ksep sorted_keys) vs) @ '']''"
| "json_dumps fs isep ksep sorted_keys (PDict d) =
     (let items = map (\<lambda>(k, v). (k, json_dumps fs isep ksep sorted_keys v)) d;
          items = (if sorted_keys then sort_key fst items else items)
      in ''{'' @ join isep (map (\<lambda>(k, t). json_string k @ ksep @ t) items) @ ''}'')"

text \<open>\<open>json.dumps(v)\<close> with the default separators.\<close>

definition dumps_default :: "env \<Rightarrow> pyval \<Rightarrow> string" where
  "dumps_default E v = json_dumps (float_str E) '', '' '': '' False v"

section \<open>\<open>str\<close> and \<open>repr\<close>\<close>

definition float_repr :: "(rat \<Rightarrow> string) \<Rightarrow> pyfloat \<Rightarrow> string" where
  "float_repr fs f = (case f of Fin q \<Rightarrow> fs q | PosInf \<Rightarrow> ''inf'' | NegInf \<Rightarrow> ''-inf'' | NaN \<Rightarrow> ''nan'')"

fun py_repr :: "(rat \<Rightarrow> string) \<Rightarrow> pyval \<Rightarrow> string" where
  "py_repr fs PNone = ''None''"
| "py_repr fs (PBool b) = (if b then ''True'' else ''False'')"
| "py_repr fs (PInt i) = int_str i"
| "py_repr fs (PFloat f) = float_repr fs f"
| "py_repr fs (PStr s) = repr_str s"
| "py_repr fs (PList vs) = ''['' @ join '', '' (map (py_repr fs) vs) @ '']''"
| "py_repr fs (PDict d) = ''{'' @ join '', '' (map (\<lambda>(k, v). repr_str k @ '': '' @ py_repr fs v) d) @ ''}''"

definition py_str :: "(rat \<Rightarrow> string) \<Rightarrow> pyval \<Rightarrow> string" where
  "py_str fs v = (case v of PStr s \<Rightarrow> s | _ \<Rightarrow> py_repr fs v)"

section \<open>Key order does not matter to the canonical text\<close>

text \<open>Two dictionaries with the same items in another order have the same canonical text.\<close>

lemma json_dumps_sorted_perm:
  assumes "mset d = mset d'" and "distinct (map fst d)"
  shows "json_dumps fs isep ksep True (PDict d) = json_dumps fs isep ksep True (PDict d')"
proof -
  let ?f = "\<lambda>(k, v). (k, json_dumps fs isep ksep True v)"
  have fst_f: "map fst (map ?f d) = map fst d" for d :: "(string \<times> pyval) list"
    by (auto simp: comp_def split_beta)
  have "inj_on fst (set (map ?f d))"
    using assms(2) by (metis distinct_map fst_f)
  moreover have "mset (map ?f d) = mset (map ?f d')"
    using assms(1) by (metis mset_map)
  ultimately have "sort_key fst (map ?f d) = sort_key fst (map ?f d')"
    by (rule sort_key_permute [rotated])
  then show ?thesis by simp
qed

end
