(* ===== verification/Observability.thy ===== *)
theory Observability
  imports Json "HOL-Library.Product_Lexorder"
begin

text \<open>
  \<open>observability.py\<close>: the in-process metrics and the JSON log line.  A series is a metric name
  with its labels, sorted; the two \<open>defaultdict\<close>s keep the order in which series appeared.
  How loggers come to write lines is in the theory \<open>Logging\<close>.
\<close>

section \<open>Metrics\<close>

type_synonym series = "string \<times> (string \<times> string) list"

record Metrics =
  m_counters :: "(series \<times> rat) list"
  m_observations :: "(series \<times> rat list) list"

definition new_metrics :: Metrics where
  "new_metrics = \<lparr>m_counters = [], m_observations = []\<rparr>"

definition series_key :: "string \<Rightarrow> (string \<times> string) list \<Rightarrow> series" where
  "series_key name labels = (name, sort labels)"

definition incr :: "string \<Rightarrow> rat \<Rightarrow> (string \<times> string) list \<Rightarrow> Metrics \<Rightarrow> Metrics" where
  "incr name v labels m =
     (let k = series_key name labels
      in m\<lparr>m_counters := AList.update k ((case map_of (m_counters m) k of None \<Rightarrow> 0 | Some n \<Rightarrow> n) + v) (m_counters m)\<rparr>)"

definition observe :: "string \<Rightarrow> rat \<Rightarrow> (string \<times> string) list \<Rightarrow> Metrics \<Rightarrow> Metrics" where
  "observe name v labels m =
     (let k = series_key name labels
      in m\<lparr>m_observations :=
           AList.update k ((case map_of (m_observations m) k of None \<Rightarrow> [] | Some vs \<Rightarrow> vs) @ [v]) (m_observations m)\<rparr>)"

text \<open>\<open>f"{n}{dict(l)}"\<close>.\<close>

definition series_name :: "env \<Rightarrow> series \<Rightarrow> string" where
  "series_name E k = fst k @ py_repr (float_str E) (PDict (map (\<lambda>(l, v). (l, PStr v)) (snd k)))"

definition snapshot :: "env \<Rightarrow> Metrics \<Rightarrow> pyval" where
  "snapshot E m = PDict
     [(''counters'', PDict (map (\<lambda>(k, v). (series_name E k, PFloat (Fin v))) (m_counters m))),
      (''observations'', PDict (map (\<lambda>(k, vs). (series_name E k, PList (map (\<lambda>v. PFloat (Fin v)) vs))) (m_observations m)))]"

section \<open>Log lines\<close>

text \<open>\<open>_JsonFormatter.format\<close>: the fixed fields, the structured fields of the call, which may
  replace fixed ones, and the exception text.\<close>

record LogRecord =
  lr_time :: string
  lr_level :: string
  lr_logger :: string
  lr_message :: string
  lr_fields :: pydict
  lr_exc :: "string option"

definition log_payload :: "string \<Rightarrow> LogRecord \<Rightarrow> pydict" where
  "log_payload trace_id record =
     (let payload = [(''ts'', PStr (lr_time record)), (''level'', PStr (lr_level record)), (''logger'', PStr (lr_logger record)),
                     (''trace_id'', PStr trace_id), (''msg'', PStr (lr_message record))];
          payload = foldl (\<lambda>d (k, v). AList.update k v d) payload (lr_fields record)
      in case lr_exc record of None \<Rightarrow> payload | Some t \<Rightarrow> AList.update ''exc'' (PStr t) payload)"

definition format_record :: "env \<Rightarrow> string \<Rightarrow> LogRecord \<Rightarrow> string" where
  "format_record E trace_id record = json_dumps (float_str E) '', '' '': '' False (PDict (log_payload trace_id record))"

section \<open>What the counters count\<close>

definition counter :: "string \<Rightarrow> (string \<times> string) list \<Rightarrow> Metrics \<Rightarrow> rat" where
  "counter name labels m = (case map_of (m_counters m) (series_key name labels) of None \<Rightarrow> 0 | Some n \<Rightarrow> n)"

lemma counter_incr:
  "counter n l (incr name v labels m) = counter n l m + (if series_key n l = series_key name labels then v else 0)"
  by (simp add: counter_def incr_def Let_def)

text \<open>The order of the labels does not matter.\<close>

lemma series_key_permute: "mset l = mset l' \<Longrightarrow> series_key name l = series_key name l'"
  by (simp add: series_key_def properties_for_sort)

end
