(* ===== verification/Agent.thy ===== *)
theory Agent
  imports Tools Policy Observability
begin

text \<open>
  \<open>agent.py\<close>: the agent control loop, and the state the engine and the agent runtime share.

  \<open>sys\<close> is the running process: the store (a state \<open>'d\<close> of some implementation of the
  protocol), the tool registry, the world, the metrics, the engine's buffer of events that
  are not yet persisted, the \<open>Run\<close> object being driven, the workflows registered with the
  orchestrator by id, and the number of UUIDs drawn for run ids.  \<open>engine\<close> holds what the
  constructors \<open>WorkflowEngine\<close> and \<open>AgentRuntime\<close> are given and never change.  The
  model and the synchronous approval function are outside code: parameters that read and
  write the external state and may raise.
\<close>

record ('d, 'x) sys =
  sy_store :: 'd
  sy_reg :: "'x ToolRegistry"
  sy_world :: "'x world"
  sy_metrics :: Metrics
  sy_buffer :: "Event list"
  sy_run :: Run
  sy_workflows :: "string \<rightharpoonup> Workflow"
  sy_ids :: nat

record 'x engine =
  en_agents :: "string \<rightharpoonup> Agent"
  en_policy :: "'x PolicyEngine"
  en_respond :: "Agent \<Rightarrow> pydict \<Rightarrow> pydict \<Rightarrow> 'x \<Rightarrow> (exn + ModelResponse) \<times> pydict \<times> 'x"
  en_approval_fn :: "(Run \<Rightarrow> Step \<Rightarrow> string \<Rightarrow> pydict \<Rightarrow> 'x \<Rightarrow> (exn + bool) \<times> 'x) option"

type_synonym ('d, 'x, 'a) eng = "(exn, ('d, 'x) sys, 'a) comp"

section \<open>Primitive steps on the shared state\<close>

text \<open>\<open>WorkflowEngine.emit\<close>, which the orchestrator also gives to the agent runtime.\<close>

definition emit :: "string \<Rightarrow> pydict \<Rightarrow> string option \<Rightarrow> rat \<Rightarrow> string \<Rightarrow> ('d, 'x, unit) eng" where
  "emit ty payload sid cost actor = modify (\<lambda>s. s\<lparr>sy_buffer := sy_buffer s @
     [\<lparr>ev_run_id = r_id (sy_run s), ev_tenant_id = r_tenant_id (sy_run s), ev_type = ty,
       ev_payload = payload, ev_step_id = sid, ev_actor = actor, ev_cost_usd = cost, ev_seq = 0\<rparr>]\<rparr>)"

definition metric :: "string \<Rightarrow> (string \<times> string) list \<Rightarrow> ('d, 'x, unit) eng" where
  "metric name labels = modify (\<lambda>s. s\<lparr>sy_metrics := incr name 1 labels (sy_metrics s)\<rparr>)"

definition set_status :: "RunStatus \<Rightarrow> ('d, 'x, unit) eng" where
  "set_status st = modify (\<lambda>s. s\<lparr>sy_run := (sy_run s)\<lparr>r_status := st\<rparr>\<rparr>)"

definition add_cost :: "rat \<Rightarrow> ('d, 'x, unit) eng" where
  "add_cost c = modify (\<lambda>s. s\<lparr>sy_run := (sy_run s)\<lparr>r_cost_usd := r_cost_usd (sy_run s) + c\<rparr>\<rparr>)"

definition set_context :: "string \<Rightarrow> pyval \<Rightarrow> ('d, 'x, unit) eng" where
  "set_context k v = modify (\<lambda>s. s\<lparr>sy_run := (sy_run s)\<lparr>r_context := AList.update k v (r_context (sy_run s))\<rparr>\<rparr>)"

definition use_tool :: "string \<Rightarrow> ('d, 'x, 'x Tool) eng" where
  "use_tool name = bindc (gets (\<lambda>s. get_tool name (sy_reg s))) liftE"

definition exec_tool :: "env \<Rightarrow> string \<Rightarrow> pydict \<Rightarrow> ('d, 'x, pyval) eng" where
  "exec_tool E name args =
     zoom (\<lambda>s. (sy_reg s, sy_world s)) (\<lambda>(reg, w) s. s\<lparr>sy_reg := reg, sy_world := w\<rparr>) (execute E name args)"

text \<open>A call of outside code on the external state.\<close>

definition outside :: "('x \<Rightarrow> (exn + 'a) \<times> 'x) \<Rightarrow> ('d, 'x, 'a) eng" where
  "outside f = zoom (\<lambda>s. ext (sy_world s)) (\<lambda>x s. s\<lparr>sy_world := (sy_world s)\<lparr>ext := x\<rparr>\<rparr>) f"

text \<open>\<open>d[key]\<close> of a response or call.\<close>

definition field :: "string \<Rightarrow> 'a option \<Rightarrow> ('d, 'x, 'a) eng" where
  "field key v = (case v of None \<Rightarrow> throw (Exn KeyError (repr_str key)) | Some x \<Rightarrow> ret x)"

section \<open>The agent loop\<close>

text \<open>\<open>requires approval, escalate via a workflow approval step\<close>; the source separates the
  two parts by a dash, U+2014, here in UTF-8.\<close>

definition escalate_reason :: string where
  "escalate_reason = ''requires approval '' @ [CHR 0xE2, CHR 0x80, CHR 0x94] @
     '' escalate via a workflow approval step''"

text \<open>The part of \<open>_exec_call\<close> after the policy decision.\<close>

definition gated_call ::
  "env \<Rightarrow> Agent \<Rightarrow> string \<Rightarrow> 'x Tool \<Rightarrow> pydict \<Rightarrow> pyval \<Rightarrow> Decision \<Rightarrow> ('d, 'x, pyval) eng" where
  "gated_call E agent name tool args cid decision =
     seqc (emit ''policy_decision''
            [(''tool'', PStr name), (''effect'', PStr (effect_value (d_effect decision))),
             (''reason'', PStr (d_reason decision))] None 0 (a_name agent))
    (seqc (metric ''policy.decisions'' [(''effect'', effect_value (d_effect decision))])
    (if d_effect decision \<noteq> ALLOW
     then let reason = (if d_effect decision = DENY then d_reason decision else escalate_reason) in
          seqc (emit ''tool_denied'' [(''tool'', PStr name), (''reason'', PStr reason)] None 0 (a_name agent))
               (ret (PDict [(''id'', cid), (''tool'', PStr name), (''error'', PStr reason)]))
     else bindc (exec_tool E name args) (\<lambda>result.
          seqc (add_cost (t_cost_usd tool))
         (seqc (metric ''tool.calls'' [(''tool'', name)])
         (seqc (emit ''tool_result'' [(''tool'', PStr name), (''result'', result)] None (t_cost_usd tool) (a_name agent))
               (ret (PDict [(''id'', cid), (''tool'', PStr name), (''result'', result)])))))))"

definition exec_call :: "env \<Rightarrow> 'x engine \<Rightarrow> Agent \<Rightarrow> ModelCall \<Rightarrow> ('d, 'x, pyval) eng" where
  "exec_call E en agent call =
     bindc (field ''tool'' (call_tool call)) (\<lambda>name.
     let args = (case call_args call of None \<Rightarrow> [] | Some a \<Rightarrow> a);
         cid = (case call_id call of None \<Rightarrow> PStr name | Some i \<Rightarrow> i) in
     bindc (use_tool name) (\<lambda>tool.
     bindc (gets (\<lambda>s. check (en_policy en) agent tool args (r_context (sy_run s)))) (\<lambda>decision.
     gated_call E agent name tool args cid decision)))"

text \<open>\<open>for _ in range(agent.max_steps)\<close>, with the number of iterations left.\<close>

primrec agent_loop :: "env \<Rightarrow> 'x engine \<Rightarrow> Agent \<Rightarrow> pydict \<Rightarrow> nat \<Rightarrow> pydict \<Rightarrow> ('d, 'x, pyval) eng" where
  "agent_loop E en agent task 0 scratch = throw (Exn MaxStepsExceeded (a_name agent))"
| "agent_loop E en agent task (Suc n) scratch =
     bindc (outside (\<lambda>x. case en_respond en agent task scratch x of
              (r, sc, x') \<Rightarrow> (map_sum id (\<lambda>resp. (resp, sc)) r, x'))) (\<lambda>(resp, scratch').
     let cost = (case resp_cost_usd resp of None \<Rightarrow> 0 | Some c \<Rightarrow> c) in
     seqc (add_cost cost)
    (seqc (metric ''agent.model_calls'' [(''agent'', a_name agent)])
    (bindc (field ''type'' (resp_type resp)) (\<lambda>kind.
     seqc (emit ''agent_message'' [(''agent'', PStr (a_name agent)), (''kind'', PStr kind)] None cost (a_name agent))
    (if kind = ''tool_calls''
     then bindc (field ''calls'' (resp_calls resp)) (\<lambda>calls.
          bindc (mapc (exec_call E en agent) calls) (\<lambda>results.
          agent_loop E en agent task n (AList.update ''tool_results'' (PList results) scratch')))
     else bindc (field ''output'' (resp_output resp)) (\<lambda>out.
          seqc (emit ''agent_final'' [(''agent'', PStr (a_name agent)), (''output'', out)] None 0 (a_name agent))
               (ret out)))))))"

definition runtime_run :: "env \<Rightarrow> 'x engine \<Rightarrow> Agent \<Rightarrow> pydict \<Rightarrow> ('d, 'x, pyval) eng" where
  "runtime_run E en agent task = agent_loop E en agent task (nat (a_max_steps agent)) []"

section \<open>How a model-requested call unfolds\<close>

lemma use_tool_apply [simp]: "use_tool name s = (get_tool name (sy_reg s), s)"
  by (simp add: use_tool_def)

lemma seq_emit:
  "seqc (emit ty payload sid cost actor) m s = m (s\<lparr>sy_buffer := sy_buffer s @
     [\<lparr>ev_run_id = r_id (sy_run s), ev_tenant_id = r_tenant_id (sy_run s), ev_type = ty,
       ev_payload = payload, ev_step_id = sid, ev_actor = actor, ev_cost_usd = cost, ev_seq = 0\<rparr>]\<rparr>)"
  by (simp add: emit_def)

lemma seq_metric: "seqc (metric name labels) m s = m (s\<lparr>sy_metrics := incr name 1 labels (sy_metrics s)\<rparr>)"
  by (simp add: metric_def)

lemma exec_call_cases:
  assumes "exec_call E en agent call s = (r, s')"
  obtains (early) e where "s' = s" "r = Inl e"
  | (gated) name tool args cid where "tr_tools (sy_reg s) name = Some tool"
      "gated_call E agent name tool args cid
         (check (en_policy en) agent tool args (r_context (sy_run s))) s = (r, s')"
  using assms
  by (cases "call_tool call")
    (auto simp: exec_call_def field_def Let_def get_tool_def bindc_def split: option.splits)

end
