(* ===== verification/Budgets.thy ===== *)
theory Budgets
  imports Models
begin

text \<open>
  \<open>budgets.py\<close>: the cost and step ceilings of a run.  \<open>budget_check\<close> returns the
  violation text, or \<open>None\<close> within budget; both ceilings are inclusive.
\<close>

record Budget =
  b_max_usd :: rat
  b_max_steps :: int

definition budget_check :: "Budget \<Rightarrow> Run \<Rightarrow> string option" where
  "budget_check b r =
     (if r_cost_usd r > b_max_usd b
      then Some (''cost $'' @ fmt_4f (r_cost_usd r) @ '' exceeds budget $'' @ fmt_4f (b_max_usd b))
      else if r_steps_used r > b_max_steps b
      then Some (''steps '' @ int_str (r_steps_used r) @ '' exceed budget '' @
                 int_str (b_max_steps b))
      else None)"

lemma budget_check_None [simp]:
  "budget_check b r = None \<longleftrightarrow> r_cost_usd r \<le> b_max_usd b \<and> r_steps_used r \<le> b_max_steps b"
  by (auto simp: budget_check_def)

lemma budget_check_Some_nonempty: "budget_check b r = Some v \<Longrightarrow> v \<noteq> []"
  by (auto simp: budget_check_def split: if_splits)

end
