(* ===== verification/Regex.thy ===== *)
theory Regex
  imports PyNumbers
begin

text \<open>
  The fragment of Python's \<open>re\<close> that \<open>redaction.py\<close> uses: character classes, sequence,
  alternation, greedy and lazy bounded repetition and the word boundary \<open>\b\<close>.
  \<open>ends r s i\<close> lists, in the order the backtracking matcher tries them, the positions where
  a match of \<open>r\<close> that starts at \<open>i\<close> can end; \<open>match_at\<close> takes the first.  \<open>search\<close>
  and \<open>sub\<close> scan from the left.  A repetition counts only iterations that consume a
  character, which every repeated pattern of \<open>redaction.py\<close> does.
\<close>

datatype regex =
    Cls "char \<Rightarrow> bool"
  | Seq regex regex
  | Alt regex regex
  | Rep regex nat "nat option" bool \<comment> \<open>body, minimum, maximum, greedy\<close>
  | WordB
  | Eps

text \<open>\<open>\w\<close> on code points below 256: \<open>str.isalnum\<close> or the underscore.\<close>

definition word_char :: "char \<Rightarrow> bool" where
  "word_char c \<longleftrightarrow> (let n = of_char c :: nat in
     48 \<le> n \<and> n \<le> 57 \<or> 65 \<le> n \<and> n \<le> 90 \<or> 97 \<le> n \<and> n \<le> 122 \<or> n = 95 \<or>
     n \<in> {170, 178, 179, 181, 185, 186, 188, 189, 190} \<or>
     192 \<le> n \<and> n \<le> 214 \<or> 216 \<le> n \<and> n \<le> 246 \<or> 248 \<le> n)"

definition word_at :: "string \<Rightarrow> nat \<Rightarrow> bool" where
  "word_at s i \<longleftrightarrow> i < length s \<and> word_char (s ! i)"

definition boundary :: "string \<Rightarrow> nat \<Rightarrow> bool" where
  "boundary s i \<longleftrightarrow> (0 < i \<and> word_at s (i - 1)) \<noteq> word_at s i"

text \<open>Positions a repetition can reach: \<open>step\<close> gives the ends of one iteration.\<close>

function rep_ends :: "(nat \<Rightarrow> nat list) \<Rightarrow> nat \<Rightarrow> nat \<Rightarrow> nat option \<Rightarrow> bool \<Rightarrow> nat \<Rightarrow> nat list" where
  "rep_ends step n lo hi greedy i =
     (let stop = (if lo = 0 then [i] else []);
          more = (if hi = Some 0 then []
                  else concat (map (\<lambda>j. if i < j \<and> j \<le> n
                                        then rep_ends step n (lo - 1) (map_option (\<lambda>h. h - 1) hi) greedy j
                                        else []) (step i)))
      in if greedy then more @ stop else stop @ more)"
  by pat_completeness auto
termination
  by (relation "measure (\<lambda>(step, n, lo, hi, greedy, i). n - i)") auto

declare rep_ends.simps [simp del]

fun ends :: "regex \<Rightarrow> string \<Rightarrow> nat \<Rightarrow> nat list" where
  "ends (Cls p) s i = (if i < length s \<and> p (s ! i) then [Suc i] else [])"
| "ends (Seq a b) s i = concat (map (ends b s) (ends a s i))"
| "ends (Alt a b) s i = ends a s i @ ends b s i"
| "ends (Rep r lo hi greedy) s i = rep_ends (ends r s) (length s) lo hi greedy i"
| "ends WordB s i = (if boundary s i then [i] else [])"
| "ends Eps s i = [i]"

definition match_at :: "regex \<Rightarrow> string \<Rightarrow> nat \<Rightarrow> nat option" where
  "match_at r s i = (case ends r s i of [] \<Rightarrow> None | j # _ \<Rightarrow> Some j)"

definition search :: "regex \<Rightarrow> string \<Rightarrow> bool" where
  "search r s \<longleftrightarrow> (\<exists>i\<in>set [0..<Suc (length s)]. match_at r s i \<noteq> None)"

text \<open>\<open>pat.sub(repl, s)\<close> from position \<open>i\<close>, for patterns that match no empty string.\<close>

function sub_from :: "regex \<Rightarrow> string \<Rightarrow> string \<Rightarrow> nat \<Rightarrow> string" where
  "sub_from r repl s i =
     (if length s \<le> i then []
      else case match_at r s i of
             None \<Rightarrow> s ! i # sub_from r repl s (Suc i)
           | Some j \<Rightarrow> if i < j then repl @ sub_from r repl s j
                       else s ! i # sub_from r repl s (Suc i))"
  by pat_completeness auto
termination
  by (relation "measure (\<lambda>(r, repl, s, i). length s - i)") auto

declare sub_from.simps [simp del]

definition sub :: "regex \<Rightarrow> string \<Rightarrow> string \<Rightarrow> string" where
  "sub r repl s = sub_from r repl s 0"

section \<open>Building blocks\<close>

definition one_of :: "string \<Rightarrow> regex" where
  "one_of cs = Cls (\<lambda>c. c \<in> set cs)"

text \<open>A literal, exact or with \<open>re.IGNORECASE\<close> (for ASCII letters in the pattern).\<close>

fun lit :: "string \<Rightarrow> regex" where
  "lit [] = Eps"
| "lit (c # cs) = Seq (Cls (\<lambda>d. d = c)) (lit cs)"

fun lit_i :: "string \<Rightarrow> regex" where
  "lit_i [] = Eps"
| "lit_i (c # cs) = Seq (Cls (\<lambda>d. ascii_lower d = ascii_lower c)) (lit_i cs)"

abbreviation optr :: "regex \<Rightarrow> regex" where
  "optr r \<equiv> Rep r 0 (Some 1) True"

abbreviation plus_r :: "regex \<Rightarrow> regex" where
  "plus_r r \<equiv> Rep r 1 None True"

fun alts :: "regex list \<Rightarrow> regex" where
  "alts [] = Cls (\<lambda>_. False)"
| "alts [r] = r"
| "alts (r # rs) = Alt r (alts rs)"

lemma set_ends_alts: "rs \<noteq> [] \<Longrightarrow> set (ends (alts rs) s i) = (\<Union>r\<in>set rs. set (ends r s i))"
  by (induction rs rule: alts.induct) auto

lemma ends_alts_nonempty:
  "rs \<noteq> [] \<Longrightarrow> set (ends (alts rs) s i) \<noteq> {} \<longleftrightarrow> (\<exists>r\<in>set rs. set (ends r s i) \<noteq> {})"
  by (induction rs rule: alts.induct) auto

lemma drop_Cons_nth: "drop i s = c # cs \<longleftrightarrow> i < length s \<and> s ! i = c \<and> drop (Suc i) s = cs"
  by (metis Cons_nth_drop_Suc drop_all list.distinct(1) list.inject not_le)

lemma ends_lit_i:
  "set (ends (lit_i w) s i) =
     (if map ascii_lower w = map ascii_lower (take (length w) (drop i s))
      then {i + length w} else {})"
proof (induction w arbitrary: i)
  case Nil
  then show ?case by simp
next
  case (Cons c w)
  show ?case
  proof (cases "i < length s")
    case True
    then have "drop i s = s ! i # drop (Suc i) s" by (simp add: Cons_nth_drop_Suc)
    with Cons True show ?thesis by (auto split: if_splits)
  next
    case False
    then show ?thesis by auto
  qed
qed

lemma ends_optr:
  assumes "\<And>i j. j \<in> set (ends r s i) \<Longrightarrow> i < j \<and> j \<le> length s"
  shows "set (ends (optr r) s i) = insert i (set (ends r s i))"
proof -
  have stop: "rep_ends (ends r s) (length s) 0 (Some 0) True j = [j]" for j
    by (subst rep_ends.simps) simp
  show ?thesis
    using assms by (auto simp: rep_ends.simps [of "ends r s" "length s" 0 "Some (Suc 0)" True i] stop
        split: if_splits)
qed

lemma search_iff: "search r s \<longleftrightarrow> (\<exists>i\<le>length s. set (ends r s i) \<noteq> {})"
  by (auto simp: search_def match_at_def less_Suc_eq_le simp del: upt_Suc split: list.splits)

end
