(* ===== verification/Redaction.thy ===== *)
theory Redaction
  imports Regex "HOL-Library.Sublist"
begin

text \<open>
  \<open>redaction.py\<close>: masking of secrets and PII at write time.  \<open>secret_keys\<close> and
  \<open>value_patterns\<close> are the compiled patterns of the module, written in the syntax of
  theory \<open>Regex\<close>; \<open>redact\<close> is the recursive scrub of a JSON value.
\<close>

definition REDACTED :: string where
  "REDACTED = ''***REDACTED***''"

definition sep_opt :: regex where
  "sep_opt = optr (one_of ''_-'')"

definition secret_keys :: regex where
  "secret_keys = alts
     [Seq (lit_i ''pass'') (optr (lit_i ''word'')),
      lit_i ''secret'',
      lit_i ''token'',
      Seq (lit_i ''api'') (Seq sep_opt (lit_i ''key'')),
      lit_i ''authorization'',
      lit_i ''credential'',
      Seq (lit_i ''private'') (Seq sep_opt (lit_i ''key''))]"

definition alpha :: "char \<Rightarrow> bool" where
  "alpha c \<longleftrightarrow> (let n = of_char c :: nat in 65 \<le> n \<and> n \<le> 90 \<or> 97 \<le> n \<and> n \<le> 122)"

definition alnum_or :: "string \<Rightarrow> regex" where
  "alnum_or cs = Cls (\<lambda>c. alpha c \<or> is_digit c \<or> c \<in> set cs)"

definition value_patterns :: "regex list" where
  "value_patterns =
     [Seq (lit ''sk-ant-'') (Rep (alnum_or ''_-'') 8 None True),
      Seq WordB (Seq (plus_r (alnum_or ''._%+-'')) (Seq (lit ''@'')
        (Seq (plus_r (alnum_or ''.-'')) (Seq (lit ''.'') (Seq (Rep (Cls alpha) 2 None True) WordB))))),
      Seq WordB (Seq (Rep (Seq (Cls is_digit) (Rep (one_of '' -'') 0 None False)) 13 (Some 19) True) WordB),
      Seq WordB (Seq (lit_i ''Bearer'') (Seq (plus_r (Cls py_space)) (plus_r (alnum_or ''._-''))))]"

definition scrub_str :: "string \<Rightarrow> string" where
  "scrub_str value = fold (\<lambda>pat out. sub pat REDACTED out) value_patterns value"

fun redact :: "pyval \<Rightarrow> pyval" where
  "redact (PDict d) =
     PDict (map (\<lambda>(k, v). if search secret_keys k then (k, PStr REDACTED) else (k, redact v)) d)"
| "redact (PList xs) = PList (map redact xs)"
| "redact (PStr s) = PStr (scrub_str s)"
| "redact v = v"

definition redact_dict :: "pydict \<Rightarrow> pydict" where
  "redact_dict d = (case redact (PDict d) of PDict d' \<Rightarrow> d' | _ \<Rightarrow> d)"

section \<open>Which keys are secret\<close>

text \<open>The key names the pattern names, spelled out.\<close>

definition secret_words :: "string list" where
  "secret_words = [''pass'', ''secret'', ''token'', ''apikey'', ''api_key'', ''api-key'',
     ''authorization'', ''credential'', ''privatekey'', ''private_key'', ''private-key'']"


definition names_secret :: "string \<Rightarrow> bool" where
  "names_secret k \<longleftrightarrow> (\<exists>w\<in>set secret_words. sublist w (map ascii_lower k))"

lemma lit_i_progress: "w \<noteq> [] \<Longrightarrow> j \<in> set (ends (lit_i w) s i) \<Longrightarrow> i < j \<and> j \<le> length s"
  by (cases w) (auto simp: ends_lit_i split: if_splits dest!: map_eq_imp_length_eq)

lemma one_of_progress: "j \<in> set (ends (one_of cs) s i) \<Longrightarrow> i < j \<and> j \<le> length s"
  by (auto simp: one_of_def split: if_splits)

lemma ends_sep_opt:
  "set (ends sep_opt s i) = insert i (if i < length s \<and> s ! i \<in> {CHR ''_'', CHR ''-''} then {Suc i} else {})"
proof -
  have "set (ends sep_opt s i) = insert i (set (ends (one_of ''_-'') s i))"
    unfolding sep_opt_def by (rule ends_optr) (rule one_of_progress)
  then show ?thesis by (auto simp: one_of_def)
qed

text \<open>Position-wise occurrence of a lower-case word.\<close>

definition occurs_at :: "string \<Rightarrow> string \<Rightarrow> nat \<Rightarrow> bool" where
  "occurs_at w k i \<longleftrightarrow> prefix w (drop i (map ascii_lower k))"

lemma prefix_iff_take: "prefix w ys \<longleftrightarrow> w = take (length w) ys"
  by (metis append_eq_conv_conj prefixE take_is_prefix)

lemma occurs_at_iff_take: "occurs_at w k i \<longleftrightarrow> w = map ascii_lower (take (length w) (drop i k))"
  by (simp add: occurs_at_def prefix_iff_take drop_map take_map)

lemma prefix_append_iff: "prefix (u @ v) xs \<longleftrightarrow> prefix u xs \<and> prefix v (drop (length u) xs)"
  by (auto simp: prefix_def)

lemma occurs_at_append:
  "occurs_at (u @ v) k i \<longleftrightarrow> occurs_at u k i \<and> occurs_at v k (i + length u)"
  by (simp add: occurs_at_def prefix_append_iff add.commute)

lemma sublist_iff_occurs_at: "sublist w (map ascii_lower k) \<longleftrightarrow> (\<exists>i\<le>length k. occurs_at w k i)"
proof
  assume "sublist w (map ascii_lower k)"
  then obtain ps ss where k: "map ascii_lower k = ps @ w @ ss" by (auto simp: sublist_def)
  then have "occurs_at w k (length ps)" by (simp add: occurs_at_def)
  moreover have "length ps \<le> length k" using arg_cong [OF k, of length] by simp
  ultimately show "\<exists>i\<le>length k. occurs_at w k i" by blast
next
  assume "\<exists>i\<le>length k. occurs_at w k i"
  then obtain i ss where "drop i (map ascii_lower k) = w @ ss" by (auto simp: occurs_at_def prefix_def)
  then have "map ascii_lower k = take i (map ascii_lower k) @ w @ ss" by (metis append_take_drop_id)
  then show "sublist w (map ascii_lower k)" by (metis sublist_appendI)
qed

lemma ends_lit_i_occurs:
  "map ascii_lower w = w \<Longrightarrow>
     set (ends (lit_i w) k i) = (if occurs_at w k i then {i + length w} else {})"
  by (auto simp: ends_lit_i occurs_at_iff_take)

lemma ascii_lower_sep: "c \<in> {CHR ''_'', CHR ''-''} \<Longrightarrow> ascii_lower d = c \<longleftrightarrow> d = c"
  by (cases "65 \<le> (of_char d :: nat) \<and> (of_char d :: nat) \<le> 90")
    (auto simp: ascii_lower_def char_of_eq_iff take_bit_eq_mod)

lemma occurs_at_sep:
  assumes "c \<in> {CHR ''_'', CHR ''-''}"
  shows "occurs_at (c # v) k i \<longleftrightarrow> i < length k \<and> k ! i = c \<and> occurs_at v k (Suc i)"
proof (cases "i < length k")
  case True
  then have "drop i (map ascii_lower k) = ascii_lower (k ! i) # drop (Suc i) (map ascii_lower k)"
    by (metis Cons_nth_drop_Suc length_map nth_map)
  with True ascii_lower_sep [OF assms, of "k ! i"] show ?thesis by (auto simp: occurs_at_def)
next
  case False
  then show ?thesis by (simp add: occurs_at_def)
qed

lemma ends_sep_word:
  assumes "map ascii_lower u = u" and "map ascii_lower v = v"
  shows "set (ends (Seq (lit_i u) (Seq sep_opt (lit_i v))) k i) \<noteq> {} \<longleftrightarrow>
    occurs_at (u @ v) k i \<or> occurs_at (u @ ''_'' @ v) k i \<or> occurs_at (u @ ''-'' @ v) k i"
  using assms
  by (auto simp: ends_lit_i_occurs ends_sep_opt occurs_at_append occurs_at_sep split: if_splits)

lemma ends_opt_word:
  assumes "map ascii_lower u = u"
  shows "set (ends (Seq (lit_i u) (optr (lit_i (c # v)))) k i) \<noteq> {} \<longleftrightarrow> occurs_at u k i"
proof -
  have "set (ends (optr (lit_i (c # v))) k j) \<noteq> {}" for j
    by (subst ends_optr [OF lit_i_progress [of "c # v"]]) (simp_all del: lit_i.simps)
  then have "ends (optr (lit_i (c # v))) k j \<noteq> []" for j by (metis set_empty)
  with assms show ?thesis
    by (simp add: ends_lit_i_occurs del: ends.simps(4) lit_i.simps)
qed

lemma lower_literals [simp]:
  "map ascii_lower ''pass'' = ''pass''" "map ascii_lower ''secret'' = ''secret''"
  "map ascii_lower ''token'' = ''token''" "map ascii_lower ''api'' = ''api''"
  "map ascii_lower ''key'' = ''key''" "map ascii_lower ''authorization'' = ''authorization''"
  "map ascii_lower ''credential'' = ''credential''" "map ascii_lower ''private'' = ''private''"
  by (simp_all add: ascii_lower_def)

lemma appended:
  "''api'' @ ''key'' = ''apikey''" "''api'' @ ''_'' @ ''key'' = ''api_key''"
  "''api'' @ ''-'' @ ''key'' = ''api-key''" "''private'' @ ''key'' = ''privatekey''"
  "''private'' @ ''_'' @ ''key'' = ''private_key''"
  "''private'' @ ''-'' @ ''key'' = ''private-key''"
  by simp_all

lemma ends_secret_keys:
  "set (ends secret_keys k i) \<noteq> {} \<longleftrightarrow> (\<exists>w\<in>set secret_words. occurs_at w k i)"
proof -
  have "set (ends (lit_i w) k i) \<noteq> {} \<longleftrightarrow> occurs_at w k i" if "map ascii_lower w = w" for w
    using that by (simp add: ends_lit_i_occurs)
  note words = this [OF lower_literals(2)] this [OF lower_literals(3)]
    this [OF lower_literals(6)] this [OF lower_literals(7)]
    ends_opt_word [OF lower_literals(1)]
    ends_sep_word [OF lower_literals(4,5)] ends_sep_word [OF lower_literals(8,5)]
  have "set (ends secret_keys k i) \<noteq> {} \<longleftrightarrow>
      (\<exists>r\<in>set [Seq (lit_i ''pass'') (optr (lit_i ''word'')), lit_i ''secret'', lit_i ''token'',
      Seq (lit_i ''api'') (Seq sep_opt (lit_i ''key'')), lit_i ''authorization'', lit_i ''credential'',
      Seq (lit_i ''private'') (Seq sep_opt (lit_i ''key''))]. set (ends r k i) \<noteq> {})"
    unfolding secret_keys_def by (rule ends_alts_nonempty [OF list.distinct(2)])
  also have "\<dots> \<longleftrightarrow> (\<exists>w\<in>set secret_words. occurs_at w k i)"
    unfolding secret_words_def list.set bex_simps words appended by blast
  finally show ?thesis .
qed

lemma search_secret_keys: "search secret_keys k \<longleftrightarrow> names_secret k"
  unfolding search_iff ends_secret_keys names_secret_def sublist_iff_occurs_at by blast

text \<open>A key is treated as secret exactly when one of the listed words occurs in it,
  ignoring case: the compiled pattern means what its words say.\<close>

theorem secret_keys_iff_names_secret: "search secret_keys k \<longleftrightarrow> names_secret k"
  by (rule search_secret_keys)

section \<open>What redaction leaves\<close>

lemma redact_dict_map:
  "redact_dict d = map (\<lambda>(k, v). if search secret_keys k then (k, PStr REDACTED) else (k, redact v)) d"
  by (simp add: redact_dict_def)

lemma redact_PDict: "redact (PDict d) = PDict (redact_dict d)"
  by (simp add: redact_dict_map)

text \<open>Every value under a secret key, at any depth, is the mask.\<close>

fun masked :: "pyval \<Rightarrow> bool" where
  "masked (PDict d) =
     list_all (\<lambda>(k, v). if names_secret k then v = PStr REDACTED else masked v) d"
| "masked (PList xs) = list_all masked xs"
| "masked _ = True"

text \<open>C27: redaction masks by key at every depth: in a redacted payload every value whose
  key names a secret is the mask, in nested dictionaries and lists too.\<close>

theorem redact_masked: "masked (redact v)"
proof (induction v rule: redact.induct)
  case (1 d)
  then show ?case
    by (auto simp: list_all_iff search_secret_keys [symmetric] split: if_splits)
next
  case (2 xs)
  then show ?case by (auto simp: list_all_iff)
qed auto

text \<open>Redaction keeps the shape of a payload: each key stays in place; under a key that
  names a secret the value becomes the mask, under any other key it is redacted in turn, and
  numbers, booleans and \<open>None\<close> there are unchanged.\<close>

theorem redact_dict_lookup:
  "map fst (redact_dict d) = map fst d \<and>
   map_of (redact_dict d) k =
     map_option (\<lambda>v. if names_secret k then PStr REDACTED else redact v) (map_of d k) \<and>
   (\<forall>i b f. redact (PInt i) = PInt i \<and> redact (PBool b) = PBool b \<and> redact (PFloat f) = PFloat f \<and>
      redact PNone = PNone)"
proof -
  have "map_of (redact_dict d) k =
      map_option (\<lambda>v. if search secret_keys k then PStr REDACTED else redact v) (map_of d k)"
    by (induction d) (auto simp: redact_dict_map)
  moreover have "map fst (redact_dict d) = map fst d"
    by (induction d) (auto simp: redact_dict_map)
  ultimately show ?thesis by (simp add: search_secret_keys)
qed

end
