(* ===== verification/StoreTables.thy ===== *)
theory StoreTables
  imports Redaction
begin

text \<open>
  The durable state of Bass: the tables of the schema both stores create, and the
  \<open>Store\<close> protocol of \<open>store.py\<close>.

  A table is the list of its rows in insertion (rowid) order.  A row of \<open>runs\<close> is the
  \<open>Run\<close> its columns hold with the two timestamps; a JSON column holds the value its text
  denotes, so the text \<open>{}\<close> is the empty dictionary and a NULL result is \<open>PNone\<close>.
\<close>

record TenantRow =
  tnr_id :: string
  tnr_name :: string
  tnr_settings :: pydict
  tnr_created_at :: rat

record RunRow =
  row_run :: Run
  row_started_at :: rat
  row_updated_at :: rat

record EventRow =
  er_event :: Event
  er_created_at :: rat

record ApprovalRow =
  ap_id :: string
  ap_run_id :: string
  ap_tenant_id :: string
  ap_step_id :: string
  ap_status :: ApprovalStatus
  ap_approvers :: "string list"
  ap_decided_by :: "string option"
  ap_note :: "string option"
  ap_requested_at :: rat
  ap_decided_at :: "rat option"

record EffectRow =
  fx_key :: string
  fx_run_id :: string
  fx_tenant_id :: string
  fx_step_id :: "string option"
  fx_tool :: string
  fx_result :: pyval
  fx_created_at :: rat

record tables =
  tb_tenants :: "TenantRow list"
  tb_runs :: "RunRow list"
  tb_events :: "EventRow list"
  tb_approvals :: "ApprovalRow list"
  tb_effects :: "EffectRow list"

definition empty_tables :: tables where
  "empty_tables = \<lparr>tb_tenants = [], tb_runs = [], tb_events = [], tb_approvals = [], tb_effects = []\<rparr>"

section \<open>Statements shared by the two stores\<close>

definition run_row :: "string \<Rightarrow> tables \<Rightarrow> RunRow option" where
  "run_row i tb = List.find (\<lambda>row. r_id (row_run row) = i) (tb_runs tb)"

definition run_by_key :: "string \<Rightarrow> string \<Rightarrow> tables \<Rightarrow> RunRow option" where
  "run_by_key tenant key tb =
     List.find (\<lambda>row. r_tenant_id (row_run row) = tenant \<and> r_idempotency_key (row_run row) = key) (tb_runs tb)"

definition effect_row :: "string \<Rightarrow> tables \<Rightarrow> EffectRow option" where
  "effect_row key tb = List.find (\<lambda>row. fx_key row = key) (tb_effects tb)"

definition approval_row :: "string \<Rightarrow> tables \<Rightarrow> ApprovalRow option" where
  "approval_row i tb = List.find (\<lambda>row. ap_id row = i) (tb_approvals tb)"

text \<open>The \<open>UPDATE runs SET ...\<close> of a checkpoint.\<close>

definition set_run_columns :: "Run \<Rightarrow> rat \<Rightarrow> RunRow \<Rightarrow> RunRow" where
  "set_run_columns run t row = row\<lparr>
     row_run := (row_run row)\<lparr>r_status := r_status run, r_cursor_step := r_cursor_step run,
       r_context := r_context run, r_cost_usd := r_cost_usd run, r_steps_used := r_steps_used run,
       r_result := r_result run\<rparr>,
     row_updated_at := t\<rparr>"

definition update_run :: "Run \<Rightarrow> rat \<Rightarrow> tables \<Rightarrow> tables" where
  "update_run run t tb = tb\<lparr>tb_runs := map (\<lambda>row.
     if r_id (row_run row) = r_id run \<and> r_tenant_id (row_run row) = r_tenant_id run
     then set_run_columns run t row else row) (tb_runs tb)\<rparr>"

definition update_status :: "string \<Rightarrow> string \<Rightarrow> RunStatus \<Rightarrow> rat \<Rightarrow> tables \<Rightarrow> tables" where
  "update_status tenant i st t tb = tb\<lparr>tb_runs := map (\<lambda>row.
     if r_id (row_run row) = i \<and> r_tenant_id (row_run row) = tenant
     then row\<lparr>row_run := (row_run row)\<lparr>r_status := st\<rparr>, row_updated_at := t\<rparr> else row) (tb_runs tb)\<rparr>"

definition insert_run :: "Run \<Rightarrow> rat \<Rightarrow> tables \<Rightarrow> tables" where
  "insert_run run t tb = tb\<lparr>tb_runs := tb_runs tb @
     [\<lparr>row_run = run\<lparr>r_result := PNone\<rparr>, row_started_at = t, row_updated_at = t\<rparr>]\<rparr>"

definition insert_event :: "Event \<Rightarrow> int \<Rightarrow> rat \<Rightarrow> tables \<Rightarrow> tables" where
  "insert_event ev n t tb = tb\<lparr>tb_events := tb_events tb @
     [\<lparr>er_event = ev\<lparr>ev_seq := n\<rparr>, er_created_at = t\<rparr>]\<rparr>"

definition insert_effect :: "EffectRow \<Rightarrow> tables \<Rightarrow> tables" where
  "insert_effect row tb = tb\<lparr>tb_effects := tb_effects tb @ [row]\<rparr>"

definition insert_approval :: "ApprovalRow \<Rightarrow> tables \<Rightarrow> tables" where
  "insert_approval row tb = tb\<lparr>tb_approvals := tb_approvals tb @ [row]\<rparr>"

definition decide_approval :: "string \<Rightarrow> ApprovalStatus \<Rightarrow> string \<Rightarrow> string \<Rightarrow> rat \<Rightarrow> tables \<Rightarrow> tables" where
  "decide_approval i st by_whom note t tb = tb\<lparr>tb_approvals := map (\<lambda>row.
     if ap_id row = i
     then row\<lparr>ap_status := st, ap_decided_by := Some by_whom, ap_note := Some note, ap_decided_at := Some t\<rparr>
     else row) (tb_approvals tb)\<rparr>"

definition purgeable :: "string \<Rightarrow> rat \<Rightarrow> EventRow \<Rightarrow> bool" where
  "purgeable tenant before_ts row \<longleftrightarrow>
     ev_tenant_id (er_event row) = tenant \<and> er_created_at row < before_ts \<and> ev_payload (er_event row) \<noteq> []"

definition purge_payloads :: "string \<Rightarrow> rat \<Rightarrow> tables \<Rightarrow> tables" where
  "purge_payloads tenant before_ts tb = tb\<lparr>tb_events := map (\<lambda>row.
     if purgeable tenant before_ts row then row\<lparr>er_event := (er_event row)\<lparr>ev_payload := []\<rparr>\<rparr> else row)
     (tb_events tb)\<rparr>"

definition upsert_tenant :: "string \<Rightarrow> string \<Rightarrow> pydict \<Rightarrow> rat \<Rightarrow> tables \<Rightarrow> tables" where
  "upsert_tenant i nm settings t tb = tb\<lparr>tb_tenants :=
     (if \<exists>row\<in>set (tb_tenants tb). tnr_id row = i
      then map (\<lambda>row. if tnr_id row = i then row\<lparr>tnr_name := nm\<rparr> else row) (tb_tenants tb)
      else tb_tenants tb @ [\<lparr>tnr_id = i, tnr_name = nm, tnr_settings = settings, tnr_created_at = t\<rparr>])\<rparr>"

text \<open>\<open>WHERE tenant_id=? [AND status=?] ORDER BY started_at DESC\<close>; rows with the same
  \<open>started_at\<close>, whose order SQL leaves open, stay in rowid order.\<close>

definition runs_of :: "string \<Rightarrow> string option \<Rightarrow> tables \<Rightarrow> RunRow list" where
  "runs_of tenant status tb =
     sort_key (\<lambda>row. - row_started_at row)
       (filter (\<lambda>row. r_tenant_id (row_run row) = tenant \<and>
          (case status of Some st \<Rightarrow> st \<noteq> [] \<longrightarrow> status_value (r_status (row_run row)) = st | None \<Rightarrow> True))
        (tb_runs tb))"

text \<open>\<open>WHERE run_id=? AND tenant_id=? ORDER BY seq\<close>.\<close>

definition events_of :: "string \<Rightarrow> string \<Rightarrow> tables \<Rightarrow> Event list" where
  "events_of tenant i tb =
     sort_key ev_seq (filter (\<lambda>ev. ev_run_id ev = i \<and> ev_tenant_id ev = tenant)
       (map er_event (tb_events tb)))"

section \<open>A statement changes one table\<close>

lemma update_run_tables [simp]:
  "tb_tenants (update_run run t tb) = tb_tenants tb"
  "tb_events (update_run run t tb) = tb_events tb"
  "tb_approvals (update_run run t tb) = tb_approvals tb"
  "tb_effects (update_run run t tb) = tb_effects tb"
  by (simp_all add: update_run_def)

lemma update_status_tables [simp]:
  "tb_tenants (update_status tenant i st t tb) = tb_tenants tb"
  "tb_events (update_status tenant i st t tb) = tb_events tb"
  "tb_approvals (update_status tenant i st t tb) = tb_approvals tb"
  "tb_effects (update_status tenant i st t tb) = tb_effects tb"
  by (simp_all add: update_status_def)

lemma insert_run_tables [simp]:
  "tb_tenants (insert_run run t tb) = tb_tenants tb"
  "tb_events (insert_run run t tb) = tb_events tb"
  "tb_approvals (insert_run run t tb) = tb_approvals tb"
  "tb_effects (insert_run run t tb) = tb_effects tb"
  by (simp_all add: insert_run_def)

lemma insert_event_tables [simp]:
  "tb_tenants (insert_event ev n t tb) = tb_tenants tb"
  "tb_runs (insert_event ev n t tb) = tb_runs tb"
  "tb_approvals (insert_event ev n t tb) = tb_approvals tb"
  "tb_effects (insert_event ev n t tb) = tb_effects tb"
  by (simp_all add: insert_event_def)

lemma insert_effect_tables [simp]:
  "tb_tenants (insert_effect fx tb) = tb_tenants tb"
  "tb_runs (insert_effect fx tb) = tb_runs tb"
  "tb_events (insert_effect fx tb) = tb_events tb"
  "tb_approvals (insert_effect fx tb) = tb_approvals tb"
  by (simp_all add: insert_effect_def)

lemma insert_approval_tables [simp]:
  "tb_tenants (insert_approval ap tb) = tb_tenants tb"
  "tb_runs (insert_approval ap tb) = tb_runs tb"
  "tb_events (insert_approval ap tb) = tb_events tb"
  "tb_effects (insert_approval ap tb) = tb_effects tb"
  by (simp_all add: insert_approval_def)

lemma decide_approval_tables [simp]:
  "tb_tenants (decide_approval i ast w nt t tb) = tb_tenants tb"
  "tb_runs (decide_approval i ast w nt t tb) = tb_runs tb"
  "tb_events (decide_approval i ast w nt t tb) = tb_events tb"
  "tb_effects (decide_approval i ast w nt t tb) = tb_effects tb"
  by (simp_all add: decide_approval_def)

lemma purge_payloads_tables [simp]:
  "tb_tenants (purge_payloads tenant before_ts tb) = tb_tenants tb"
  "tb_runs (purge_payloads tenant before_ts tb) = tb_runs tb"
  "tb_approvals (purge_payloads tenant before_ts tb) = tb_approvals tb"
  "tb_effects (purge_payloads tenant before_ts tb) = tb_effects tb"
  by (simp_all add: purge_payloads_def)

lemma upsert_tenant_tables [simp]:
  "tb_runs (upsert_tenant i nm settings t tb) = tb_runs tb"
  "tb_events (upsert_tenant i nm settings t tb) = tb_events tb"
  "tb_approvals (upsert_tenant i nm settings t tb) = tb_approvals tb"
  "tb_effects (upsert_tenant i nm settings t tb) = tb_effects tb"
  by (simp_all add: upsert_tenant_def)

section \<open>The Store protocol\<close>

record 'd StoreOps =
  op_ensure_tenant :: "string \<Rightarrow> string \<Rightarrow> pydict \<Rightarrow> (exn, 'd, unit) comp"
  op_create_or_get_run :: "Run \<Rightarrow> (exn, 'd, Run \<times> bool) comp"
  op_load_run :: "string \<Rightarrow> string \<Rightarrow> (exn, 'd, Run option) comp"
  op_list_runs :: "string \<Rightarrow> int \<Rightarrow> string option \<Rightarrow> (exn, 'd, Run list) comp"
  op_checkpoint :: "Run \<Rightarrow> Event list \<Rightarrow> (exn, 'd, unit) comp"
  op_list_events :: "string \<Rightarrow> string \<Rightarrow> (exn, 'd, Event list) comp"
  op_get_effect :: "string \<Rightarrow> string \<Rightarrow> (exn, 'd, pyval) comp"
  op_record_effect :: "string \<Rightarrow> string \<Rightarrow> string \<Rightarrow> string option \<Rightarrow> string \<Rightarrow> pyval \<Rightarrow> (exn, 'd, unit) comp"
  op_create_approval :: "string \<Rightarrow> string \<Rightarrow> string \<Rightarrow> string list \<Rightarrow> (exn, 'd, string) comp"
  op_resolve_approval :: "string \<Rightarrow> string \<Rightarrow> bool \<Rightarrow> string \<Rightarrow> string \<Rightarrow> (exn, 'd, unit) comp"
  op_latest_approval :: "string \<Rightarrow> string \<Rightarrow> string \<Rightarrow> (exn, 'd, (string \<times> ApprovalStatus) option) comp"
  op_cancel_run :: "string \<Rightarrow> string \<Rightarrow> (exn, 'd, bool) comp"
  op_purge_event_payloads :: "string \<Rightarrow> rat \<Rightarrow> (exn, 'd, int) comp"

section \<open>Well-formed tables\<close>

text \<open>The constraints the schema declares: primary keys and the uniqueness of
  \<open>(tenant_id, idempotency_key)\<close>; and event sequence numbers grow in insertion order and
  stay within the counter \<open>n\<close>.\<close>

definition tables_inv :: "int \<Rightarrow> tables \<Rightarrow> bool" where
  "tables_inv n tb \<longleftrightarrow>
     distinct (map (r_id \<circ> row_run) (tb_runs tb)) \<and>
     distinct (map (\<lambda>row. (r_tenant_id (row_run row), r_idempotency_key (row_run row))) (tb_runs tb)) \<and>
     distinct (map fx_key (tb_effects tb)) \<and>
     distinct (map ap_id (tb_approvals tb)) \<and>
     distinct (map tnr_id (tb_tenants tb)) \<and>
     sorted_wrt (<) (map (ev_seq \<circ> er_event) (tb_events tb)) \<and>
     (\<forall>row\<in>set (tb_events tb). 0 < ev_seq (er_event row) \<and> ev_seq (er_event row) \<le> n) \<and> 0 \<le> n"

text \<open>The rows of one tenant.\<close>

definition tenant_view :: "string \<Rightarrow> tables \<Rightarrow> RunRow list \<times> EventRow list \<times> ApprovalRow list \<times> EffectRow list" where
  "tenant_view tenant tb =
     (filter (\<lambda>row. r_tenant_id (row_run row) = tenant) (tb_runs tb),
      filter (\<lambda>row. ev_tenant_id (er_event row) = tenant) (tb_events tb),
      filter (\<lambda>row. ap_tenant_id row = tenant) (tb_approvals tb),
      filter (\<lambda>row. fx_tenant_id row = tenant) (tb_effects tb))"

end
