(* ===== verification/StoreContract.thy ===== *)
theory StoreContract
  imports StoreTables
begin

text \<open>
  What the engine relies on of a \<open>Store\<close>, as a locale over the operations of the protocol.

  \<open>tabs\<close> gives the committed tables of a store state.  Every law says what an operation
  returns and what it does to the tables.  An operation may also be cut short by the death
  of the process (\<open>crashed\<close>): then nothing is committed.  The two stores of Bass never
  crash by themselves; \<open>crash_ops\<close> wraps a store so that the process dies at its
  \<open>n\<close>-th operation, and keeps the contract, so whatever is proved in the locale holds
  for crashes at every operation boundary.
\<close>

definition crashed :: "exn + 'a \<Rightarrow> bool" where
  "crashed r \<longleftrightarrow> (\<exists>m. r = Inl (Exn Crash m))"

lemma crashed_simps [simp]: "\<not> crashed (Inr x)" "crashed (Inl e) \<longleftrightarrow> exn_cls e = Crash"
  by (cases e; auto simp: crashed_def)+

section \<open>Vocabulary of the laws\<close>

text \<open>The run is not stored, or belongs to the tenant.\<close>

definition owns :: "string \<Rightarrow> string \<Rightarrow> tables \<Rightarrow> bool" where
  "owns tenant i tb \<longleftrightarrow> (\<forall>row. run_row i tb = Some row \<longrightarrow> r_tenant_id (row_run row) = tenant)"

definition effect_result :: "string \<Rightarrow> EffectRow option \<Rightarrow> exn + pyval" where
  "effect_result tenant row = (case row of
      None \<Rightarrow> Inr PNone
    | Some row \<Rightarrow> if fx_tenant_id row = tenant then Inr (fx_result row)
                  else Inl (Exn TenantIsolationError ''effect belongs to a different tenant''))"

definition run_result :: "string \<Rightarrow> RunRow option \<Rightarrow> exn + Run option" where
  "run_result tenant row = (case row of
      None \<Rightarrow> Inr None
    | Some row \<Rightarrow> if r_tenant_id (row_run row) = tenant then Inr (Some (row_run row))
                  else Inl (Exn TenantIsolationError ''run belongs to a different tenant''))"

text \<open>Event rows that log the given events: redacted payloads, some sequence numbers and
  timestamps.\<close>

definition logs :: "Event list \<Rightarrow> EventRow list \<Rightarrow> bool" where
  "logs evs rows \<longleftrightarrow> list_all2 (\<lambda>ev row. \<exists>n. er_event row =
     ev\<lparr>ev_payload := redact_dict (ev_payload ev), ev_seq := n\<rparr>) evs rows"

definition log_events :: "EventRow list \<Rightarrow> tables \<Rightarrow> tables" where
  "log_events rows tb = tb\<lparr>tb_events := tb_events tb @ rows\<rparr>"

lemma log_events_tables [simp]:
  "tb_tenants (log_events rows tb) = tb_tenants tb"
  "tb_runs (log_events rows tb) = tb_runs tb"
  "tb_events (log_events rows tb) = tb_events tb @ rows"
  "tb_approvals (log_events rows tb) = tb_approvals tb"
  "tb_effects (log_events rows tb) = tb_effects tb"
  by (simp_all add: log_events_def)

definition approvals_for :: "string \<Rightarrow> string \<Rightarrow> string \<Rightarrow> tables \<Rightarrow> ApprovalRow list" where
  "approvals_for tenant rid sid tb =
     filter (\<lambda>row. ap_run_id row = rid \<and> ap_tenant_id row = tenant \<and> ap_step_id row = sid) (tb_approvals tb)"

text \<open>A row with the latest request time among the given ones, or none if there is none.\<close>

definition is_latest :: "ApprovalRow list \<Rightarrow> (string \<times> ApprovalStatus) option \<Rightarrow> bool" where
  "is_latest rows res \<longleftrightarrow> (case res of
      None \<Rightarrow> rows = []
    | Some (i, st) \<Rightarrow> \<exists>row\<in>set rows. i = ap_id row \<and> st = ap_status row \<and>
        (\<forall>row'\<in>set rows. ap_requested_at row' \<le> ap_requested_at row))"

section \<open>The contract\<close>

locale store =
  fixes S :: "'d StoreOps" and tabs :: "'d \<Rightarrow> tables"
  assumes get_effect_law:
      "op_get_effect S tenant key d = (r, d') \<Longrightarrow>
         tabs d' = tabs d \<and> (crashed r \<or> r = effect_result tenant (effect_row key (tabs d)))"
    and record_effect_law:
      "op_record_effect S tenant key rid osid tool v d = (r', d') \<Longrightarrow>
         (crashed r' \<and> tabs d' = tabs d) \<or>
         (r' = Inr () \<and> (\<exists>row. fx_key row = key \<and> fx_tenant_id row = tenant \<and> fx_run_id row = rid \<and>
            fx_step_id row = osid \<and> fx_tool row = tool \<and> fx_result row = v \<and>
            tabs d' = (if effect_row key (tabs d) = None then insert_effect row (tabs d) else tabs d)))"
    and checkpoint_law:
      "op_checkpoint S run evs d = (r', d') \<Longrightarrow>
         (tabs d' = tabs d \<and> (crashed r' \<or>
            (\<exists>m. r' = Inl (Exn TenantIsolationError m) \<and>
               (\<not> owns (r_tenant_id run) (r_id run) (tabs d) \<or> (\<exists>ev\<in>set evs. ev_tenant_id ev \<noteq> r_tenant_id run))))) \<or>
         (r' = Inr () \<and> owns (r_tenant_id run) (r_id run) (tabs d) \<and>
            (\<forall>ev\<in>set evs. ev_tenant_id ev = r_tenant_id run) \<and>
            (\<exists>t rows. logs evs rows \<and> tabs d' = log_events rows (update_run run t (tabs d))))"
    and load_run_law:
      "op_load_run S tenant i d = (rr, d') \<Longrightarrow>
         tabs d' = tabs d \<and> (crashed rr \<or> rr = run_result tenant (run_row i (tabs d)))"
    and create_or_get_run_law:
      "op_create_or_get_run S run d = (rc, d') \<Longrightarrow>
         (\<exists>e. rc = Inl e \<and> tabs d' = tabs d \<and>
            (exn_cls e = Crash \<or> run_row (r_id run) (tabs d) \<noteq> None \<and> run_by_key (r_tenant_id run) (r_idempotency_key run) (tabs d) = None)) \<or>
         (\<exists>row. run_by_key (r_tenant_id run) (r_idempotency_key run) (tabs d) = Some row \<and>
            rc = Inr (row_run row, False) \<and> tabs d' = tabs d) \<or>
         (\<exists>t. run_by_key (r_tenant_id run) (r_idempotency_key run) (tabs d) = None \<and>
            run_row (r_id run) (tabs d) = None \<and>
            rc = Inr (run, True) \<and> tabs d' = insert_run run t (tabs d))"
    and create_approval_law:
      "op_create_approval S tenant rid sid approvers d = (ra, d') \<Longrightarrow>
         (\<exists>e. ra = Inl e \<and> tabs d' = tabs d \<and> exn_cls e \<in> {Crash, TenantIsolationError, IntegrityError}) \<or>
         (\<exists>row. ra = Inr (ap_id row) \<and> ap_run_id row = rid \<and> ap_tenant_id row = tenant \<and> ap_step_id row = sid \<and>
            ap_status row = AP_PENDING \<and> ap_approvers row = approvers \<and>
            approval_row (ap_id row) (tabs d) = None \<and> owns tenant rid (tabs d) \<and>
            tabs d' = insert_approval row (tabs d))"
    and resolve_approval_law:
      "op_resolve_approval S tenant aid approved decided_by note d = (r', d') \<Longrightarrow>
         (\<exists>e. r' = Inl e \<and> tabs d' = tabs d \<and>
            (exn_cls e = Crash \<or> exn_cls e = KeyError \<and> approval_row aid (tabs d) = None \<or>
             exn_cls e = TenantIsolationError \<and>
               (\<exists>row. approval_row aid (tabs d) = Some row \<and> ap_tenant_id row \<noteq> tenant))) \<or>
         (\<exists>row t. r' = Inr () \<and> approval_row aid (tabs d) = Some row \<and> ap_tenant_id row = tenant \<and>
            tabs d' = decide_approval aid (if approved then AP_APPROVED else AP_REJECTED) decided_by note t (tabs d))"
    and latest_approval_law:
      "op_latest_approval S tenant rid sid d = (rl, d') \<Longrightarrow>
         tabs d' = tabs d \<and>
         (crashed rl \<or> (\<exists>res. rl = Inr res \<and> is_latest (approvals_for tenant rid sid (tabs d)) res))"
    and cancel_run_law:
      "op_cancel_run S tenant i d = (rb, d') \<Longrightarrow>
         (\<exists>e. rb = Inl e \<and> tabs d' = tabs d \<and>
            (exn_cls e = Crash \<or> exn_cls e = TenantIsolationError \<and> \<not> owns tenant i (tabs d))) \<or>
         (rb = Inr False \<and> tabs d' = tabs d \<and>
            (\<forall>row. run_row i (tabs d) = Some row \<longrightarrow> r_tenant_id (row_run row) = tenant \<and> terminal (r_status (row_run row)))) \<or>
         (\<exists>row t rows ev. rb = Inr True \<and> run_row i (tabs d) = Some row \<and> r_tenant_id (row_run row) = tenant \<and>
            \<not> terminal (r_status (row_run row)) \<and>
            ev_run_id ev = i \<and> ev_tenant_id ev = tenant \<and> ev_type ev = ''run_canceled'' \<and> logs [ev] rows \<and>
            tabs d' = log_events rows (update_status tenant i CANCELED t (tabs d)))"
    and ensure_tenant_law:
      "op_ensure_tenant S tenant nm settings d = (r', d') \<Longrightarrow>
         (crashed r' \<and> tabs d' = tabs d) \<or> (r' = Inr () \<and> (\<exists>t. tabs d' = upsert_tenant tenant nm settings t (tabs d)))"
    and list_events_law:
      "op_list_events S tenant i d = (re, d') \<Longrightarrow>
         tabs d' = tabs d \<and> (crashed re \<or>
           (if owns tenant i (tabs d) then re = Inr (events_of tenant i (tabs d))
            else \<exists>m. re = Inl (Exn TenantIsolationError m)))"
    and purge_law:
      "op_purge_event_payloads S tenant before_ts d = (ri, d') \<Longrightarrow>
         (crashed ri \<and> tabs d' = tabs d) \<or>
         (ri = Inr (int (length (filter (purgeable tenant before_ts) (tb_events (tabs d))))) \<and>
          tabs d' = purge_payloads tenant before_ts (tabs d))"

section \<open>A process that dies\<close>

text \<open>The store seen by a process that has \<open>n\<close> store operations left before it dies.\<close>

definition dies :: "(exn, 'd, 'a) comp \<Rightarrow> (exn, 'd \<times> nat, 'a) comp" where
  "dies m = (\<lambda>(d, n). if n = 0 then (Inl (Exn Crash []), (d, 0))
                      else (case m d of (r, d') \<Rightarrow> (r, (d', n - 1))))"

definition crash_ops :: "'d StoreOps \<Rightarrow> ('d \<times> nat) StoreOps" where
  "crash_ops S =
     \<lparr>op_ensure_tenant = (\<lambda>a b c. dies (op_ensure_tenant S a b c)),
      op_create_or_get_run = (\<lambda>a. dies (op_create_or_get_run S a)),
      op_load_run = (\<lambda>a b. dies (op_load_run S a b)),
      op_list_runs = (\<lambda>a b c. dies (op_list_runs S a b c)),
      op_checkpoint = (\<lambda>a b. dies (op_checkpoint S a b)),
      op_list_events = (\<lambda>a b. dies (op_list_events S a b)),
      op_get_effect = (\<lambda>a b. dies (op_get_effect S a b)),
      op_record_effect = (\<lambda>a b c d e f. dies (op_record_effect S a b c d e f)),
      op_create_approval = (\<lambda>a b c d. dies (op_create_approval S a b c d)),
      op_resolve_approval = (\<lambda>a b c d e. dies (op_resolve_approval S a b c d e)),
      op_latest_approval = (\<lambda>a b c. dies (op_latest_approval S a b c)),
      op_cancel_run = (\<lambda>a b. dies (op_cancel_run S a b)),
      op_purge_event_payloads = (\<lambda>a b. dies (op_purge_event_payloads S a b))\<rparr>"

lemma dies_cases:
  assumes "dies m s = (r, s')"
  obtains (crash) "crashed r" "fst s' = fst s" "s' = (fst s, 0)" "snd s = 0"
  | (alive) "m (fst s) = (r, fst s')" "0 < snd s"
  using assms by (cases s) (auto simp: dies_def split: if_splits prod.splits)

context store
begin

lemmas store_laws =
  get_effect_law record_effect_law checkpoint_law load_run_law create_or_get_run_law create_approval_law
  resolve_approval_law latest_approval_law cancel_run_law ensure_tenant_law list_events_law purge_law

lemma crash_ops_store: "store (crash_ops S) (tabs \<circ> fst)"
  by (unfold_locales; unfold crash_ops_def StoreOps.simps o_apply; erule dies_cases;
      (drule store_laws, assumption | force simp: crashed_def))

end

end
