(* ===== verification/Workflow.thy ===== *)
theory Workflow
  imports Agent Budgets StoreContract
begin

text \<open>
  \<open>workflow.py\<close>: the durable workflow engine, over any store.

  One definition per method, on the shared state \<open>sys\<close>; \<open>S\<close> is the store's protocol,
  \<open>E\<close> the environment and \<open>en\<close> the engine's constructor arguments.  The handlers leave
  the tracing spans and log lines out; nothing reads them.  \<open>drive\<close> is the \<open>while\<close> loop of
  \<open>_drive\<close> and \<open>drive_step\<close> its body; it is total, since every iteration passes the step
  ceiling of the budget and uses one step.
\<close>

section \<open>Durable barriers\<close>

definition on_store :: "(exn, 'd, 'a) comp \<Rightarrow> ('d, 'x, 'a) eng" where
  "on_store m = zoom sy_store (\<lambda>d s. s\<lparr>sy_store := d\<rparr>) m"

definition engine_checkpoint :: "'d StoreOps \<Rightarrow> ('d, 'x, unit) eng" where
  "engine_checkpoint S =
     bindc (gets (\<lambda>s. (sy_run s, sy_buffer s))) (\<lambda>(run, buffer).
     seqc (on_store (op_checkpoint S run buffer)) (modify (\<lambda>s. s\<lparr>sy_buffer := []\<rparr>)))"

fun resolve :: "(string \<times> arg) list \<Rightarrow> pydict \<Rightarrow> exn + pydict" where
  "resolve [] context = Inr []"
| "resolve ((k, v) # args) context =
     (case (case v of Const x \<Rightarrow> Inr x | Computed f \<Rightarrow> f context) of
        Inl e \<Rightarrow> Inl e
      | Inr x \<Rightarrow> (case resolve args context of Inl e \<Rightarrow> Inl e | Inr rest \<Rightarrow> Inr ((k, x) # rest)))"

definition resolve_args :: "Step \<Rightarrow> ('d, 'x, pydict) eng" where
  "resolve_args step = bindc (gets (\<lambda>s. resolve (s_args step) (r_context (sy_run s)))) liftE"

section \<open>Approvals\<close>

definition request_approval ::
  "'d StoreOps \<Rightarrow> Step \<Rightarrow> string list \<Rightarrow> string \<Rightarrow> pydict \<Rightarrow> ('d, 'x, string) eng" where
  "request_approval S step approvers tool_name args =
     bindc (gets sy_run) (\<lambda>run.
     bindc (on_store (op_create_approval S (r_tenant_id run) (r_id run) (s_id step) approvers)) (\<lambda>aid.
     seqc (set_status WAITING_APPROVAL)
    (seqc (emit ''approval_requested''
            [(''approval_id'', PStr aid), (''approvers'', PList (map PStr approvers)),
             (''tool'', PStr tool_name), (''amount'', dget args ''amount'' PNone)] (Some (s_id step)) 0 ''system'')
     (ret aid))))"

definition approve_sync ::
  "'d StoreOps \<Rightarrow> (Run \<Rightarrow> Step \<Rightarrow> string \<Rightarrow> pydict \<Rightarrow> 'x \<Rightarrow> (exn + bool) \<times> 'x) \<Rightarrow>
     Step \<Rightarrow> string list \<Rightarrow> string \<Rightarrow> pydict \<Rightarrow> ('d, 'x, bool) eng" where
  "approve_sync S approval_fn step approvers tool_name args =
     bindc (request_approval S step approvers tool_name args) (\<lambda>aid.
     bindc (gets sy_run) (\<lambda>run.
     bindc (outside (approval_fn run step tool_name args)) (\<lambda>granted.
     seqc (on_store (op_resolve_approval S (r_tenant_id run) aid granted ''approval_fn'' []))
    (seqc (emit ''approval_resolved'' [(''approval_id'', PStr aid), (''granted'', PBool granted)]
            (Some (s_id step)) 0 ''system'')
    (seqc (set_status RUNNING) (ret granted))))))"

definition approve_async ::
  "'d StoreOps \<Rightarrow> Step \<Rightarrow> string list \<Rightarrow> string \<Rightarrow> pydict \<Rightarrow> ('d, 'x, bool) eng" where
  "approve_async S step approvers tool_name args =
     bindc (gets sy_run) (\<lambda>run.
     bindc (on_store (op_latest_approval S (r_tenant_id run) (r_id run) (s_id step))) (\<lambda>existing.
     case existing of
       None \<Rightarrow>
         bindc (request_approval S step approvers tool_name args) (\<lambda>aid.
         seqc (engine_checkpoint S) (throw (Exn Paused aid)))
     | Some (aid, status) \<Rightarrow>
         if status = AP_PENDING
         then seqc (set_status WAITING_APPROVAL) (seqc (engine_checkpoint S) (throw (Exn Paused aid)))
         else seqc (emit ''approval_resolved''
                     [(''approval_id'', PStr aid), (''granted'', PBool (status = AP_APPROVED))]
                     (Some (s_id step)) 0 ''system'')
                   (ret (status = AP_APPROVED))))"

definition await_approval ::
  "'d StoreOps \<Rightarrow> 'x engine \<Rightarrow> Step \<Rightarrow> string list \<Rightarrow> string \<Rightarrow> pydict \<Rightarrow> ('d, 'x, bool) eng" where
  "await_approval S en step approvers tool_name args = (case en_approval_fn en of
      Some approval_fn \<Rightarrow> approve_sync S approval_fn step approvers tool_name args
    | None \<Rightarrow> approve_async S step approvers tool_name args)"

section \<open>Node handlers\<close>

definition run_agent :: "env \<Rightarrow> 'x engine \<Rightarrow> Step \<Rightarrow> ('d, 'x, string option) eng" where
  "run_agent E en step =
     (case (case s_agent step of None \<Rightarrow> None | Some n \<Rightarrow> en_agents en n) of
        None \<Rightarrow> throw (Exn WorkflowError (''unknown agent '' @ [CHR 0x27] @
                  (case s_agent step of None \<Rightarrow> ''None'' | Some n \<Rightarrow> n) @ [CHR 0x27]))
      | Some agent \<Rightarrow>
          bindc (resolve_args step) (\<lambda>args.
          bindc (gets (\<lambda>s. if args \<noteq> [] then args else [(''email'', PDict (r_trigger_event (sy_run s)))])) (\<lambda>task.
          bindc (runtime_run E en agent task) (\<lambda>out.
          seqc (set_context (s_id step) out) (ret (s_next step))))))"

text \<open>The idempotency key of a mutating tool step.\<close>

definition effect_key :: "Run \<Rightarrow> Step \<Rightarrow> string \<Rightarrow> string" where
  "effect_key run step tool = r_id run @ '':'' @ s_id step @ '':'' @ tool"

definition system_agent :: "string \<Rightarrow> Agent" where
  "system_agent tool = mk_agent ''system'' ''workflow'' [] [tool]"

definition replay_effect :: "Step \<Rightarrow> string \<Rightarrow> pyval \<Rightarrow> ('d, 'x, string option) eng" where
  "replay_effect step name cached =
     seqc (emit ''tool_result_replayed'' [(''tool'', PStr name), (''result'', cached)] (Some (s_id step)) 0 ''system'')
    (seqc (set_context (s_id step) cached) (ret (s_next step)))"

definition tool_gate ::
  "'d StoreOps \<Rightarrow> 'x engine \<Rightarrow> Step \<Rightarrow> string \<Rightarrow> 'x Tool \<Rightarrow> pydict \<Rightarrow> ('d, 'x, unit) eng" where
  "tool_gate S en step name tool args =
     bindc (gets (\<lambda>s. check (en_policy en) (system_agent name) tool args (r_context (sy_run s)))) (\<lambda>decision.
     seqc (emit ''policy_decision''
            [(''tool'', PStr name), (''effect'', PStr (effect_value (d_effect decision))),
             (''reason'', PStr (d_reason decision))] (Some (s_id step)) 0 ''system'')
    (seqc (metric ''policy.decisions'' [(''effect'', effect_value (d_effect decision))])
    (if d_effect decision = DENY then throw (Exn PolicyDenied (name @ '': '' @ d_reason decision))
     else if d_effect decision = REQUIRE_APPROVAL
     then bindc (await_approval S en step (d_approvers decision) name args) (\<lambda>ok.
          if ok then ret () else throw (Exn PolicyDenied (name @ '': approval not granted'')))
     else ret ())))"

definition tool_act ::
  "env \<Rightarrow> 'd StoreOps \<Rightarrow> Step \<Rightarrow> string \<Rightarrow> 'x Tool \<Rightarrow> string \<Rightarrow> pydict \<Rightarrow> ('d, 'x, string option) eng" where
  "tool_act E S step name tool key args =
     bindc (exec_tool E name
       (if t_side_effect tool then AList.update ''_idempotency_key'' (PStr key) args else args)) (\<lambda>result.
     bindc (gets sy_run) (\<lambda>run.
     seqc (if t_side_effect tool
           then on_store (op_record_effect S (r_tenant_id run) key (r_id run) (Some (s_id step)) name result)
           else ret ())
    (seqc (add_cost (t_cost_usd tool))
    (seqc (emit ''tool_result'' [(''tool'', PStr name), (''result'', result)] (Some (s_id step))
            (t_cost_usd tool) ''system'')
    (seqc (metric ''tool.calls'' [(''tool'', name)])
    (seqc (set_context (s_id step) result) (ret (s_next step))))))))"

definition run_tool :: "env \<Rightarrow> 'd StoreOps \<Rightarrow> 'x engine \<Rightarrow> Step \<Rightarrow> ('d, 'x, string option) eng" where
  "run_tool E S en step =
     (case s_tool step of
        None \<Rightarrow> throw (Exn AssertionError ''tool node requires a tool name'')
      | Some name \<Rightarrow>
          bindc (use_tool name) (\<lambda>tool.
          bindc (resolve_args step) (\<lambda>args.
          bindc (gets sy_run) (\<lambda>run.
          let key = effect_key run step name in
          bindc (if t_side_effect tool then on_store (op_get_effect S (r_tenant_id run) key) else ret PNone) (\<lambda>cached.
          if cached \<noteq> PNone then replay_effect step name cached
          else seqc (tool_gate S en step name tool args) (tool_act E S step name tool key args))))))"

fun take_branch :: "((pydict \<Rightarrow> exn + bool) option \<times> string) list \<Rightarrow> pydict \<Rightarrow> exn + string option" where
  "take_branch [] context = Inr None"
| "take_branch ((p, goto) # bs) context = (case p of
      None \<Rightarrow> Inr (Some goto)
    | Some f \<Rightarrow> (case f context of
          Inl e \<Rightarrow> Inl e
        | Inr b \<Rightarrow> if b then Inr (Some goto) else take_branch bs context))"

definition run_branch :: "Step \<Rightarrow> ('d, 'x, string option) eng" where
  "run_branch step =
     bindc (gets (\<lambda>s. take_branch (s_branches step) (r_context (sy_run s)))) (\<lambda>r.
     bindc (liftE r) (\<lambda>taken. case taken of
       None \<Rightarrow> ret (s_next step)
     | Some goto \<Rightarrow>
         seqc (emit ''branch_taken'' [(''goto'', PStr goto)] (Some (s_id step)) 0 ''system'') (ret (Some goto))))"

definition run_approval :: "'d StoreOps \<Rightarrow> 'x engine \<Rightarrow> Step \<Rightarrow> ('d, 'x, string option) eng" where
  "run_approval S en step =
     bindc (await_approval S en step (s_approvers step) [] []) (\<lambda>ok.
     if ok then ret (s_next step)
     else throw (Exn PolicyDenied (''approval step '' @ [CHR 0x27] @ s_id step @ [CHR 0x27] @ '' rejected'')))"

definition run_step :: "env \<Rightarrow> 'd StoreOps \<Rightarrow> 'x engine \<Rightarrow> Step \<Rightarrow> ('d, 'x, string option) eng" where
  "run_step E S en step =
     (if s_node_type step = ''agent'' then run_agent E en step
      else if s_node_type step = ''tool'' then run_tool E S en step
      else if s_node_type step = ''branch'' then run_branch step
      else if s_node_type step = ''approval'' then run_approval S en step
      else if s_node_type step = ''terminate'' then ret None
      else throw (Exn WorkflowError (''unknown node type: '' @ s_node_type step)))"

section \<open>Retries, compensation and the loop\<close>

fun retry_loop ::
  "env \<Rightarrow> 'd StoreOps \<Rightarrow> 'x engine \<Rightarrow> Step \<Rightarrow> int list \<Rightarrow> exn option \<Rightarrow> ('d, 'x, string option) eng" where
  "retry_loop E S en step [] prev =
     (case prev of None \<Rightarrow> throw (Exn AssertionError []) | Some e \<Rightarrow> throw e)"
| "retry_loop E S en step (attempt # rest) prev =
     handle (run_step E S en step) (\<lambda>e.
       if is_a ConnectorError e
       then seqc (emit ''step_retry''
                   [(''step'', PStr (s_id step)), (''attempt'', PInt attempt), (''error'', PStr (exn_str e))]
                   (Some (s_id step)) 0 ''system'')
           (seqc (metric ''steps.retries'' [(''step'', s_id step)])
                 (retry_loop E S en step rest (Some e)))
       else throw e)"

definition run_step_with_retry ::
  "env \<Rightarrow> 'd StoreOps \<Rightarrow> 'x engine \<Rightarrow> Step \<Rightarrow> ('d, 'x, string option) eng" where
  "run_step_with_retry E S en step = retry_loop E S en step [1..s_max_attempts step] None"

definition compensate ::
  "env \<Rightarrow> 'd StoreOps \<Rightarrow> 'x engine \<Rightarrow> Workflow \<Rightarrow> Step \<Rightarrow> ('d, 'x, unit) eng" where
  "compensate E S en flow step =
     (case s_compensate_with step of
        None \<Rightarrow> ret ()
      | Some c \<Rightarrow>
          if c = [] then ret ()
          else (case wf_steps flow c of
             None \<Rightarrow> ret ()
           | Some cstep \<Rightarrow>
               seqc (emit ''compensation'' [(''for_step'', PStr (s_id step)), (''run_step'', PStr (s_id cstep))]
                      (Some (s_id cstep)) 0 ''system'')
              (handle (seqc (run_step E S en cstep) (ret ())) (\<lambda>e.
                 if is_exception e
                 then emit ''compensation_failed'' [(''step'', PStr (s_id cstep)), (''error'', PStr (exn_str e))]
                        (Some (s_id cstep)) 0 ''system''
                 else throw e))))"

definition fail_run :: "'d StoreOps \<Rightarrow> string \<Rightarrow> string \<Rightarrow> string \<Rightarrow> ('d, 'x, unit) eng" where
  "fail_run S reason detail label =
     seqc (set_status FAILED)
    (seqc (emit ''error'' [(''reason'', PStr reason), (''detail'', PStr detail)] None 0 ''system'')
    (seqc (engine_checkpoint S) (metric ''runs.failed'' [(''reason'', label)])))"

definition on_step_error ::
  "env \<Rightarrow> 'd StoreOps \<Rightarrow> 'x engine \<Rightarrow> Workflow \<Rightarrow> Step \<Rightarrow> exn \<Rightarrow> ('d, 'x, 'a) eng" where
  "on_step_error E S en flow step e =
     (if is_a PolicyDenied e
      then seqc (fail_run S ''policy denied'' (exn_str e) ''policy'') (throw e)
      else if is_a ConnectorError e
      then seqc (compensate E S en flow step)
          (seqc (fail_run S ''step failed'' (exn_str e) ''connector'') (throw e))
      else throw e)"

definition enter_step :: "Step \<Rightarrow> ('d, 'x, unit) eng" where
  "enter_step step =
     seqc (modify (\<lambda>s. s\<lparr>sy_run := (sy_run s)\<lparr>r_steps_used := r_steps_used (sy_run s) + 1\<rparr>\<rparr>))
       (emit ''state_transition'' [(''entering_step'', PStr (s_id step)), (''type'', PStr (s_node_type step))]
          (Some (s_id step)) 0 ''system'')"

definition advance :: "string option \<Rightarrow> ('d, 'x, unit) eng" where
  "advance next_id =
     seqc (modify (\<lambda>s. s\<lparr>sy_run := (sy_run s)\<lparr>r_cursor_step := next_id\<rparr>\<rparr>))
       (if next_id = None
        then seqc (modify (\<lambda>s. s\<lparr>sy_run := (sy_run s)\<lparr>r_status := SUCCEEDED,
                     r_result := dget (r_context (sy_run s)) ''result'' (PDict (r_context (sy_run s)))\<rparr>\<rparr>))
               (bindc (gets sy_run) (\<lambda>run.
                  emit ''run_succeeded'' [(''result'', r_result run)] None 0 ''system''))
        else ret ())"

definition drive_step ::
  "env \<Rightarrow> 'd StoreOps \<Rightarrow> 'x engine \<Rightarrow> Workflow \<Rightarrow> Budget \<Rightarrow> string \<Rightarrow> ('d, 'x, string option) eng" where
  "drive_step E S en flow budget step_id =
     (case wf_steps flow step_id of
        None \<Rightarrow> throw (Exn WorkflowError (''unknown step '' @ [CHR 0x27] @ step_id @ [CHR 0x27]))
      | Some step \<Rightarrow>
          bindc (gets (\<lambda>s. budget_check budget (sy_run s))) (\<lambda>violation.
          case violation of
            Some v \<Rightarrow>
              seqc (fail_run S ''budget exceeded'' v ''budget'') (throw (Exn BudgetExceeded v))
          | None \<Rightarrow>
              seqc (enter_step step)
             (bindc (handle (run_step_with_retry E S en step) (on_step_error E S en flow step)) (\<lambda>next_id.
              seqc (advance next_id) (seqc (engine_checkpoint S) (ret next_id))))))"

section \<open>What the handlers may do to the state\<close>

text \<open>
  A relation that every primitive of a step keeps is kept by every step handler, by the
  retries and by compensation.
\<close>

locale engine_frame = frame R
  for R :: "('d, 'x) sys \<Rightarrow> ('d, 'x) sys \<Rightarrow> bool" +
  fixes E :: env and S :: "'d StoreOps" and en :: "'x engine"
  assumes emit_keeps: "keeps R (emit ty payload sid cost actor)"
    and metric_keeps: "keeps R (metric name labels)"
    and status_keeps: "keeps R (set_status st)"
    and cost_keeps: "keeps R (add_cost c)"
    and context_keeps: "keeps R (set_context k v)"
    and outside_resp_keeps: "keeps R (outside (f :: 'x \<Rightarrow> (exn + ModelResponse \<times> pydict) \<times> 'x))"
    and checkpoint_keeps: "keeps R (engine_checkpoint S)"
    and approval_keeps: "keeps R (await_approval S en step approvers name args)"
    and call_keeps: "en_agents en n = Some agent \<Longrightarrow> keeps R (exec_call E en agent call)"
    and tool_keeps: "keeps R (run_tool E S en step)"
begin

lemmas step_rules = keeps_rules emit_keeps metric_keeps status_keeps cost_keeps context_keeps
  outside_resp_keeps checkpoint_keeps approval_keeps tool_keeps

lemma field_keeps: "keeps R (field k v)"
  unfolding field_def by (intro step_rules)

lemma resolve_args_keeps: "keeps R (resolve_args step)"
  unfolding resolve_args_def by (intro step_rules)

lemma agent_loop_keeps:
  "en_agents en n = Some agent \<Longrightarrow> keeps R (agent_loop E en agent task m scratch)"
  by (induction m arbitrary: scratch) (auto intro!: step_rules field_keeps call_keeps)

lemma run_agent_keeps: "keeps R (run_agent E en step)"
  unfolding run_agent_def runtime_run_def
  by (auto intro!: step_rules resolve_args_keeps agent_loop_keeps split: option.splits)

lemma run_branch_keeps: "keeps R (run_branch step)"
  unfolding run_branch_def by (intro step_rules)

lemma run_approval_keeps: "keeps R (run_approval S en step)"
  unfolding run_approval_def by (intro step_rules)

lemma run_step_keeps: "keeps R (run_step E S en step)"
  unfolding run_step_def
  by (intro step_rules run_agent_keeps run_branch_keeps run_approval_keeps)

lemma retry_loop_keeps: "keeps R (retry_loop E S en step attempts prev)"
  by (induction attempts arbitrary: prev) (auto intro!: step_rules run_step_keeps split: option.splits)

lemma run_step_with_retry_keeps: "keeps R (run_step_with_retry E S en step)"
  unfolding run_step_with_retry_def by (rule retry_loop_keeps)

lemma compensate_keeps: "keeps R (compensate E S en flow step)"
  unfolding compensate_def by (intro step_rules run_step_keeps)

lemma fail_run_keeps: "keeps R (fail_run S reason detail label)"
  unfolding fail_run_def by (intro step_rules)

lemma on_step_error_keeps: "keeps R (on_step_error E S en flow step e)"
  unfolding on_step_error_def by (intro step_rules compensate_keeps fail_run_keeps)

end

text \<open>The primitives, as frame rules: each is kept by a relation that its own state change
  satisfies.\<close>

lemma on_store_keeps: "(\<And>s r d. m (sy_store s) = (r, d) \<Longrightarrow> R s (s\<lparr>sy_store := d\<rparr>)) \<Longrightarrow> keeps R (on_store m)"
  by (auto simp: keeps_def on_store_def zoom_def split: prod.splits)

lemma outside_keeps: "(\<And>s x. R s (s\<lparr>sy_world := (sy_world s)\<lparr>ext := x\<rparr>\<rparr>)) \<Longrightarrow> keeps R (outside f)"
  by (auto simp: keeps_def outside_def zoom_def split: prod.splits)

lemma exec_tool_keeps:
  "(\<And>s r reg w. execute E name args (sy_reg s, sy_world s) = (r, (reg, w)) \<Longrightarrow>
      R s (s\<lparr>sy_reg := reg, sy_world := w\<rparr>)) \<Longrightarrow> keeps R (exec_tool E name args)"
  by (auto simp: keeps_def exec_tool_def zoom_def split: prod.splits)

text \<open>A step uses no steps of the budget and works on the same run.\<close>

definition same_steps :: "('d, 'x) sys \<Rightarrow> ('d, 'x) sys \<Rightarrow> bool" where
  "same_steps s s' \<longleftrightarrow> r_steps_used (sy_run s') = r_steps_used (sy_run s) \<and>
     r_id (sy_run s') = r_id (sy_run s) \<and> r_tenant_id (sy_run s') = r_tenant_id (sy_run s)"

interpretation same_steps_frame: frame same_steps
  by unfold_locales (auto simp: same_steps_def)

lemma same_steps_modify: "(\<And>s. same_steps s (f s)) \<Longrightarrow> keeps same_steps (modify f)"
  by (rule same_steps_frame.keeps_modify)

lemma same_steps_on_store: "keeps same_steps (on_store m)"
  by (rule on_store_keeps) (simp add: same_steps_def)

lemma same_steps_outside: "keeps same_steps (outside f)"
  by (rule outside_keeps) (simp add: same_steps_def)

lemma same_steps_exec_tool: "keeps same_steps (exec_tool E name args)"
  by (rule exec_tool_keeps) (simp add: same_steps_def)

lemmas same_steps_rules = same_steps_frame.keeps_rules same_steps_on_store same_steps_outside
  same_steps_exec_tool same_steps_modify

lemmas eng_prims = emit_def metric_def set_status_def add_cost_def set_context_def use_tool_def
  field_def resolve_args_def engine_checkpoint_def

interpretation same_steps: engine_frame same_steps E S en for E S en
proof (unfold_locales, goal_cases)
  case (8 step approvers name args)
  show ?case
    unfolding await_approval_def approve_sync_def approve_async_def request_approval_def eng_prims
    by (intro same_steps_rules; simp add: same_steps_def)
next
  case (9 n agent call)
  show ?case unfolding exec_call_def gated_call_def eng_prims by (intro same_steps_rules; simp add: same_steps_def)
next
  case (10 step)
  show ?case
    unfolding run_tool_def replay_effect_def tool_gate_def tool_act_def eng_prims await_approval_def
      approve_sync_def approve_async_def request_approval_def
    by (intro same_steps_rules; simp add: same_steps_def)
qed (unfold eng_prims, (intro same_steps_rules; simp add: same_steps_def)+)

section \<open>The loop ends\<close>

lemma advance_steps: "keeps same_steps (advance next_id)"
  unfolding advance_def eng_prims by (intro same_steps_rules; simp add: same_steps_def)

lemma drive_step_body_steps:
  "keeps same_steps (bindc (handle (run_step_with_retry E S en step) (on_step_error E S en flow step)) (\<lambda>next_id.
     seqc (advance next_id) (seqc (engine_checkpoint S) (ret next_id))))"
  by (intro same_steps_frame.keeps_rules same_steps.run_step_with_retry_keeps
      same_steps.on_step_error_keeps advance_steps same_steps.checkpoint_keeps)

lemma drive_step_uses_step:
  assumes "drive_step E S en flow budget i s = (Inr nxt, s')"
  shows "r_steps_used (sy_run s') = r_steps_used (sy_run s) + 1"
    and "r_steps_used (sy_run s) \<le> b_max_steps budget"
    and "r_cost_usd (sy_run s) \<le> b_max_usd budget"
proof -
  obtain step where ok: "budget_check budget (sy_run s) = None"
    and body: "bindc (handle (run_step_with_retry E S en step) (on_step_error E S en flow step)) (\<lambda>next_id.
      seqc (advance next_id) (seqc (engine_checkpoint S) (ret next_id))) (snd (enter_step step s)) = (Inr nxt, s')"
    using assms
    by (auto simp: drive_step_def enter_step_def emit_def bindc_eq_Inr split: option.splits)
  from ok show "r_steps_used (sy_run s) \<le> b_max_steps budget" "r_cost_usd (sy_run s) \<le> b_max_usd budget"
    by auto
  show "r_steps_used (sy_run s') = r_steps_used (sy_run s) + 1"
    using keepsD [OF drive_step_body_steps body] by (simp add: same_steps_def enter_step_def emit_def)
qed

function drive ::
  "env \<Rightarrow> 'd StoreOps \<Rightarrow> 'x engine \<Rightarrow> Workflow \<Rightarrow> Budget \<Rightarrow> string option \<Rightarrow> ('d, 'x, string option) eng" where
  "drive E S en flow budget None s = (Inr None, s)"
| "drive E S en flow budget (Some step_id) s =
     (case drive_step E S en flow budget step_id s of
        (Inl e, s') \<Rightarrow> (Inl e, s')
      | (Inr next_id, s') \<Rightarrow> drive E S en flow budget next_id s')"
  by pat_completeness auto
termination
  by (relation "measure (\<lambda>(E, S, en, flow, budget, sid, s). nat (b_max_steps budget + 1 - r_steps_used (sy_run s)))")
    (auto dest: drive_step_uses_step(1) [OF sym] drive_step_uses_step(2) [OF sym])

lemma drive_induct:
  assumes "\<And>s. P None s"
    and "\<And>i s. (\<And>next_id s'. drive_step E S en flow budget i s = (Inr next_id, s') \<Longrightarrow> P next_id s') \<Longrightarrow> P (Some i) s"
  shows "P sid s"
  using assms by (induction E S en flow budget sid s rule: drive.induct) auto

definition resume ::
  "env \<Rightarrow> 'd StoreOps \<Rightarrow> 'x engine \<Rightarrow> Workflow \<Rightarrow> ('d, 'x, Run) eng" where
  "resume E S en flow =
     bindc (gets sy_run) (\<lambda>run.
     if terminal (r_status run) then ret run
     else seqc (set_status RUNNING)
         (bindc (ret (case r_cursor_step run of None \<Rightarrow> wf_start flow | Some i \<Rightarrow> i)) (\<lambda>step_id.
          handle (seqc (drive E S en flow \<lparr>b_max_usd = wf_budget_usd flow, b_max_steps = wf_max_steps flow\<rparr> (Some step_id))
                 (seqc (metric ''runs.succeeded'' []) (gets sy_run)))
            (\<lambda>e. if is_a Paused e then seqc (metric ''runs.paused'' []) (gets sy_run) else throw e))))"

text \<open>A relation that also entering a step and advancing the cursor keep is kept by the whole
  run.\<close>

locale drive_frame = engine_frame +
  assumes enter_keeps: "keeps R (enter_step step)"
    and advance_keeps: "keeps R (advance next_id)"
begin

lemma drive_step_keeps: "keeps R (drive_step E S en flow budget i)"
  unfolding drive_step_def
  by (intro step_rules enter_keeps advance_keeps run_step_with_retry_keeps on_step_error_keeps fail_run_keeps)

lemma drive_keeps: "keeps R (drive E S en flow budget sid)"
proof (rule keepsI)
  fix s r s'
  assume "drive E S en flow budget sid s = (r, s')"
  then show "R s s'"
    by (induction sid s rule: drive_induct [of _ E S en flow budget])
      (auto split: prod.splits sum.splits dest: keepsD [OF drive_step_keeps] intro: frame_refl frame_trans)
qed

lemma resume_keeps: "keeps R (resume E S en flow)"
  unfolding resume_def by (intro step_rules drive_keeps)

end

section \<open>How a tool step unfolds\<close>

lemma resolve_args_apply [simp]: "resolve_args step s = (resolve (s_args step) (r_context (sy_run s)), s)"
  by (simp add: resolve_args_def)

lemma on_store_apply: "on_store m s = (case m (sy_store s) of (r, d) \<Rightarrow> (r, s\<lparr>sy_store := d\<rparr>))"
  by (simp add: on_store_def zoom_def)

lemma on_store_Inr: "on_store m s = (Inr x, s') \<longleftrightarrow> (\<exists>d. m (sy_store s) = (Inr x, d) \<and> s' = s\<lparr>sy_store := d\<rparr>)"
  by (auto simp: on_store_apply split: prod.splits)

lemma bindc_apply: "bindc m f s = (case m s of (Inl e, s') \<Rightarrow> (Inl e, s') | (Inr x, s') \<Rightarrow> f x s')"
  by (simp add: bindc_def)

text \<open>The state after the ledger was consulted for the step.\<close>

definition consult :: "'d StoreOps \<Rightarrow> Run \<Rightarrow> 'x Tool \<Rightarrow> string \<Rightarrow> ('d, 'x, pyval) eng" where
  "consult S run tool key =
     (if t_side_effect tool then on_store (op_get_effect S (r_tenant_id run) key) else ret PNone)"

lemma run_tool_cases:
  assumes "run_tool E S en step s = (r, s')"
  obtains (early) e where "s' = s" "r = Inl e"
  | (lookup) name tool e where "s_tool step = Some name" "tr_tools (sy_reg s) name = Some tool"
      "consult S (sy_run s) tool (effect_key (sy_run s) step name) s = (Inl e, s')" "r = Inl e"
  | (replay) name tool cached s1 where "s_tool step = Some name" "tr_tools (sy_reg s) name = Some tool"
      "consult S (sy_run s) tool (effect_key (sy_run s) step name) s = (Inr cached, s1)" "cached \<noteq> PNone"
      "replay_effect step name cached s1 = (r, s')"
  | (denied) name tool args s1 e where "s_tool step = Some name" "tr_tools (sy_reg s) name = Some tool"
      "resolve (s_args step) (r_context (sy_run s)) = Inr args"
      "consult S (sy_run s) tool (effect_key (sy_run s) step name) s = (Inr PNone, s1)"
      "tool_gate S en step name tool args s1 = (Inl e, s')" "r = Inl e"
  | (acted) name tool args s1 s2 where "s_tool step = Some name" "tr_tools (sy_reg s) name = Some tool"
      "resolve (s_args step) (r_context (sy_run s)) = Inr args"
      "consult S (sy_run s) tool (effect_key (sy_run s) step name) s = (Inr PNone, s1)"
      "tool_gate S en step name tool args s1 = (Inr (), s2)"
      "tool_act E S step name tool (effect_key (sy_run s) step name) args s2 = (r, s')"
proof (cases "s_tool step")
  case None
  with assms early show ?thesis by (auto simp: run_tool_def)
next
  case name: (Some name)
  show ?thesis
  proof (cases "tr_tools (sy_reg s) name")
    case None
    with assms early name show ?thesis by (auto simp: run_tool_def get_tool_def bindc_apply)
  next
    case tool: (Some tool)
    show ?thesis
    proof (cases "resolve (s_args step) (r_context (sy_run s))")
      case (Inl e)
      with assms early name tool show ?thesis by (auto simp: run_tool_def get_tool_def bindc_apply)
    next
      case args: (Inr args)
      obtain c s1 where c: "consult S (sy_run s) tool (effect_key (sy_run s) step name) s = (c, s1)"
        by fastforce
      have eq: "(case c of Inl e \<Rightarrow> (Inl e, s1) | Inr cached \<Rightarrow>
          if cached \<noteq> PNone then replay_effect step name cached s1
          else seqc (tool_gate S en step name tool args)
                 (tool_act E S step name tool (effect_key (sy_run s) step name) args) s1) = (r, s')"
        using assms name tool args c
        by (cases c) (auto simp: run_tool_def get_tool_def bindc_apply consult_def [symmetric] Let_def split: if_splits)
      show ?thesis
      proof (cases c)
        case (Inl e)
        with eq c lookup name tool show ?thesis by auto
      next
        case (Inr v)
        show ?thesis
        proof (cases "v = PNone")
          case False
          with eq c Inr replay name tool show ?thesis by auto
        next
          case True
          with eq c Inr name tool args denied acted show ?thesis
            by (cases "tool_gate S en step name tool args s1"; cases "fst (tool_gate S en step name tool args s1)")
              (auto simp: bindc_apply)
        qed
      qed
    qed
  qed
qed

end
