(* ===== verification/Sha256.thy ===== *)
theory Sha256
  imports PyNumbers "HOL-Library.Word"
begin

unbundle bit_operations_syntax

text \<open>
  \<open>hashlib.sha256\<close> and \<open>hmac.new(..., hashlib.sha256)\<close> of the standard library, on lists of
  bytes (FIPS 180-4, RFC 2104).
\<close>

type_synonym w32 = "32 word"
type_synonym byte = nat

definition rotr :: "nat \<Rightarrow> w32 \<Rightarrow> w32" where
  "rotr n x = (drop_bit n x) OR (push_bit (32 - n) x)"

definition sha_k :: "w32 list" where
  "sha_k =
    [1116352408, 1899447441, 3049323471, 3921009573, 961987163, 1508970993, 2453635748, 2870763221,
     3624381080, 310598401, 607225278, 1426881987, 1925078388, 2162078206, 2614888103, 3248222580,
     3835390401, 4022224774, 264347078, 604807628, 770255983, 1249150122, 1555081692, 1996064986,
     2554220882, 2821834349, 2952996808, 3210313671, 3336571891, 3584528711, 113926993, 338241895,
     666307205, 773529912, 1294757372, 1396182291, 1695183700, 1986661051, 2177026350, 2456956037,
     2730485921, 2820302411, 3259730800, 3345764771, 3516065817, 3600352804, 4094571909, 275423344,
     430227734, 506948616, 659060556, 883997877, 958139571, 1322822218, 1537002063, 1747873779,
     1955562222, 2024104815, 2227730452, 2361852424, 2428436474, 2756734187, 3204031479, 3329325298]"

definition sha_h0 :: "w32 list" where
  "sha_h0 = [1779033703, 3144134277, 1013904242, 2773480762, 1359893119, 2600822924, 528734635, 1541459225]"

definition word_of_bytes :: "byte list \<Rightarrow> w32" where
  "word_of_bytes bs = word_of_nat (foldl (\<lambda>a b. a * 256 + b) 0 bs)"

fun words_of :: "byte list \<Rightarrow> w32 list" where
  "words_of (a # b # c # d # bs) = word_of_bytes [a, b, c, d] # words_of bs"
| "words_of _ = []"

definition bytes_of_word :: "w32 \<Rightarrow> byte list" where
  "bytes_of_word x = (let n = unat x in [n div 16777216, n div 65536 mod 256, n div 256 mod 256, n mod 256])"

definition be64 :: "nat \<Rightarrow> byte list" where
  "be64 n = map (\<lambda>i. n div 256 ^ i mod 256) (rev [0..<8])"

definition sha_pad :: "byte list \<Rightarrow> byte list" where
  "sha_pad bs = bs @ [128] @ replicate ((119 - length bs mod 64) mod 64) 0 @ be64 (8 * length bs)"

text \<open>The message schedule, newest word first.\<close>

definition sched_next :: "w32 list \<Rightarrow> w32" where
  "sched_next ws =
     (let a = ws ! 14; b = ws ! 1;
          s0 = rotr 7 a XOR rotr 18 a XOR drop_bit 3 a;
          s1 = rotr 17 b XOR rotr 19 b XOR drop_bit 10 b
      in ws ! 15 + s0 + ws ! 6 + s1)"

fun extend_sched :: "nat \<Rightarrow> w32 list \<Rightarrow> w32 list" where
  "extend_sched 0 ws = ws"
| "extend_sched (Suc n) ws = extend_sched n (sched_next ws # ws)"

fun sha_round :: "w32 list \<Rightarrow> w32 \<times> w32 \<Rightarrow> w32 list" where
  "sha_round [a, b, c, d, e, f, g, h] (k, w) =
     (let s1 = rotr 6 e XOR rotr 11 e XOR rotr 25 e;
          ch = (e AND f) XOR (NOT e AND g);
          t1 = h + s1 + ch + k + w;
          s0 = rotr 2 a XOR rotr 13 a XOR rotr 22 a;
          maj = (a AND b) XOR (a AND c) XOR (b AND c)
      in [t1 + s0 + maj, a, b, c, d + t1, e, f, g])"
| "sha_round st _ = st"

definition sha_block :: "w32 list \<Rightarrow> w32 list \<Rightarrow> w32 list" where
  "sha_block hs block =
     map2 (+) hs (foldl sha_round hs (zip sha_k (rev (extend_sched 48 (rev block)))))"

fun sha_blocks :: "nat \<Rightarrow> w32 list \<Rightarrow> w32 list \<Rightarrow> w32 list" where
  "sha_blocks 0 ws hs = hs"
| "sha_blocks (Suc n) ws hs = sha_blocks n (drop 16 ws) (sha_block hs (take 16 ws))"

definition sha256 :: "byte list \<Rightarrow> byte list" where
  "sha256 bs =
     (let ws = words_of (sha_pad bs)
      in concat (map bytes_of_word (sha_blocks (length ws div 16) ws sha_h0)))"

definition hexdigest :: "byte list \<Rightarrow> string" where
  "hexdigest bs = concat (map (\<lambda>b. [hex_digit (b div 16), hex_digit (b mod 16)]) bs)"

definition bytes_of :: "string \<Rightarrow> byte list" where
  "bytes_of s = map of_char s"

definition hmac_sha256 :: "byte list \<Rightarrow> byte list \<Rightarrow> byte list" where
  "hmac_sha256 key msg =
     (let k = (if 64 < length key then sha256 key else key);
          k = k @ replicate (64 - length k) 0
      in sha256 (map (\<lambda>b. b XOR 92) k @ sha256 (map (\<lambda>b. b XOR 54) k @ msg)))"

lemma length_be64 [simp]: "length (be64 n) = 8"
  by (simp add: be64_def)

lemma sha_pad_block: "64 dvd length (sha_pad bs)"
proof -
  define r where "r = length bs mod 64"
  have len: "length bs = 64 * (length bs div 64) + r" and r: "r < 64"
    by (simp_all add: r_def)
  have "(119 - r) mod 64 = (if r \<le> 55 then 55 - r else 119 - r)"
    using r by (auto simp: mod_if)
  then have "length (sha_pad bs) = (if r \<le> 55 then 64 * (length bs div 64) + 64 else 64 * (length bs div 64) + 128)"
    using len r by (simp add: sha_pad_def r_def [symmetric]) linarith
  then show ?thesis by auto
qed

end
