(* ===== verification/Orchestrator.thy ===== *)
theory Orchestrator
  imports Workflow Json Sha256
begin

text \<open>
  \<open>orchestrator.py\<close> and \<open>runner.py\<close>: from a trigger to a run, and resuming a stored run.
\<close>

section \<open>Idempotency keys\<close>

fun first_truthy :: "string list \<Rightarrow> pydict \<Rightarrow> pyval option" where
  "first_truthy [] ev = None"
| "first_truthy (k # ks) ev =
     (let v = dget ev k PNone in if truthy v then Some v else first_truthy ks ev)"

definition canonical :: "env \<Rightarrow> pydict \<Rightarrow> string" where
  "canonical E ev = json_dumps (float_str E) '','' '':'' True (PDict ev)"

definition derive_idempotency_key :: "env \<Rightarrow> pydict \<Rightarrow> string" where
  "derive_idempotency_key E ev =
     (case first_truthy [''idempotency_key'', ''message_id'', ''delivery_id'', ''id''] ev of
        Some v \<Rightarrow> py_str (float_str E) v
      | None \<Rightarrow> ''sha256:'' @ take 24 (hexdigest (sha256 (bytes_of (canonical E ev)))))"

section \<open>Orchestrator\<close>

text \<open>A new process over a store: a fresh engine with an empty buffer.  \<open>sy_run\<close> is set
  before it is first read.\<close>

definition fresh_sys :: "'d \<Rightarrow> 'x ToolRegistry \<Rightarrow> 'x world \<Rightarrow> Metrics \<Rightarrow> nat \<Rightarrow> ('d, 'x) sys" where
  "fresh_sys d reg w m ids =
     \<lparr>sy_store = d, sy_reg = reg, sy_world = w, sy_metrics = m, sy_buffer = [],
      sy_run = mk_run [] [] 0 [] [] None [], sy_workflows = Map.empty, sy_ids = ids\<rparr>"

definition orchestrator_init :: "'d StoreOps \<Rightarrow> Tenant \<Rightarrow> ('d, 'x, unit) eng" where
  "orchestrator_init S tenant = on_store (op_ensure_tenant S (tn_id tenant) (tn_name tenant) (tn_settings tenant))"

definition register_workflow :: "Workflow \<Rightarrow> ('d, 'x, unit) eng" where
  "register_workflow flow = modify (\<lambda>s. s\<lparr>sy_workflows := (sy_workflows s)(wf_id flow \<mapsto> flow)\<rparr>)"

definition set_run :: "Run \<Rightarrow> ('d, 'x, unit) eng" where
  "set_run run = modify (\<lambda>s. s\<lparr>sy_run := run\<rparr>)"

text \<open>\<open>Run(...)\<close> for a trigger, with a fresh id.\<close>

definition trigger_run :: "env \<Rightarrow> nat \<Rightarrow> string \<Rightarrow> Workflow \<Rightarrow> pydict \<Rightarrow> Run" where
  "trigger_run E n tenant flow trig =
     mk_run tenant (wf_id flow) (wf_version flow) trig (derive_idempotency_key E trig)
       (Some (wf_start flow)) (new_id E n ''run'')"

definition new_run :: "env \<Rightarrow> string \<Rightarrow> Workflow \<Rightarrow> pydict \<Rightarrow> ('d, 'x, Run) eng" where
  "new_run E tenant flow trig = (\<lambda>s.
     (Inr (trigger_run E (sy_ids s) tenant flow trig), s\<lparr>sy_ids := sy_ids s + 1\<rparr>))"

definition fire :: "env \<Rightarrow> 'd StoreOps \<Rightarrow> 'x engine \<Rightarrow> Tenant \<Rightarrow> Workflow \<Rightarrow> pydict \<Rightarrow> ('d, 'x, Run) eng" where
  "fire E S en tenant flow trig =
     seqc (register_workflow flow)
    (bindc (new_run E (tn_id tenant) flow trig) (\<lambda>run0.
     bindc (on_store (op_create_or_get_run S run0)) (\<lambda>(run, created).
     seqc (set_run run)
    (if \<not> created then seqc (metric ''triggers.deduplicated'' []) (ret run)
     else seqc (emit ''trigger_fired'' [(''workflow'', PStr (wf_name flow)), (''event'', PDict trig)] None 0 ''system'')
         (seqc (metric ''triggers.accepted'' []) (resume E S en flow))))))"

definition resume_run :: "env \<Rightarrow> 'd StoreOps \<Rightarrow> 'x engine \<Rightarrow> Tenant \<Rightarrow> string \<Rightarrow> Workflow \<Rightarrow> ('d, 'x, Run) eng" where
  "resume_run E S en tenant rid flow =
     bindc (on_store (op_load_run S (tn_id tenant) rid)) (\<lambda>loaded.
     case loaded of
       None \<Rightarrow> throw (Exn KeyError (repr_str rid))
     | Some run \<Rightarrow>
         if terminal (r_status run) then ret run
         else seqc (set_run run) (resume E S en flow))"

definition trace :: "'d StoreOps \<Rightarrow> Tenant \<Rightarrow> string \<Rightarrow> ('d, 'x, Event list) eng" where
  "trace S tenant rid = on_store (op_list_events S (tn_id tenant) rid)"

section \<open>System runner\<close>

text \<open>\<open>SystemRunner.resume\<close>: a fresh engine (its own metrics, an empty buffer, asynchronous
  approvals), the workflow looked up by the run's workflow id.\<close>

definition runner_resume ::
  "env \<Rightarrow> 'd StoreOps \<Rightarrow> 'x engine \<Rightarrow> (string \<rightharpoonup> Workflow) \<Rightarrow> string \<Rightarrow> string \<Rightarrow> ('d, 'x, Run) eng" where
  "runner_resume E S en flows tenant rid =
     bindc (on_store (op_load_run S tenant rid)) (\<lambda>loaded.
     case loaded of
       None \<Rightarrow> throw (Exn KeyError (repr_str rid))
     | Some run \<Rightarrow>
         (case flows (r_workflow_id run) of
            None \<Rightarrow> throw (Exn KeyError (repr_str (r_workflow_id run)))
          | Some flow \<Rightarrow>
              seqc (modify (\<lambda>s. s\<lparr>sy_buffer := [], sy_metrics := new_metrics\<rparr>))
             (seqc (set_run run) (resume E S (en\<lparr>en_approval_fn := None\<rparr>) flow))))"

section \<open>Frames of the entry points\<close>

locale orch_frame = drive_frame +
  assumes register_keeps: "keeps R (register_workflow flow)"
    and set_run_keeps: "keeps R (set_run run)"
    and new_run_keeps: "keeps R (new_run E tenant flow trig)"
    and create_keeps: "keeps R (on_store (op_create_or_get_run S run))"
    and load_keeps: "keeps R (on_store (op_load_run S tenant rid))"
begin

lemma fire_keeps: "keeps R (fire E S en tenant flow trig)"
  unfolding fire_def
  by (intro step_rules register_keeps new_run_keeps create_keeps set_run_keeps resume_keeps)

lemma resume_run_keeps: "keeps R (resume_run E S en tenant rid flow)"
  unfolding resume_run_def by (intro step_rules load_keeps set_run_keeps resume_keeps)

end

section \<open>How the entry points unfold\<close>

lemma trigger_run_sel [simp]:
  "r_tenant_id (trigger_run E n tenant flow trig) = tenant"
  "r_idempotency_key (trigger_run E n tenant flow trig) = derive_idempotency_key E trig"
  "r_id (trigger_run E n tenant flow trig) = new_id E n ''run''"
  "r_status (trigger_run E n tenant flow trig) = PENDING"
  by (simp_all add: trigger_run_def mk_run_def)

lemma seq_new_run:
  "bindc (new_run E tenant flow trig) f s = f (trigger_run E (sy_ids s) tenant flow trig) (s\<lparr>sy_ids := sy_ids s + 1\<rparr>)"
  by (simp add: new_run_def bindc_def)

lemma fire_cases:
  assumes "fire E S en tenant flow trig s = (r, s')"
  obtains (failed) e d where
      "op_create_or_get_run S (trigger_run E (sy_ids s) (tn_id tenant) flow trig) (sy_store s) = (Inl e, d)"
      "r = Inl e" "sy_store s' = d" "sy_world s' = sy_world s"
  | (duplicate) run d where
      "op_create_or_get_run S (trigger_run E (sy_ids s) (tn_id tenant) flow trig) (sy_store s) = (Inr (run, False), d)"
      "r = Inr run" "sy_store s' = d" "sy_world s' = sy_world s" "sy_buffer s' = sy_buffer s"
  | (started) run d s1 where
      "op_create_or_get_run S (trigger_run E (sy_ids s) (tn_id tenant) flow trig) (sy_store s) = (Inr (run, True), d)"
      "resume E S en flow s1 = (r, s')" "sy_run s1 = run" "sy_store s1 = d" "sy_world s1 = sy_world s" "sy_reg s1 = sy_reg s"
proof -
  let ?run0 = "trigger_run E (sy_ids s) (tn_id tenant) flow trig"
  let ?s0 = "s\<lparr>sy_workflows := (sy_workflows s)(wf_id flow \<mapsto> flow), sy_ids := sy_ids s + 1\<rparr>"
  obtain rc d where c: "op_create_or_get_run S ?run0 (sy_store s) = (rc, d)" by fastforce
  let ?rest = "\<lambda>(run, created). seqc (set_run run)
      (if \<not> created then seqc (metric ''triggers.deduplicated'' []) (ret run)
       else seqc (emit ''trigger_fired'' [(''workflow'', PStr (wf_name flow)), (''event'', PDict trig)] None 0 ''system'')
           (seqc (metric ''triggers.accepted'' []) (resume E S en flow)))"
  have run: "bindc (on_store (op_create_or_get_run S ?run0)) ?rest ?s0 = (r, s')"
    using assms by (simp add: fire_def register_workflow_def seq_new_run)
  show ?thesis
  proof (cases rc)
    case (Inl e)
    with run c failed show ?thesis by (auto simp: bindc_apply on_store_apply)
  next
    case (Inr p)
    obtain run created where p: "p = (run, created)" by (cases p)
    show ?thesis
    proof (cases created)
      case False
      with run c Inr p duplicate [of run d] show ?thesis
        by (auto simp: bindc_apply on_store_apply set_run_def metric_def)
    next
      case True
      let ?s1 = "?s0\<lparr>sy_store := d, sy_run := run, sy_buffer := sy_buffer s @
        [\<lparr>ev_run_id = r_id run, ev_tenant_id = r_tenant_id run, ev_type = ''trigger_fired'',
          ev_payload = [(''workflow'', PStr (wf_name flow)), (''event'', PDict trig)], ev_step_id = None,
          ev_actor = ''system'', ev_cost_usd = 0, ev_seq = 0\<rparr>],
        sy_metrics := incr ''triggers.accepted'' 1 [] (sy_metrics s)\<rparr>"
      have "resume E S en flow ?s1 = (r, s')"
        using run c Inr p True
        by (simp add: bindc_def [of "on_store _"] on_store_apply set_run_def seq_emit seq_metric)
      with started [of run d ?s1] c Inr p True show ?thesis by simp
    qed
  qed
qed

lemma resume_run_cases:
  assumes "resume_run E S en tenant rid flow s = (r, s')"
  obtains (unloaded) d e where "op_load_run S (tn_id tenant) rid (sy_store s) = (Inl e, d)" "s' = s\<lparr>sy_store := d\<rparr>" "r = Inl e"
  | (missing) d where "op_load_run S (tn_id tenant) rid (sy_store s) = (Inr None, d)" "s' = s\<lparr>sy_store := d\<rparr>"
      "r = Inl (Exn KeyError (repr_str rid))"
  | (ended) d run where "op_load_run S (tn_id tenant) rid (sy_store s) = (Inr (Some run), d)" "terminal (r_status run)"
      "s' = s\<lparr>sy_store := d\<rparr>" "r = Inr run"
  | (driven) d run where "op_load_run S (tn_id tenant) rid (sy_store s) = (Inr (Some run), d)" "\<not> terminal (r_status run)"
      "resume E S en flow (s\<lparr>sy_store := d, sy_run := run\<rparr>) = (r, s')"
proof -
  obtain rl d where l: "op_load_run S (tn_id tenant) rid (sy_store s) = (rl, d)" by fastforce
  consider e where "rl = Inl e" | "rl = Inr None" | run where "rl = Inr (Some run)"
    by (cases rl; cases "projr rl") auto
  then show ?thesis
    using assms l unloaded missing ended driven
    by cases (auto simp: resume_run_def bindc_apply on_store_apply set_run_def split: if_splits)
qed

end
