(* ===== verification/Scope.thy ===== *)
theory Scope
  imports Orchestrator
begin

text \<open>
  What the engine does to the store while it drives one run.

  Every store operation the engine makes names the tenant and the id of the run it drives.
  The locale \<open>run_scope\<close> is the interface for properties of that kind: a relation \<open>Q\<close>
  between store states, for a tenant and a run id, that each of those operations satisfies,
  is satisfied by driving the run.
\<close>

definition scope_rel :: "(string \<Rightarrow> string \<Rightarrow> 'd \<Rightarrow> 'd \<Rightarrow> bool) \<Rightarrow> string \<Rightarrow> string \<Rightarrow> ('d, 'x) sys \<Rightarrow> ('d, 'x) sys \<Rightarrow> bool" where
  "scope_rel Q t i s s' \<longleftrightarrow> (r_tenant_id (sy_run s) = t \<and> r_id (sy_run s) = i \<longrightarrow>
     r_tenant_id (sy_run s') = t \<and> r_id (sy_run s') = i \<and> Q t i (sy_store s) (sy_store s'))"

locale run_scope =
  fixes S :: "'d StoreOps" and Q :: "string \<Rightarrow> string \<Rightarrow> 'd \<Rightarrow> 'd \<Rightarrow> bool"
  assumes Q_refl: "Q t i d d"
    and Q_trans: "Q t i a b \<Longrightarrow> Q t i b c \<Longrightarrow> Q t i a c"
    and Q_get_effect: "op_get_effect S t key d = (rg, d') \<Longrightarrow> Q t i d d'"
    and Q_record_effect: "op_record_effect S t key i osid tool v d = (ru, d') \<Longrightarrow> Q t i d d'"
    and Q_create_approval: "op_create_approval S t i sid approvers d = (ra, d') \<Longrightarrow> Q t i d d'"
    and Q_resolve_approval: "op_resolve_approval S t aid ok by_whom nt d = (ru, d') \<Longrightarrow> Q t i d d'"
    and Q_latest_approval: "op_latest_approval S t i sid d = (rl, d') \<Longrightarrow> Q t i d d'"
    and Q_checkpoint: "op_checkpoint S run evs d = (ru, d') \<Longrightarrow> Q (r_tenant_id run) (r_id run) d d'"
begin

lemma scope_frame: "frame (scope_rel Q t i)"
  by unfold_locales (auto simp: scope_rel_def intro: Q_refl Q_trans)

lemmas scope_keeps_rules = frame.keeps_rules [OF scope_frame]

lemma scope_gets:
  assumes "\<And>s. r_tenant_id (sy_run s) = t \<Longrightarrow> r_id (sy_run s) = i \<Longrightarrow> keeps (scope_rel Q t i) (f (g s))"
  shows "keeps (scope_rel Q t i) (bindc (gets g) f)"
proof (rule keepsI)
  fix s r s'
  assume "bindc (gets g) f s = (r, s')"
  then show "scope_rel Q t i s s'"
  proof (cases "r_tenant_id (sy_run s) = t \<and> r_id (sy_run s) = i")
    case True
    with assms [of s] \<open>bindc (gets g) f s = (r, s')\<close> show ?thesis by (simp add: keepsD)
  qed (auto simp: scope_rel_def)
qed

lemma scope_outside: "keeps (scope_rel Q t i) (outside f)"
  by (rule outside_keeps) (simp add: scope_rel_def Q_refl)

lemma scope_exec_tool: "keeps (scope_rel Q t i) (exec_tool E name args)"
  by (rule exec_tool_keeps) (simp add: scope_rel_def Q_refl)

lemma scope_on_store: "(\<And>d r d'. m d = (r, d') \<Longrightarrow> Q t i d d') \<Longrightarrow> keeps (scope_rel Q t i) (on_store m)"
  by (rule on_store_keeps) (simp add: scope_rel_def)

lemma scope_prim:
  "keeps (scope_rel Q t i) (emit ty p sid c a)" "keeps (scope_rel Q t i) (metric nm l)"
  "keeps (scope_rel Q t i) (set_status st)" "keeps (scope_rel Q t i) (add_cost c)"
  "keeps (scope_rel Q t i) (set_context k v)" "keeps (scope_rel Q t i) (enter_step step)"
  "keeps (scope_rel Q t i) (advance n)" "keeps (scope_rel Q t i) (field k' v')"
  "keeps (scope_rel Q t i) (use_tool name)" "keeps (scope_rel Q t i) (resolve_args step)"
  "keeps (scope_rel Q t i) (modify (\<lambda>s. s\<lparr>sy_buffer := []\<rparr>))"
  unfolding eng_prims enter_step_def advance_def keeps_def
  by (auto simp: scope_rel_def Q_refl bindc_apply split: option.splits sum.splits)

lemma scope_ops:
  assumes "r_tenant_id run = t" and "r_id run = i"
  shows "keeps (scope_rel Q t i) (on_store (op_get_effect S (r_tenant_id run) key))"
    "keeps (scope_rel Q t i) (on_store (op_record_effect S (r_tenant_id run) key (r_id run) osid tool v))"
    "keeps (scope_rel Q t i) (on_store (op_create_approval S (r_tenant_id run) (r_id run) sid approvers))"
    "keeps (scope_rel Q t i) (on_store (op_resolve_approval S (r_tenant_id run) aid ok by_whom nt))"
    "keeps (scope_rel Q t i) (on_store (op_latest_approval S (r_tenant_id run) (r_id run) sid))"
    "keeps (scope_rel Q t i) (on_store (op_checkpoint S run evs))"
  using assms
  by (auto intro!: scope_on_store dest: Q_get_effect Q_record_effect Q_create_approval Q_resolve_approval
      Q_latest_approval Q_checkpoint)

lemmas scope_rules = scope_gets scope_keeps_rules scope_prim scope_outside scope_exec_tool scope_ops

lemma scope_engine_checkpoint: "keeps (scope_rel Q t i) (engine_checkpoint S)"
  unfolding engine_checkpoint_def by (intro scope_rules; simp)

lemma scope_await: "keeps (scope_rel Q t i) (await_approval S en step approvers name args)"
  unfolding await_approval_def approve_sync_def approve_async_def request_approval_def
  by (intro scope_rules scope_engine_checkpoint; assumption)

lemma scope_run_tool: "keeps (scope_rel Q t i) (run_tool E S en step)"
  unfolding run_tool_def tool_gate_def tool_act_def replay_effect_def
  by (intro scope_rules scope_await; assumption)

lemma scope_exec_call: "keeps (scope_rel Q t i) (exec_call E en agent call)"
  unfolding exec_call_def gated_call_def by (intro scope_rules)

lemma scope_drive: "drive_frame (scope_rel Q t i) E S en"
proof (unfold_locales, goal_cases)
  case 1
  show ?case by (rule frame.frame_refl [OF scope_frame])
next
  case 2
  then show ?case by (rule frame.frame_trans [OF scope_frame])
qed (rule scope_prim scope_outside scope_engine_checkpoint scope_await scope_exec_call scope_run_tool)+

lemma resume_scope:
  "resume E S en flow s = (r, s') \<Longrightarrow>
     r_tenant_id (sy_run s') = r_tenant_id (sy_run s) \<and> r_id (sy_run s') = r_id (sy_run s) \<and>
     Q (r_tenant_id (sy_run s)) (r_id (sy_run s)) (sy_store s) (sy_store s')"
  using keepsD [OF drive_frame.resume_keeps [OF scope_drive]] by (fastforce simp: scope_rel_def)

end

end
