(* ===== verification/SQLiteStore.thy ===== *)
theory SQLiteStore
  imports StoreContract
begin

text \<open>
  \<open>SQLiteStore\<close> of \<open>store.py\<close>, method by method.

  The state is the database, the value of SQLite's \<open>AUTOINCREMENT\<close> counter for
  \<open>events.seq\<close> (part of the database, so a rollback restores it), and how often
  \<open>time.time()\<close> and \<open>uuid4\<close> were called.  \<open>transaction\<close> is \<open>with self._conn\<close>:
  commit on success, roll back on any exception.  The lock makes each method atomic.
\<close>

record SQLiteStore =
  sq_db :: tables
  sq_seq :: int
  sq_clk :: nat
  sq_ids :: nat

type_synonym 'a sq = "(exn, SQLiteStore, 'a) comp"

definition new_sqlite :: SQLiteStore where
  "new_sqlite = \<lparr>sq_db = empty_tables, sq_seq = 0, sq_clk = 0, sq_ids = 0\<rparr>"

definition transaction :: "'a sq \<Rightarrow> 'a sq" where
  "transaction m = (\<lambda>s. case m s of
      (Inl e, s') \<Rightarrow> (Inl e, s'\<lparr>sq_db := sq_db s, sq_seq := sq_seq s\<rparr>)
    | (Inr x, s') \<Rightarrow> (Inr x, s'))"

definition time_now :: "env \<Rightarrow> rat sq" where
  "time_now E = (\<lambda>s. (Inr (wall E (sq_clk s)), s\<lparr>sq_clk := sq_clk s + 1\<rparr>))"

definition fresh_id :: "env \<Rightarrow> string \<Rightarrow> string sq" where
  "fresh_id E pre = (\<lambda>s. (Inr (new_id E (sq_ids s) pre), s\<lparr>sq_ids := sq_ids s + 1\<rparr>))"

definition run_sql :: "(tables \<Rightarrow> tables) \<Rightarrow> unit sq" where
  "run_sql f = modify (\<lambda>s. s\<lparr>sq_db := f (sq_db s)\<rparr>)"

definition query :: "(tables \<Rightarrow> 'a) \<Rightarrow> 'a sq" where
  "query f = gets (\<lambda>s. f (sq_db s))"

section \<open>Helpers\<close>

definition assert_owns :: "string \<Rightarrow> string \<Rightarrow> unit sq" where
  "assert_owns tenant i = bindc (query (run_row i)) (\<lambda>row. case row of
      None \<Rightarrow> ret ()
    | Some row \<Rightarrow>
        if r_tenant_id (row_run row) \<noteq> tenant
        then throw (Exn TenantIsolationError (''run '' @ i @ '' belongs to a different tenant''))
        else ret ())"

definition row_to_run :: "RunRow \<Rightarrow> string \<Rightarrow> exn + Run" where
  "row_to_run row tenant =
     (if r_tenant_id (row_run row) \<noteq> tenant
      then Inl (Exn TenantIsolationError ''run belongs to a different tenant'')
      else Inr (row_run row))"

section \<open>Tenants and runs\<close>

definition ensure_tenant :: "env \<Rightarrow> string \<Rightarrow> string \<Rightarrow> pydict \<Rightarrow> unit sq" where
  "ensure_tenant E tenant nm settings =
     transaction (bindc (time_now E) (\<lambda>t. run_sql (upsert_tenant tenant nm settings t)))"

text \<open>\<open>INSERT OR IGNORE\<close>: a conflict with the primary key or the unique key inserts nothing.\<close>

definition run_conflict :: "Run \<Rightarrow> tables \<Rightarrow> bool" where
  "run_conflict run tb \<longleftrightarrow>
     run_row (r_id run) tb \<noteq> None \<or> run_by_key (r_tenant_id run) (r_idempotency_key run) tb \<noteq> None"

definition load_run_by_key :: "string \<Rightarrow> string \<Rightarrow> Run option sq" where
  "load_run_by_key tenant key = bindc (query (run_by_key tenant key)) (\<lambda>row. case row of
      None \<Rightarrow> ret None
    | Some row \<Rightarrow> bindc (liftE (row_to_run row tenant)) (\<lambda>r. ret (Some r)))"

definition create_or_get_run :: "env \<Rightarrow> Run \<Rightarrow> (Run \<times> bool) sq" where
  "create_or_get_run E run =
     bindc (time_now E) (\<lambda>t.
     bindc (transaction (bindc (query (run_conflict run)) (\<lambda>conflict.
              if conflict then ret False else seqc (run_sql (insert_run run t)) (ret True)))) (\<lambda>created.
     if created then ret (run, True)
     else bindc (load_run_by_key (r_tenant_id run) (r_idempotency_key run)) (\<lambda>existing.
            case existing of
              None \<Rightarrow> throw (Exn AssertionError [])
            | Some r \<Rightarrow> ret (r, False))))"

definition load_run :: "string \<Rightarrow> string \<Rightarrow> Run option sq" where
  "load_run tenant i = bindc (query (run_row i)) (\<lambda>row. case row of
      None \<Rightarrow> ret None
    | Some row \<Rightarrow> bindc (liftE (row_to_run row tenant)) (\<lambda>r. ret (Some r)))"

text \<open>A negative \<open>LIMIT\<close> means no limit in SQLite.\<close>

definition list_runs :: "string \<Rightarrow> int \<Rightarrow> string option \<Rightarrow> Run list sq" where
  "list_runs tenant limit status =
     bindc (query (runs_of tenant status)) (\<lambda>rows.
       mapc (\<lambda>row. liftE (row_to_run row tenant))
         (if limit < 0 then rows else take (nat limit) rows))"

section \<open>Checkpoints and the event log\<close>

definition insert_event_row :: "env \<Rightarrow> Event \<Rightarrow> unit sq" where
  "insert_event_row E ev =
     bindc (time_now E) (\<lambda>t. modify (\<lambda>s. s\<lparr>sq_db := insert_event ev (sq_seq s + 1) t (sq_db s),
                                             sq_seq := sq_seq s + 1\<rparr>))"

fun insert_events :: "env \<Rightarrow> string \<Rightarrow> Event list \<Rightarrow> unit sq" where
  "insert_events E tenant [] = ret ()"
| "insert_events E tenant (ev # evs) =
     (if ev_tenant_id ev \<noteq> tenant
      then throw (Exn TenantIsolationError ''event tenant does not match run tenant'')
      else seqc (insert_event_row E (ev\<lparr>ev_payload := redact_dict (ev_payload ev)\<rparr>))
                (insert_events E tenant evs))"

definition checkpoint :: "env \<Rightarrow> Run \<Rightarrow> Event list \<Rightarrow> unit sq" where
  "checkpoint E run events =
     transaction (
       seqc (assert_owns (r_tenant_id run) (r_id run))
      (seqc (bindc (time_now E) (\<lambda>t. run_sql (update_run run t)))
            (insert_events E (r_tenant_id run) events)))"

definition list_events :: "string \<Rightarrow> string \<Rightarrow> Event list sq" where
  "list_events tenant i = seqc (assert_owns tenant i) (query (events_of tenant i))"

definition cancel_run :: "env \<Rightarrow> string \<Rightarrow> string \<Rightarrow> bool sq" where
  "cancel_run E tenant i =
     transaction (
       bindc (query (run_row i)) (\<lambda>row.
       case row of
         None \<Rightarrow> seqc (assert_owns tenant i) (ret False)
       | Some row \<Rightarrow>
           if r_tenant_id (row_run row) \<noteq> tenant then seqc (assert_owns tenant i) (ret False)
           else if terminal (r_status (row_run row)) then ret False
           else seqc (bindc (time_now E) (\<lambda>t. run_sql (update_status tenant i CANCELED t)))
               (seqc (insert_event_row E
                       \<lparr>ev_run_id = i, ev_tenant_id = tenant, ev_type = ''run_canceled'', ev_payload = [],
                        ev_step_id = None, ev_actor = ''user'', ev_cost_usd = 0, ev_seq = 0\<rparr>)
                     (ret True))))"

section \<open>Side-effect ledger\<close>

definition get_effect :: "string \<Rightarrow> string \<Rightarrow> pyval sq" where
  "get_effect tenant key = bindc (query (effect_row key)) (\<lambda>row. case row of
      None \<Rightarrow> ret PNone
    | Some row \<Rightarrow>
        if fx_tenant_id row \<noteq> tenant
        then throw (Exn TenantIsolationError ''effect belongs to a different tenant'')
        else ret (fx_result row))"

definition record_effect ::
  "env \<Rightarrow> string \<Rightarrow> string \<Rightarrow> string \<Rightarrow> string option \<Rightarrow> string \<Rightarrow> pyval \<Rightarrow> unit sq" where
  "record_effect E tenant key rid sid tool result =
     transaction (bindc (time_now E) (\<lambda>t.
       run_sql (\<lambda>tb. if effect_row key tb \<noteq> None then tb
         else insert_effect \<lparr>fx_key = key, fx_run_id = rid, fx_tenant_id = tenant, fx_step_id = sid,
                             fx_tool = tool, fx_result = result, fx_created_at = t\<rparr> tb)))"

section \<open>Approvals and retention\<close>

definition create_approval :: "env \<Rightarrow> string \<Rightarrow> string \<Rightarrow> string \<Rightarrow> string list \<Rightarrow> string sq" where
  "create_approval E tenant rid sid approvers =
     bindc (fresh_id E ''appr'') (\<lambda>aid.
     seqc (transaction (
       seqc (assert_owns tenant rid)
         (bindc (time_now E) (\<lambda>t.
          bindc (query (approval_row aid)) (\<lambda>dup.
            if dup \<noteq> None then throw (Exn IntegrityError ''UNIQUE constraint failed: approvals.id'')
            else run_sql (insert_approval
              \<lparr>ap_id = aid, ap_run_id = rid, ap_tenant_id = tenant, ap_step_id = sid,
               ap_status = AP_PENDING, ap_approvers = approvers, ap_decided_by = None, ap_note = None,
               ap_requested_at = t, ap_decided_at = None\<rparr>))))))
     (ret aid))"

definition resolve_approval :: "env \<Rightarrow> string \<Rightarrow> string \<Rightarrow> bool \<Rightarrow> string \<Rightarrow> string \<Rightarrow> unit sq" where
  "resolve_approval E tenant aid approved decided_by note =
     transaction (
       bindc (query (approval_row aid)) (\<lambda>row.
       case row of
         None \<Rightarrow> throw (Exn KeyError (repr_str aid))
       | Some row \<Rightarrow>
           if ap_tenant_id row \<noteq> tenant
           then throw (Exn TenantIsolationError ''approval belongs to a different tenant'')
           else bindc (time_now E) (\<lambda>t. run_sql (decide_approval aid
                  (if approved then AP_APPROVED else AP_REJECTED) decided_by note t))))"

definition purge_event_payloads :: "string \<Rightarrow> rat \<Rightarrow> int sq" where
  "purge_event_payloads tenant before_ts =
     transaction (
       bindc (query (\<lambda>tb. int (length (filter (purgeable tenant before_ts) (tb_events tb))))) (\<lambda>n.
       seqc (run_sql (purge_payloads tenant before_ts)) (ret n)))"

text \<open>\<open>ORDER BY requested_at DESC, rowid DESC LIMIT 1\<close>: the latest request, and of those
  with the same timestamp the last inserted.\<close>

definition later :: "ApprovalRow option \<Rightarrow> ApprovalRow \<Rightarrow> ApprovalRow option" where
  "later best row = (case best of
      None \<Rightarrow> Some row
    | Some b \<Rightarrow> if ap_requested_at b \<le> ap_requested_at row then Some row else best)"

definition latest_row :: "string \<Rightarrow> string \<Rightarrow> string \<Rightarrow> tables \<Rightarrow> ApprovalRow option" where
  "latest_row tenant rid sid tb =
     foldl later None (filter (\<lambda>row. ap_run_id row = rid \<and> ap_tenant_id row = tenant \<and> ap_step_id row = sid)
       (tb_approvals tb))"

definition latest_approval :: "string \<Rightarrow> string \<Rightarrow> string \<Rightarrow> (string \<times> ApprovalStatus) option sq" where
  "latest_approval tenant rid sid =
     query (\<lambda>tb. map_option (\<lambda>row. (ap_id row, ap_status row)) (latest_row tenant rid sid tb))"

definition sqlite_ops :: "env \<Rightarrow> SQLiteStore StoreOps" where
  "sqlite_ops E =
     \<lparr>op_ensure_tenant = ensure_tenant E,
      op_create_or_get_run = create_or_get_run E,
      op_load_run = load_run,
      op_list_runs = list_runs,
      op_checkpoint = checkpoint E,
      op_list_events = list_events,
      op_get_effect = get_effect,
      op_record_effect = record_effect E,
      op_create_approval = create_approval E,
      op_resolve_approval = resolve_approval E,
      op_latest_approval = latest_approval,
      op_cancel_run = cancel_run E,
      op_purge_event_payloads = purge_event_payloads\<rparr>"


lemma sqlite_ops_simps [simp]:
  "op_ensure_tenant (sqlite_ops E) = ensure_tenant E"
  "op_create_or_get_run (sqlite_ops E) = create_or_get_run E"
  "op_load_run (sqlite_ops E) = load_run"
  "op_list_runs (sqlite_ops E) = list_runs"
  "op_checkpoint (sqlite_ops E) = checkpoint E"
  "op_list_events (sqlite_ops E) = list_events"
  "op_get_effect (sqlite_ops E) = get_effect"
  "op_record_effect (sqlite_ops E) = record_effect E"
  "op_create_approval (sqlite_ops E) = create_approval E"
  "op_resolve_approval (sqlite_ops E) = resolve_approval E"
  "op_latest_approval (sqlite_ops E) = latest_approval"
  "op_cancel_run (sqlite_ops E) = cancel_run E"
  "op_purge_event_payloads (sqlite_ops E) = purge_event_payloads"
  by (simp_all add: sqlite_ops_def)

section \<open>The store keeps the contract\<close>

named_theorems sq_defs \<open>definitions of the store's primitives\<close>

lemmas [sq_defs] = comp_defs transaction_def time_now_def fresh_id_def run_sql_def query_def

lemma assert_owns_eq:
  "assert_owns tenant i s =
     ((if owns tenant i (sq_db s) then Inr ()
       else Inl (Exn TenantIsolationError (''run '' @ i @ '' belongs to a different tenant''))), s)"
  by (auto simp: assert_owns_def sq_defs owns_def split: option.splits)

text \<open>The rows a list of events is stored as, from a sequence counter and a clock.\<close>

fun stamped :: "env \<Rightarrow> int \<Rightarrow> nat \<Rightarrow> Event list \<Rightarrow> EventRow list" where
  "stamped E n c [] = []"
| "stamped E n c (ev # evs) =
     \<lparr>er_event = ev\<lparr>ev_payload := redact_dict (ev_payload ev), ev_seq := n + 1\<rparr>, er_created_at = wall E c\<rparr>
       # stamped E (n + 1) (c + 1) evs"

lemma logs_stamped: "logs evs (stamped E n c evs)"
  by (induction evs arbitrary: n c) (auto simp: logs_def)

lemma insert_events_ok:
  "\<forall>ev\<in>set evs. ev_tenant_id ev = tenant \<Longrightarrow>
     insert_events E tenant evs s =
       (Inr (), s\<lparr>sq_db := log_events (stamped E (sq_seq s) (sq_clk s) evs) (sq_db s),
                  sq_seq := sq_seq s + int (length evs), sq_clk := sq_clk s + length evs\<rparr>)"
  by (induction evs arbitrary: s)
    (auto simp: insert_event_row_def insert_event_def log_events_def sq_defs)

lemma insert_events_bad:
  "\<exists>ev\<in>set evs. ev_tenant_id ev \<noteq> tenant \<Longrightarrow>
     \<exists>s'. insert_events E tenant evs s =
       (Inl (Exn TenantIsolationError ''event tenant does not match run tenant''), s')"
  by (induction evs arbitrary: s) (auto simp: bindc_def insert_event_row_def sq_defs)

lemma checkpoint_ok:
  assumes "owns (r_tenant_id run) (r_id run) (sq_db s)" and "\<forall>ev\<in>set evs. ev_tenant_id ev = r_tenant_id run"
  shows "checkpoint E run evs s =
    (Inr (), s\<lparr>sq_db := log_events (stamped E (sq_seq s) (sq_clk s + 1) evs)
                         (update_run run (wall E (sq_clk s)) (sq_db s)),
               sq_seq := sq_seq s + int (length evs), sq_clk := sq_clk s + 1 + length evs\<rparr>)"
  using assms by (simp add: checkpoint_def assert_owns_eq insert_events_ok sq_defs)

lemma checkpoint_cases:
  obtains (ok) "owns (r_tenant_id run) (r_id run) (sq_db s)"
      "\<forall>ev\<in>set evs. ev_tenant_id ev = r_tenant_id run"
      "checkpoint E run evs s =
        (Inr (), s\<lparr>sq_db := log_events (stamped E (sq_seq s) (sq_clk s + 1) evs)
                             (update_run run (wall E (sq_clk s)) (sq_db s)),
                   sq_seq := sq_seq s + int (length evs), sq_clk := sq_clk s + 1 + length evs\<rparr>)"
  | (bad) m s' where "\<not> owns (r_tenant_id run) (r_id run) (sq_db s) \<or>
        (\<exists>ev\<in>set evs. ev_tenant_id ev \<noteq> r_tenant_id run)"
      "checkpoint E run evs s = (Inl (Exn TenantIsolationError m), s')" "sq_db s' = sq_db s" "sq_seq s' = sq_seq s"
proof (cases "owns (r_tenant_id run) (r_id run) (sq_db s) \<and> (\<forall>ev\<in>set evs. ev_tenant_id ev = r_tenant_id run)")
  case True
  then show ?thesis using ok checkpoint_ok by blast
next
  case False
  show ?thesis
  proof (cases "owns (r_tenant_id run) (r_id run) (sq_db s)")
    case True
    with False have bad_ev: "\<exists>ev\<in>set evs. ev_tenant_id ev \<noteq> r_tenant_id run" by blast
    let ?s = "s\<lparr>sq_clk := Suc (sq_clk s), sq_db := update_run run (wall E (sq_clk s)) (sq_db s)\<rparr>"
    obtain s' where "insert_events E (r_tenant_id run) evs ?s =
        (Inl (Exn TenantIsolationError ''event tenant does not match run tenant''), s')"
      using insert_events_bad [OF bad_ev, of E ?s] by blast
    with True bad_ev show ?thesis
      by (intro bad [of _ "s'\<lparr>sq_db := sq_db s, sq_seq := sq_seq s\<rparr>"])
        (auto simp: checkpoint_def assert_owns_eq sq_defs)
  next
    case False
    then show ?thesis by (intro bad) (auto simp: checkpoint_def assert_owns_eq sq_defs)
  qed
qed


lemma foldl_later:
  "(case foldl later best rows of
      None \<Rightarrow> best = None \<and> rows = []
    | Some row \<Rightarrow> (best = Some row \<or> row \<in> set rows) \<and>
        (\<forall>b. best = Some b \<longrightarrow> ap_requested_at b \<le> ap_requested_at row) \<and>
        (\<forall>row'\<in>set rows. ap_requested_at row' \<le> ap_requested_at row))"
proof (induction rows arbitrary: best)
  case Nil
  then show ?case by (auto split: option.splits)
next
  case (Cons a rows)
  show ?case
    using Cons [of "later best a"]
    by (auto simp: later_def split: option.splits if_splits)
qed

lemma is_latest_row:
  "is_latest (approvals_for tenant rid sid tb)
     (map_option (\<lambda>row. (ap_id row, ap_status row)) (latest_row tenant rid sid tb))"
  using foldl_later [of None "approvals_for tenant rid sid tb"]
  by (auto simp: is_latest_def latest_row_def approvals_for_def split: option.splits)

lemma create_or_get_run_cases:
  obtains (collision) m where "run_row (r_id run) (sq_db s) \<noteq> None"
      "run_by_key (r_tenant_id run) (r_idempotency_key run) (sq_db s) = None"
      "create_or_get_run E run s = (Inl (Exn AssertionError m), s\<lparr>sq_clk := sq_clk s + 1\<rparr>)"
  | (duplicate) row where "run_by_key (r_tenant_id run) (r_idempotency_key run) (sq_db s) = Some row"
      "create_or_get_run E run s = (Inr (row_run row, False), s\<lparr>sq_clk := sq_clk s + 1\<rparr>)"
  | (created) "run_row (r_id run) (sq_db s) = None"
      "run_by_key (r_tenant_id run) (r_idempotency_key run) (sq_db s) = None"
      "create_or_get_run E run s =
        (Inr (run, True), s\<lparr>sq_clk := sq_clk s + 1, sq_db := insert_run run (wall E (sq_clk s)) (sq_db s)\<rparr>)"
proof (cases "run_by_key (r_tenant_id run) (r_idempotency_key run) (sq_db s)")
  case (Some row)
  then have "r_tenant_id (row_run row) = r_tenant_id run"
    by (auto simp: run_by_key_def dest: find_SomeD)
  with Some show ?thesis
    by (intro duplicate) (auto simp: create_or_get_run_def load_run_by_key_def run_conflict_def
        row_to_run_def sq_defs)
next
  case None
  then show ?thesis
    using collision created
    by (cases "run_row (r_id run) (sq_db s)")
      (auto simp: create_or_get_run_def load_run_by_key_def run_conflict_def sq_defs)
qed

definition canceled_event :: "string \<Rightarrow> string \<Rightarrow> Event" where
  "canceled_event tenant i = \<lparr>ev_run_id = i, ev_tenant_id = tenant, ev_type = ''run_canceled'', ev_payload = [],
     ev_step_id = None, ev_actor = ''user'', ev_cost_usd = 0, ev_seq = 0\<rparr>"

lemma canceled_event_simps [simp]:
  "ev_run_id (canceled_event tenant i) = i" "ev_tenant_id (canceled_event tenant i) = tenant"
  "ev_type (canceled_event tenant i) = ''run_canceled''"
  by (simp_all add: canceled_event_def)

lemma cancel_run_cases:
  obtains (missing) "run_row i (sq_db s) = None" "cancel_run E tenant i s = (Inr False, s)"
  | (foreign) row m where "run_row i (sq_db s) = Some row" "r_tenant_id (row_run row) \<noteq> tenant"
      "cancel_run E tenant i s = (Inl (Exn TenantIsolationError m), s)"
  | (terminal) row where "run_row i (sq_db s) = Some row" "r_tenant_id (row_run row) = tenant"
      "terminal (r_status (row_run row))" "cancel_run E tenant i s = (Inr False, s)"
  | (canceled) row where "run_row i (sq_db s) = Some row" "r_tenant_id (row_run row) = tenant"
      "\<not> terminal (r_status (row_run row))"
      "cancel_run E tenant i s = (Inr True, s\<lparr>
         sq_db := log_events (stamped E (sq_seq s) (sq_clk s + 1) [canceled_event tenant i])
                    (update_status tenant i CANCELED (wall E (sq_clk s)) (sq_db s)),
         sq_seq := sq_seq s + 1, sq_clk := sq_clk s + 2\<rparr>)"
proof (cases "run_row i (sq_db s)")
  case None
  then show ?thesis
    by (intro missing) (auto simp: cancel_run_def assert_owns_eq owns_def sq_defs)
next
  case (Some row)
  then show ?thesis
    using foreign [of row] terminal [of row] canceled [of row]
    by (cases "r_tenant_id (row_run row) = tenant"; cases "terminal (r_status (row_run row))")
      (auto simp: cancel_run_def assert_owns_eq owns_def insert_event_row_def insert_event_def
        log_events_def canceled_event_def redact_dict_def sq_defs)
qed

interpretation sqlite: store "sqlite_ops E" sq_db for E
proof (unfold_locales, goal_cases)
  case (1 tenant key d r d')
  then show ?case
    by (auto simp: sqlite_ops_def get_effect_def effect_result_def sq_defs split: option.splits if_splits)
next
  case (2 tenant key rid osid tool v d r' d')
  let ?row = "\<lparr>fx_key = key, fx_run_id = rid, fx_tenant_id = tenant, fx_step_id = osid,
                fx_tool = tool, fx_result = v, fx_created_at = wall E (sq_clk d)\<rparr>"
  from 2 show ?case
    by (intro disjI2 conjI exI [of _ ?row])
      (auto simp: sqlite_ops_def record_effect_def sq_defs)
next
  case (3 run evs d r' d')
  show ?case
  proof (cases rule: checkpoint_cases [of run d evs E])
    case ok
    with 3 show ?thesis
      by (intro disjI2 conjI exI [of _ "wall E (sq_clk d)"]
            exI [of _ "stamped E (sq_seq d) (sq_clk d + 1) evs"] logs_stamped)
        (auto simp: sqlite_ops_def)
  next
    case bad
    with 3 show ?thesis by (intro disjI1) (auto simp: sqlite_ops_def)
  qed
next
  case (4 tenant i d rr d')
  then show ?case
    by (auto simp: sqlite_ops_def load_run_def row_to_run_def run_result_def sq_defs split: option.splits if_splits)
next
  case (5 run d rc d')
  then show ?case
    by (cases rule: create_or_get_run_cases [of run d E]) (auto simp: sqlite_ops_def)
next
  case (6 tenant rid sid approvers d ra d')
  let ?row = "\<lparr>ap_id = new_id E (sq_ids d) ''appr'', ap_run_id = rid, ap_tenant_id = tenant, ap_step_id = sid,
     ap_status = AP_PENDING, ap_approvers = approvers, ap_decided_by = None, ap_note = None,
     ap_requested_at = wall E (sq_clk d), ap_decided_at = None\<rparr>"
  show ?case
  proof (cases "owns tenant rid (sq_db d) \<and> approval_row (ap_id ?row) (sq_db d) = None")
    case True
    with 6 show ?thesis
      by (intro disjI2 conjI exI [of _ ?row])
        (auto simp: sqlite_ops_def create_approval_def assert_owns_eq sq_defs)
  next
    case False
    with 6 show ?thesis
      by (intro disjI1)
        (auto simp: sqlite_ops_def create_approval_def assert_owns_eq sq_defs split: if_splits)
  qed
next
  case (7 tenant aid approved decided_by nt d r' d')
  then show ?case
    by (auto simp: sqlite_ops_def resolve_approval_def sq_defs split: option.splits if_splits)
next
  case (8 tenant rid sid d rl d')
  then show ?case
    by (auto simp: sqlite_ops_def latest_approval_def query_def is_latest_row)
next
  case (9 tenant i d rb d')
  show ?case
  proof (cases rule: cancel_run_cases [of i d E tenant])
    case (canceled row)
    with 9 show ?thesis
      by (intro disjI2 conjI exI [of _ row] exI [of _ "wall E (sq_clk d)"]
            exI [of _ "stamped E (sq_seq d) (sq_clk d + 1) [canceled_event tenant i]"]
            exI [of _ "canceled_event tenant i"] canceled_event_simps logs_stamped)
        (auto simp: sqlite_ops_def)
  qed (use 9 in \<open>auto simp: sqlite_ops_def owns_def\<close>)
next
  case (10 tenant nm settings d r' d')
  then show ?case by (auto simp: sqlite_ops_def ensure_tenant_def sq_defs)
next
  case (11 tenant i d re d')
  then show ?case
    by (auto simp: sqlite_ops_def list_events_def assert_owns_eq sq_defs split: if_splits)
next
  case (12 tenant before_ts d ri d')
  then show ?case by (auto simp: sqlite_ops_def purge_event_payloads_def sq_defs)
qed

interpretation sqlite_crash: store "crash_ops (sqlite_ops E)" "sq_db \<circ> fst" for E
  by (rule sqlite.crash_ops_store)

end
