(* ===== verification/Example.thy ===== *)
theory Example
  imports Orchestrator SQLiteStore
begin

text \<open>
  \<open>example_run.py\<close>: the invoice-triage workflow, its agent and its trigger, on the offline
  model and the accounting double.  The later theories use it as the concrete system at
  which their theorems are applied.
\<close>

section \<open>The workflow\<close>

text \<open>\<open>ctx["extract"][k]\<close>.\<close>

definition extracted :: "string \<Rightarrow> pydict \<Rightarrow> exn + pyval" where
  "extracted k ctx = (case map_of ctx ''extract'' of
      None \<Rightarrow> Inl (Exn KeyError (repr_str ''extract''))
    | Some (PDict d) \<Rightarrow>
        (case map_of d k of None \<Rightarrow> Inl (Exn KeyError (repr_str k)) | Some v \<Rightarrow> Inr v)
    | Some _ \<Rightarrow> Inl (Exn TypeError ''indices must be integers''))"

text \<open>\<open>v > 5000\<close> for a number; other values are not ordered with a number.\<close>

fun above_5000 :: "pyval \<Rightarrow> exn + bool" where
  "above_5000 (PInt i) = Inr (i > 5000)"
| "above_5000 (PBool b) = Inr False"
| "above_5000 (PFloat f) = Inr (float_gt f 5000)"
| "above_5000 _ = Inl (Exn TypeError ''not supported between these types'')"

definition extract_step :: Step where
  "extract_step = (mk_step ''extract'' ''agent'')\<lparr>s_agent := Some ''invoice_extractor'', s_next := Some ''validate''\<rparr>"

definition validate_step :: Step where
  "validate_step = (mk_step ''validate'' ''tool'')\<lparr>s_tool := Some ''lookup_vendor'',
     s_args := [(''vendor'', Computed (extracted ''vendor''))], s_next := Some ''decide''\<rparr>"

definition decide_step :: Step where
  "decide_step = (mk_step ''decide'' ''branch'')\<lparr>s_branches :=
     [(Some (\<lambda>ctx. case extracted ''amount'' ctx of Inl e \<Rightarrow> Inl e | Inr v \<Rightarrow> above_5000 v), ''post''),
      (None, ''post'')]\<rparr>"

definition post_step :: Step where
  "post_step = (mk_step ''post'' ''tool'')\<lparr>s_tool := Some ''create_ap_entry'',
     s_args := [(''vendor'', Computed (extracted ''vendor'')),
                (''invoice_number'', Computed (extracted ''invoice_number'')),
                (''amount'', Computed (extracted ''amount''))]\<rparr>"

definition build_workflow :: Workflow where
  "build_workflow =
     \<lparr>wf_name = ''invoice-triage'',
      wf_steps = map_of [(''extract'', extract_step), (''validate'', validate_step),
                         (''decide'', decide_step), (''post'', post_step)],
      wf_start = ''extract'', wf_version = 1, wf_budget_usd = 1/2, wf_max_steps = 25,
      wf_id = ''wf_invoice_triage''\<rparr>"

definition INVOICE_SCHEMA :: pydict where
  "INVOICE_SCHEMA =
     [(''type'', PStr ''object''),
      (''properties'', PDict
        [(''vendor'', PDict [(''type'', PStr ''string'')]),
         (''invoice_number'', PDict [(''type'', PStr ''string'')]),
         (''amount'', PDict [(''type'', PStr ''number'')]),
         (''currency'', PDict [(''type'', PStr ''string'')])]),
      (''required'', PList [PStr ''vendor'', PStr ''invoice_number'', PStr ''amount'', PStr ''currency''])]"

definition build_agents :: "string \<rightharpoonup> Agent" where
  "build_agents = map_of [(''invoice_extractor'',
     (mk_agent ''invoice_extractor'' ''Extract structured data from vendor invoices.''
       ''Return vendor, invoice_number, amount, currency. Never guess.'' [''lookup_vendor''])
     \<lparr>a_output_schema := Some INVOICE_SCHEMA\<rparr>)]"

section \<open>The system the examples run\<close>

definition mock_engine :: "bool option \<Rightarrow> accounting engine" where
  "mock_engine approve =
     \<lparr>en_agents = build_agents, en_policy = policy_engine default_policies,
      en_respond = (\<lambda>agent task scratch x. (mock_respond agent task scratch, scratch, x)),
      en_approval_fn = map_option (\<lambda>b run step tool args x. (Inr b, x)) approve\<rparr>"

definition acme :: Tenant where
  "acme = \<lparr>tn_name = ''Acme Inc'', tn_id = ''acme'', tn_settings = []\<rparr>"

definition invoice :: "rat \<Rightarrow> pydict" where
  "invoice amount =
     [(''source'', PStr ''email''), (''message_id'', PStr ''<inv-4471@acme>''), (''vendor'', PStr ''Globex Corp''),
      (''invoice_number'', PStr ''INV-4471''), (''amount'', PFloat (Fin amount))]"

definition demo_registry :: "accounting ToolRegistry" where
  "demo_registry = (case default_registry of Inl e \<Rightarrow> empty_registry | Inr reg \<Rightarrow> reg)"

definition demo_env :: env where
  "demo_env = \<lparr>wall = (\<lambda>n. of_nat n), mono = (\<lambda>n. of_nat n), uuid_hex = (\<lambda>n. pad_left 12 (CHR ''0'') (nat_str n)),
     float_str = (\<lambda>q. ''1.0'')\<rparr>"

definition demo_world :: "accounting world" where
  "demo_world = \<lparr>ext = [], mclk = 0, sleeps = [], execs = []\<rparr>"

definition demo_sys :: "(SQLiteStore, accounting) sys" where
  "demo_sys = fresh_sys new_sqlite demo_registry demo_world new_metrics 0"

text \<open>A run of the workflow that died after its AP entry was recorded in the ledger and before
  the checkpoint of the step, and the process that drives it again over a database \<open>d\<close>.\<close>

definition posted :: pyval where
  "posted = PDict [(''vendor'', PStr ''Globex Corp''), (''status'', PStr ''posted'')]"

definition dead_run :: Run where
  "dead_run = (mk_run ''acme'' ''wf_invoice_triage'' 1 (invoice 100) ''m1'' (Some ''post'') ''run_1'')
     \<lparr>r_status := RUNNING, r_context := [(''extract'', PDict (invoice 100))]\<rparr>"

definition posted_row :: EffectRow where
  "posted_row = \<lparr>fx_key = ''run_1:post:create_ap_entry'', fx_run_id = ''run_1'', fx_tenant_id = ''acme'',
     fx_step_id = Some ''post'', fx_tool = ''create_ap_entry'', fx_result = posted, fx_created_at = 0\<rparr>"

definition dead_db :: SQLiteStore where
  "dead_db = new_sqlite\<lparr>sq_db := empty_tables\<lparr>
     tb_runs := [\<lparr>row_run = dead_run, row_started_at = 0, row_updated_at = 0\<rparr>],
     tb_effects := [posted_row]\<rparr>\<rparr>"

definition demo_at :: "SQLiteStore \<Rightarrow> (SQLiteStore, accounting) sys" where
  "demo_at d = (fresh_sys d demo_registry demo_world new_metrics 0)\<lparr>sy_run := dead_run\<rparr>"

section \<open>Facts about the example\<close>

named_theorems demo \<open>the components of the example\<close>

lemma demo_registry_inv: "registry_inv demo_registry"
proof -
  obtain reg where "default_registry = Inr reg" "registry_inv reg" using default_registry_inv by blast
  then show ?thesis by (metis demo_registry_def sum.case(2))
qed

lemma demo_tool [demo]:
  "tr_tools demo_registry ''create_ap_entry'' = Some create_ap_entry_tool"
  "tr_connectors demo_registry ''accounting'' = Some (new_connector ''accounting'' default_reliability)"
  "t_name create_ap_entry_tool = ''create_ap_entry''" "t_connector create_ap_entry_tool = ''accounting''"
  "t_side_effect create_ap_entry_tool" "t_fn create_ap_entry_tool = create_ap_entry"
  by (simp_all add: demo_registry_def default_registry_def register_def register_connector_def empty_registry_def
      lookup_vendor_tool_def create_ap_entry_tool_def new_connector_def)

lemma demo_at_sel [demo]:
  "sy_run (demo_at d) = dead_run" "sy_reg (demo_at d) = demo_registry" "sy_store (demo_at d) = d"
  "sy_world (demo_at d) = demo_world" "sy_buffer (demo_at d) = []"
  by (simp_all add: demo_at_def fresh_sys_def)

lemma demo_step [demo]:
  "s_tool post_step = Some ''create_ap_entry''" "s_id post_step = ''post''" "s_next post_step = None"
  "r_id dead_run = ''run_1''" "r_tenant_id dead_run = ''acme''"
  "effect_key dead_run post_step ''create_ap_entry'' = ''run_1:post:create_ap_entry''"
  by (simp_all add: post_step_def mk_step_def dead_run_def mk_run_def effect_key_def)

lemma demo_args [demo]:
  "resolve (s_args post_step) (r_context dead_run) =
     Inr [(''vendor'', PStr ''Globex Corp''), (''invoice_number'', PStr ''INV-4471''), (''amount'', PFloat (Fin 100))]"
  by (simp add: post_step_def mk_step_def dead_run_def mk_run_def extracted_def invoice_def)

lemma demo_row [demo]:
  "effect_row ''run_1:post:create_ap_entry'' (sq_db dead_db) = Some posted_row"
  "fx_tenant_id posted_row = ''acme''" "fx_result posted_row = posted" "posted \<noteq> PNone"
  "effect_row k (sq_db new_sqlite) = None"
  by (simp_all add: effect_row_def dead_db_def posted_row_def posted_def new_sqlite_def empty_tables_def)

section \<open>A workflow of one approval step\<close>

text \<open>The smallest workflow that ends either way, for the theorems on how runs end.\<close>

definition sign_off :: Workflow where
  "sign_off = \<lparr>wf_name = ''sign-off'', wf_steps = [''sign'' \<mapsto> mk_step ''sign'' ''approval''], wf_start = ''sign'',
     wf_version = 1, wf_budget_usd = 1, wf_max_steps = 5, wf_id = ''wf_sign''\<rparr>"

definition sign_sys :: "(SQLiteStore, accounting) sys" where
  "sign_sys = (demo_at dead_db)\<lparr>sy_run := dead_run\<lparr>r_cursor_step := Some ''sign''\<rparr>\<rparr>"

lemma dead_db_rows [demo]:
  "run_row ''run_1'' (sq_db dead_db) = Some \<lparr>row_run = dead_run, row_started_at = 0, row_updated_at = 0\<rparr>"
  "owns ''acme'' ''run_1'' (sq_db dead_db)" "approval_row a (sq_db dead_db) = None"
  by (simp_all add: owns_def run_row_def approval_row_def dead_db_def empty_tables_def new_sqlite_def demo)

lemma sign_sys_sel [demo]:
  "sy_run sign_sys = dead_run\<lparr>r_cursor_step := Some ''sign''\<rparr>" "sy_store sign_sys = dead_db" "sy_buffer sign_sys = []"
  "r_status dead_run = RUNNING" "r_cost_usd dead_run = 0" "r_steps_used dead_run = 0"
  by (simp_all add: sign_sys_def demo dead_run_def mk_run_def)

lemma owns_approvals [simp]:
  "owns t i (insert_approval row tb) = owns t i tb" "owns t i (decide_approval a b c d e tb) = owns t i tb"
  by (simp_all add: owns_def run_row_def)

lemma approval_row_insert:
  "approval_row i (insert_approval row tb) =
     (case approval_row i tb of None \<Rightarrow> if ap_id row = i then Some row else None | Some r \<Rightarrow> Some r)"
  by (simp add: approval_row_def insert_approval_def find_append split: option.splits)

lemmas sign_defs = set_status_def sign_off_def drive_step_def mk_step_def enter_step_def seq_emit
  run_step_with_retry_def upto.simps handle_def run_step_def run_approval_def await_approval_def mock_engine_def
  approve_sync_def request_approval_def bindc_apply on_store_apply create_approval_def assert_owns_eq sq_defs
  outside_def resolve_approval_def approval_row_insert checkpoint_ok is_a_def metric_def emit_def
  budget_check_def on_step_error_def fail_run_def advance_def engine_checkpoint_def

lemma sign_drive:
  "fst (drive demo_env (sqlite_ops demo_env) (mock_engine (Some b)) sign_off \<lparr>b_max_usd = 1, b_max_steps = 5\<rparr> (Some ''sign'') sign_sys) =
     (if b then Inr None else Inl (Exn PolicyDenied ''approval step 'sign' rejected''))"
  by (cases b) (simp_all add: demo sign_defs)

lemma sign_resume_denied:
  "fst (resume demo_env (sqlite_ops demo_env) (mock_engine (Some False)) sign_off sign_sys) =
     Inl (Exn PolicyDenied ''approval step 'sign' rejected'')"
  by (simp add: resume_def demo sign_defs)

end
