(* ===== verification/Sharing.thy ===== *)
theory Sharing
  imports StoreContract
begin

text \<open>
  A store that several threads use at the same time.

  Every method of \<open>SQLiteStore\<close> runs under \<open>self._lock\<close>, so to one thread the others are
  calls of the store's methods that happen between two of its own.  \<open>shared_ops\<close> is the store
  as such a thread sees it: its state carries a schedule, the calls of the others before its
  next operation, before the one after that, and so on.  Whatever the other threads do, some
  schedule describes it.  (The row of a duplicate trigger, which \<open>create_or_get_run\<close> reads in
  a second critical section, is read in the same operation here.)
\<close>

section \<open>Calls of other threads\<close>

datatype StoreCall =
    EnsureTenant string string pydict
  | CreateOrGetRun Run
  | Checkpoint Run "Event list"
  | CancelRun string string
  | RecordEffect string string string "string option" string pyval
  | CreateApproval string string string "string list"
  | ResolveApproval string string bool string string
  | PurgePayloads string rat

text \<open>What a call does to the store; the reads of other threads do nothing to it.\<close>

fun perform :: "'d StoreOps \<Rightarrow> StoreCall \<Rightarrow> 'd \<Rightarrow> 'd" where
  "perform S (EnsureTenant tenant nm settings) d = snd (op_ensure_tenant S tenant nm settings d)"
| "perform S (CreateOrGetRun run) d = snd (op_create_or_get_run S run d)"
| "perform S (Checkpoint run evs) d = snd (op_checkpoint S run evs d)"
| "perform S (CancelRun tenant rid) d = snd (op_cancel_run S tenant rid d)"
| "perform S (RecordEffect tenant key rid osid tool v) d = snd (op_record_effect S tenant key rid osid tool v d)"
| "perform S (CreateApproval tenant rid sid approvers) d = snd (op_create_approval S tenant rid sid approvers d)"
| "perform S (ResolveApproval tenant aid ok by_whom nt) d = snd (op_resolve_approval S tenant aid ok by_whom nt d)"
| "perform S (PurgePayloads tenant ts) d = snd (op_purge_event_payloads S tenant ts d)"

abbreviation rivals :: "'d StoreOps \<Rightarrow> StoreCall list \<Rightarrow> 'd \<Rightarrow> 'd" where
  "rivals S \<equiv> fold (perform S)"

text \<open>The database the next operation of the thread works on.\<close>

fun turn :: "'d StoreOps \<Rightarrow> 'd \<times> StoreCall list list \<Rightarrow> 'd" where
  "turn S (d, []) = d"
| "turn S (d, calls # sched) = rivals S calls d"

definition shared :: "'d StoreOps \<Rightarrow> (exn, 'd, 'a) comp \<Rightarrow> (exn, 'd \<times> StoreCall list list, 'a) comp" where
  "shared S m = (\<lambda>s. case m (turn S s) of (r, d') \<Rightarrow> (r, (d', tl (snd s))))"

definition shared_ops :: "'d StoreOps \<Rightarrow> ('d \<times> StoreCall list list) StoreOps" where
  "shared_ops S =
     \<lparr>op_ensure_tenant = (\<lambda>a b c. shared S (op_ensure_tenant S a b c)),
      op_create_or_get_run = (\<lambda>a. shared S (op_create_or_get_run S a)),
      op_load_run = (\<lambda>a b. shared S (op_load_run S a b)),
      op_list_runs = (\<lambda>a b c. shared S (op_list_runs S a b c)),
      op_checkpoint = (\<lambda>a b. shared S (op_checkpoint S a b)),
      op_list_events = (\<lambda>a b. shared S (op_list_events S a b)),
      op_get_effect = (\<lambda>a b. shared S (op_get_effect S a b)),
      op_record_effect = (\<lambda>a b c d e f. shared S (op_record_effect S a b c d e f)),
      op_create_approval = (\<lambda>a b c d. shared S (op_create_approval S a b c d)),
      op_resolve_approval = (\<lambda>a b c d e. shared S (op_resolve_approval S a b c d e)),
      op_latest_approval = (\<lambda>a b c. shared S (op_latest_approval S a b c)),
      op_cancel_run = (\<lambda>a b. shared S (op_cancel_run S a b)),
      op_purge_event_payloads = (\<lambda>a b. shared S (op_purge_event_payloads S a b))\<rparr>"

lemma shared_cases:
  assumes "shared S m s = (r, s')"
  obtains "m (turn S s) = (r, fst s')" "snd s' = tl (snd s)"
  using assms by (auto simp: shared_def split: prod.splits)

text \<open>What every call keeps, the calls of the other threads keep.\<close>

lemma rivals_keep:
  assumes "\<And>call d. P d \<Longrightarrow> P (perform S call d)"
  shows "P d \<Longrightarrow> P (rivals S calls d)"
  by (induction calls arbitrary: d) (simp_all add: assms)

lemma turn_keeps:
  assumes "\<And>call d. P d \<Longrightarrow> P (perform S call d)"
  shows "P (fst s) \<Longrightarrow> P (turn S s)"
  by (cases "(S, s)" rule: turn.cases) (simp_all add: rivals_keep [where P = P, OF assms])

end
