(* ===== verification/Service.thy ===== *)
theory Service
  imports Scope Example Sharing
begin

text \<open>
  The engine as a service: processes that serve requests over a surviving database, one after
  the other or in several threads at once, and die.  The locale \<open>store_invariant\<close> is the interface for invariants of a
  store: a predicate that every operation preserves is preserved by serving requests.
\<close>

section \<open>Processes that serve requests and die\<close>

text \<open>What the entry points of the service ask of the engine and the store, in any order and
  for any tenants.\<close>

datatype request =
    Fire Tenant Workflow pydict
  | Resume Tenant string Workflow
  | Cancel string string
  | Decide string string bool string string
  | Purge string rat

fun serve :: "env \<Rightarrow> 'd StoreOps \<Rightarrow> 'x engine \<Rightarrow> request \<Rightarrow> ('d, 'x, unit) eng" where
  "serve E S en (Fire tenant flow trig) = seqc (fire E S en tenant flow trig) (ret ())"
| "serve E S en (Resume tenant rid flow) = seqc (resume_run E S en tenant rid flow) (ret ())"
| "serve E S en (Cancel tenant rid) = seqc (on_store (op_cancel_run S tenant rid)) (ret ())"
| "serve E S en (Decide tenant aid approved by_whom nt) =
     on_store (op_resolve_approval S tenant aid approved by_whom nt)"
| "serve E S en (Purge tenant before_ts) = seqc (on_store (op_purge_event_payloads S tenant before_ts)) (ret ())"

text \<open>A process serves its requests one after the other; an exception ends the request it is
  raised in, a crash ends the process.\<close>

fun serve_all :: "env \<Rightarrow> 'd StoreOps \<Rightarrow> 'x engine \<Rightarrow> request list \<Rightarrow> ('d, 'x) sys \<Rightarrow> ('d, 'x) sys" where
  "serve_all E S en [] s = s"
| "serve_all E S en (q # qs) s =
     (case serve E S en q s of
        (Inl e, s') \<Rightarrow> if is_exception e then serve_all E S en qs s' else s'
      | (Inr _, s') \<Rightarrow> serve_all E S en qs s')"

text \<open>
  One step in the life of a deployment on SQLite with the tools \<open>T\<close>: a new process over the
  surviving database serves some requests and dies at its \<open>n\<close>-th store operation, or ends
  before that; or the outside world moves on its own.
\<close>

inductive restart_step ::
  "env \<Rightarrow> 'x engine \<Rightarrow> (string \<rightharpoonup> 'x Tool) \<Rightarrow> SQLiteStore \<times> 'x world \<Rightarrow> SQLiteStore \<times> 'x world \<Rightarrow> bool"
  for E :: env and en :: "'x engine" and T :: "string \<rightharpoonup> 'x Tool" where
  process: "registry_inv reg \<Longrightarrow> tr_tools reg = T \<Longrightarrow>
     serve_all E (crash_ops (sqlite_ops E)) en qs (fresh_sys (d, n) reg w m ids) = s' \<Longrightarrow>
     restart_step E en T (d, w) (fst (sy_store s'), sy_world s')"
| outside_world: "restart_step E en T (d, w) (d, w\<lparr>ext := x\<rparr>)"

text \<open>
  The same for a deployment whose process serves requests in several threads at once: while a
  thread serves its requests, the others call the store as the schedule \<open>sched\<close> says.
\<close>

inductive cluster_step ::
  "env \<Rightarrow> 'x engine \<Rightarrow> (string \<rightharpoonup> 'x Tool) \<Rightarrow> SQLiteStore \<times> 'x world \<Rightarrow> SQLiteStore \<times> 'x world \<Rightarrow> bool"
  for E :: env and en :: "'x engine" and T :: "string \<rightharpoonup> 'x Tool" where
  worker: "registry_inv reg \<Longrightarrow> tr_tools reg = T \<Longrightarrow>
     serve_all E (crash_ops (shared_ops (sqlite_ops E))) en qs (fresh_sys ((d, sched), n) reg w m ids) = s' \<Longrightarrow>
     cluster_step E en T (d, w) (fst (fst (sy_store s')), sy_world s')"
| rival: "cluster_step E en T (d, w) (perform (sqlite_ops E) call d, w)"
| world_moves: "cluster_step E en T (d, w) (d, w\<lparr>ext := x\<rparr>)"

fun request_tenant :: "request \<Rightarrow> string" where
  "request_tenant (Fire tenant flow trig) = tn_id tenant"
| "request_tenant (Resume tenant rid flow) = tn_id tenant"
| "request_tenant (Cancel tenant rid) = tenant"
| "request_tenant (Decide tenant aid ok by_whom nt) = tenant"
| "request_tenant (Purge tenant before_ts) = tenant"

section \<open>Invariants of the store\<close>

text \<open>
  \<open>retention_invariant\<close> is the interface for a predicate that every operation of a store keeps, where a
  purge need keep it only when it is one of the allowed ones; with every purge allowed it is the
  plain \<open>store_invariant\<close>.
\<close>

fun request_allowed :: "(string \<Rightarrow> rat \<Rightarrow> bool) \<Rightarrow> request \<Rightarrow> bool" where
  "request_allowed allowed (Purge tenant ts) = allowed tenant ts"
| "request_allowed allowed q = True"

fun call_allowed :: "(string \<Rightarrow> rat \<Rightarrow> bool) \<Rightarrow> StoreCall \<Rightarrow> bool" where
  "call_allowed allowed (PurgePayloads tenant ts) = allowed tenant ts"
| "call_allowed allowed call = True"

definition sched_allowed :: "(string \<Rightarrow> rat \<Rightarrow> bool) \<Rightarrow> StoreCall list list \<Rightarrow> bool" where
  "sched_allowed allowed sched \<longleftrightarrow> list_all (list_all (call_allowed allowed)) sched"

lemma allowed_always [simp]:
  "request_allowed (\<lambda>_ _. True) q" "call_allowed (\<lambda>_ _. True) call" "sched_allowed (\<lambda>_ _. True) sched"
proof -
  show call: "call_allowed (\<lambda>_ _. True) call" for call by (cases call) simp_all
  show "request_allowed (\<lambda>_ _. True) q" by (cases q) simp_all
  show "sched_allowed (\<lambda>_ _. True) sched" by (simp add: sched_allowed_def list_all_iff call)
qed

lemma sched_allowed_tl: "sched_allowed allowed sched \<Longrightarrow> sched_allowed allowed (tl sched)"
  by (cases sched) (simp_all add: sched_allowed_def)

locale retention_invariant =
  fixes S :: "'d StoreOps" and P :: "'d \<Rightarrow> bool" and allowed :: "string \<Rightarrow> rat \<Rightarrow> bool"
  assumes kept_get_effect: "op_get_effect S tenant key d = (rg, d') \<Longrightarrow> P d \<Longrightarrow> P d'"
    and kept_record_effect: "op_record_effect S tenant key rid osid tool v d = (ru, d') \<Longrightarrow> P d \<Longrightarrow> P d'"
    and kept_create_approval: "op_create_approval S tenant rid sid approvers d = (ra, d') \<Longrightarrow> P d \<Longrightarrow> P d'"
    and kept_resolve_approval: "op_resolve_approval S tenant aid ok by_whom nt d = (ru, d') \<Longrightarrow> P d \<Longrightarrow> P d'"
    and kept_latest_approval: "op_latest_approval S tenant rid sid d = (rl, d') \<Longrightarrow> P d \<Longrightarrow> P d'"
    and kept_checkpoint: "op_checkpoint S run evs d = (ru, d') \<Longrightarrow> P d \<Longrightarrow> P d'"
    and kept_create_or_get_run: "op_create_or_get_run S run d = (rc, d') \<Longrightarrow> P d \<Longrightarrow> P d'"
    and kept_load_run: "op_load_run S tenant rid d = (rr, d') \<Longrightarrow> P d \<Longrightarrow> P d'"
    and kept_cancel_run: "op_cancel_run S tenant rid d = (rb, d') \<Longrightarrow> P d \<Longrightarrow> P d'"
    and kept_purge: "op_purge_event_payloads S tenant ts d = (ri, d') \<Longrightarrow> P d \<Longrightarrow> allowed tenant ts \<Longrightarrow> P d'"
    and kept_ensure_tenant: "op_ensure_tenant S tenant nm settings d = (ru, d') \<Longrightarrow> P d \<Longrightarrow> P d'"
begin

lemmas kept_ops = kept_get_effect kept_record_effect kept_create_approval kept_resolve_approval kept_latest_approval
  kept_checkpoint kept_create_or_get_run kept_load_run kept_cancel_run kept_purge
  kept_ensure_tenant

lemma kept_scope: "run_scope S (\<lambda>t i d d'. P d \<longrightarrow> P d')"
  by unfold_locales (blast intro: kept_ops)+

lemma kept_resume: "resume E S en flow s = (r, s') \<Longrightarrow> P (sy_store s) \<Longrightarrow> P (sy_store s')"
  using run_scope.resume_scope [OF kept_scope] by blast

lemma kept_fire:
  assumes "fire E S en tenant flow trig s = (r, s')" and "P (sy_store s)"
  shows "P (sy_store s')"
  using assms(1)
proof (cases rule: fire_cases)
  case (started run d s1)
  then show ?thesis using kept_resume [OF started(2)] kept_create_or_get_run [OF started(1) assms(2)] by simp
qed (use kept_create_or_get_run assms(2) in blast)+

lemma kept_resume_run:
  assumes "resume_run E S en tenant rid flow s = (r, s')" and "P (sy_store s)"
  shows "P (sy_store s')"
  using assms(1)
proof (cases rule: resume_run_cases)
  case (driven d run)
  then show ?thesis using kept_resume [OF driven(3)] kept_load_run [OF driven(1) assms(2)] by simp
qed (use kept_load_run assms(2) in auto)

lemma kept_serve:
  assumes "serve E S en q s = (r, s')" and "P (sy_store s)" and "request_allowed allowed q"
  shows "P (sy_store s')"
proof (cases q)
  case (Fire tenant flow trig)
  then show ?thesis using assms kept_fire
    by (auto simp: bindc_apply split: prod.splits sum.splits)
next
  case (Resume tenant rid flow)
  then show ?thesis using assms kept_resume_run
    by (auto simp: bindc_apply split: prod.splits sum.splits)
qed (use assms in \<open>auto simp: bindc_apply on_store_apply split: prod.splits sum.splits intro: kept_ops\<close>)

lemma kept_serve_all:
  "P (sy_store s) \<Longrightarrow> list_all (request_allowed allowed) qs \<Longrightarrow> P (sy_store (serve_all E S en qs s))"
  by (induction qs arbitrary: s) (auto split: prod.splits sum.splits dest: kept_serve)

lemma kept_crash: "retention_invariant (crash_ops S) (P \<circ> fst) allowed"
  by (unfold_locales; unfold crash_ops_def StoreOps.simps o_apply; erule dies_cases; ((erule (2) kept_ops | erule (1) kept_ops) | simp))

lemma kept_perform: "P d \<Longrightarrow> call_allowed allowed call \<Longrightarrow> P (perform S call d)"
  by (cases call) (simp_all add: kept_ops [OF prod.collapse [symmetric]])

lemma kept_rivals: "P d \<Longrightarrow> list_all (call_allowed allowed) calls \<Longrightarrow> P (rivals S calls d)"
  by (induction calls arbitrary: d) (simp_all add: kept_perform)

lemma kept_turn: "P (fst s) \<Longrightarrow> sched_allowed allowed (snd s) \<Longrightarrow> P (turn S s)"
  by (cases "(S, s)" rule: turn.cases) (simp_all add: kept_rivals sched_allowed_def)

lemma kept_shared: "retention_invariant (shared_ops S) (\<lambda>s. P (fst s) \<and> sched_allowed allowed (snd s)) allowed"
  by (unfold_locales; unfold shared_ops_def StoreOps.simps; erule shared_cases; elim conjE; intro conjI;
      (simp add: sched_allowed_tl | erule kept_ops, erule (1) kept_turn, assumption?))

end

locale store_invariant =
  fixes S :: "'d StoreOps" and P :: "'d \<Rightarrow> bool"
  assumes inv_get_effect: "op_get_effect S tenant key d = (rg, d') \<Longrightarrow> P d \<Longrightarrow> P d'"
    and inv_record_effect: "op_record_effect S tenant key rid osid tool v d = (ru, d') \<Longrightarrow> P d \<Longrightarrow> P d'"
    and inv_create_approval: "op_create_approval S tenant rid sid approvers d = (ra, d') \<Longrightarrow> P d \<Longrightarrow> P d'"
    and inv_resolve_approval: "op_resolve_approval S tenant aid ok by_whom nt d = (ru, d') \<Longrightarrow> P d \<Longrightarrow> P d'"
    and inv_latest_approval: "op_latest_approval S tenant rid sid d = (rl, d') \<Longrightarrow> P d \<Longrightarrow> P d'"
    and inv_checkpoint: "op_checkpoint S run evs d = (ru, d') \<Longrightarrow> P d \<Longrightarrow> P d'"
    and inv_create_or_get_run: "op_create_or_get_run S run d = (rc, d') \<Longrightarrow> P d \<Longrightarrow> P d'"
    and inv_load_run: "op_load_run S tenant rid d = (rr, d') \<Longrightarrow> P d \<Longrightarrow> P d'"
    and inv_cancel_run: "op_cancel_run S tenant rid d = (rb, d') \<Longrightarrow> P d \<Longrightarrow> P d'"
    and inv_purge: "op_purge_event_payloads S tenant ts d = (ri, d') \<Longrightarrow> P d \<Longrightarrow> P d'"
    and inv_ensure_tenant: "op_ensure_tenant S tenant nm settings d = (ru, d') \<Longrightarrow> P d \<Longrightarrow> P d'"
begin

lemmas inv_ops = inv_get_effect inv_record_effect inv_create_approval inv_resolve_approval inv_latest_approval
  inv_checkpoint inv_create_or_get_run inv_load_run inv_cancel_run inv_purge
  inv_ensure_tenant

end

lemma store_invariant_iff: "store_invariant S P \<longleftrightarrow> retention_invariant S P (\<lambda>_ _. True)"
  by (simp add: store_invariant_def retention_invariant_def)

sublocale store_invariant \<subseteq> kept: retention_invariant S P "\<lambda>_ _. True"
  using store_invariant_axioms by (simp add: store_invariant_iff)

context store_invariant
begin

lemma serve_all_inv: "P (sy_store s) \<Longrightarrow> P (sy_store (serve_all E S en qs s))"
  by (rule kept.kept_serve_all) (simp_all add: list_all_iff)

lemma inv_perform: "P d \<Longrightarrow> P (perform S call d)"
  by (rule kept.kept_perform) simp_all

end

section \<open>Deployments that keep an invariant\<close>

text \<open>
  The life of a deployment in which the threads ask only for allowed purges.
\<close>

inductive retention_step ::
  "env \<Rightarrow> 'x engine \<Rightarrow> (string \<rightharpoonup> 'x Tool) \<Rightarrow> (string \<Rightarrow> rat \<Rightarrow> bool) \<Rightarrow>
    SQLiteStore \<times> 'x world \<Rightarrow> SQLiteStore \<times> 'x world \<Rightarrow> bool"
  for E :: env and en :: "'x engine" and T :: "string \<rightharpoonup> 'x Tool" and allowed :: "string \<Rightarrow> rat \<Rightarrow> bool" where
  retaining_worker: "registry_inv reg \<Longrightarrow> tr_tools reg = T \<Longrightarrow>
     list_all (request_allowed allowed) qs \<Longrightarrow> sched_allowed allowed sched \<Longrightarrow>
     serve_all E (crash_ops (shared_ops (sqlite_ops E))) en qs (fresh_sys ((d, sched), n) reg w m ids) = s' \<Longrightarrow>
     retention_step E en T allowed (d, w) (fst (fst (sy_store s')), sy_world s')"
| retaining_rival: "call_allowed allowed call \<Longrightarrow>
     retention_step E en T allowed (d, w) (perform (sqlite_ops E) call d, w)"
| retaining_world: "retention_step E en T allowed (d, w) (d, w\<lparr>ext := x\<rparr>)"

text \<open>A deployment is one in which every purge is allowed.\<close>

lemma cluster_is_retention: "cluster_step E en T x y \<Longrightarrow> retention_step E en T (\<lambda>_ _. True) x y"
  by (induction rule: cluster_step.induct) (auto intro!: retention_step.intros simp: list_all_iff)

text \<open>An invariant of the store is one of a deployment, also with several threads.\<close>

lemma retention_inv:
  assumes "(retention_step E en T allowed)\<^sup>*\<^sup>* x y" and "retention_invariant (sqlite_ops E) P allowed" and "P (fst x)"
  shows "P (fst y)"
  using assms(1)
proof (induction rule: rtranclp_induct)
  case (step y z)
  from step(2,3) show ?case
  proof (induction rule: retention_step.induct)
    case (retaining_worker reg qs sched d n w m ids s')
    let ?P = "\<lambda>s. P (fst s) \<and> sched_allowed allowed (snd s)"
    have "retention_invariant (crash_ops (shared_ops (sqlite_ops E))) (?P \<circ> fst) allowed"
      by (intro retention_invariant.kept_crash retention_invariant.kept_shared assms(2))
    from retention_invariant.kept_serve_all [OF this, of "fresh_sys ((d, sched), n) reg w m ids" qs E en] retaining_worker
    show ?case by (auto simp: fresh_sys_def)
  qed (simp_all add: retention_invariant.kept_perform [OF assms(2)])
qed (rule assms(3))

lemma cluster_inv:
  assumes "(cluster_step E en T)\<^sup>*\<^sup>* x y" and "store_invariant (sqlite_ops E) P" and "P (fst x)"
  shows "P (fst y)"
proof (rule retention_inv)
  show "(retention_step E en T (\<lambda>_ _. True))\<^sup>*\<^sup>* x y"
    using assms(1) by (rule rtranclp_mono [THEN predicate2D, rotated]) (auto intro: cluster_is_retention)
qed (use assms in \<open>simp_all add: store_invariant_iff\<close>)

end
