(* ===== verification/Ledger.thy ===== *)
theory Ledger
  imports Service
begin

text \<open>
  Exactly-once side effects.

  A mutating tool step looks its key up in the ledger before it acts and records the result
  after.  The relation \<open>once_rel\<close> says what any part of a run may do: ledger rows stay,
  and every call of a mutating tool that is made on the way, unless an agent may call the
  tool on its own, carries an idempotency key that had no result in the ledger.
\<close>

section \<open>Vocabulary\<close>

definition ledgered :: "string \<Rightarrow> tables \<Rightarrow> bool" where
  "ledgered key tb \<longleftrightarrow> (case effect_row key tb of None \<Rightarrow> False | Some row \<Rightarrow> fx_result row \<noteq> PNone)"

definition effects_grow :: "tables \<Rightarrow> tables \<Rightarrow> bool" where
  "effects_grow tb tb' \<longleftrightarrow> (\<exists>more. tb_effects tb' = tb_effects tb @ more)"

text \<open>Some agent has the tool on its allow-list.\<close>

definition agent_reachable :: "'x engine \<Rightarrow> string \<Rightarrow> bool" where
  "agent_reachable en name \<longleftrightarrow> (\<exists>n a. en_agents en n = Some a \<and> name \<in> set (a_tools a))"

text \<open>A call to a mutating tool that only workflow steps reach carries a key without a
  result in the ledger.\<close>

definition fresh_call :: "'x engine \<Rightarrow> 'x ToolRegistry \<Rightarrow> tables \<Rightarrow> string \<times> pydict \<Rightarrow> bool" where
  "fresh_call en reg tb call \<longleftrightarrow>
     (\<forall>t. tr_tools reg (fst call) = Some t \<longrightarrow> t_side_effect t \<longrightarrow> \<not> agent_reachable en (fst call) \<longrightarrow>
        (\<exists>key. map_of (snd call) ''_idempotency_key'' = Some (PStr key) \<and> \<not> ledgered key tb))"

abbreviation fresh_calls :: "'x engine \<Rightarrow> 'x ToolRegistry \<Rightarrow> tables \<Rightarrow> (string \<times> pydict) list \<Rightarrow> bool" where
  "fresh_calls en reg tb \<equiv> list_all (fresh_call en reg tb)"

definition once_rel :: "('d \<Rightarrow> tables) \<Rightarrow> 'x engine \<Rightarrow> ('d, 'x) sys \<Rightarrow> ('d, 'x) sys \<Rightarrow> bool" where
  "once_rel tabs en s s' \<longleftrightarrow> (registry_inv (sy_reg s) \<longrightarrow>
     registry_inv (sy_reg s') \<and> tr_tools (sy_reg s') = tr_tools (sy_reg s) \<and>
     effects_grow (tabs (sy_store s)) (tabs (sy_store s')) \<and>
     (\<exists>new. execs (sy_world s') = execs (sy_world s) @ new \<and>
        fresh_calls en (sy_reg s) (tabs (sy_store s)) new))"

section \<open>The ledger only grows\<close>

lemma effects_grow_refl [simp]: "effects_grow tb tb"
  by (simp add: effects_grow_def)

lemma effects_grow_same: "tb_effects tb' = tb_effects tb \<Longrightarrow> effects_grow tb tb'"
  by (simp add: effects_grow_def)

lemma effects_grow_trans: "effects_grow a b \<Longrightarrow> effects_grow b c \<Longrightarrow> effects_grow a c"
  by (auto simp: effects_grow_def)

lemma effects_grow_insert: "effects_grow tb (insert_effect row tb)"
  by (simp add: effects_grow_def insert_effect_def)

lemma effect_row_grow: "effects_grow tb tb' \<Longrightarrow> effect_row key tb = Some row \<Longrightarrow> effect_row key tb' = Some row"
  by (auto simp: effects_grow_def effect_row_def find_append)

lemma ledgered_grow: "effects_grow tb tb' \<Longrightarrow> ledgered key tb \<Longrightarrow> ledgered key tb'"
  by (auto simp: ledgered_def effect_row_grow split: option.splits)

lemma fresh_call_before:
  "effects_grow tb tb' \<Longrightarrow> tr_tools reg' = tr_tools reg \<Longrightarrow> fresh_call en reg' tb' c \<Longrightarrow> fresh_call en reg tb c"
  by (auto simp: fresh_call_def) (meson ledgered_grow)

lemma fresh_calls_before:
  "effects_grow tb tb' \<Longrightarrow> tr_tools reg' = tr_tools reg \<Longrightarrow> fresh_calls en reg' tb' xs \<Longrightarrow> fresh_calls en reg tb xs"
  by (metis fresh_call_before list.pred_mono_strong)

lemma once_frame: "frame (once_rel tabs en)"
proof
  fix s show "once_rel tabs en s s" by (simp add: once_rel_def)
next
  fix s t u
  assume st: "once_rel tabs en s t" and tu: "once_rel tabs en t u"
  show "once_rel tabs en s u"
    unfolding once_rel_def
  proof (intro impI)
    assume inv: "registry_inv (sy_reg s)"
    then obtain n1 where s1: "registry_inv (sy_reg t)" "tr_tools (sy_reg t) = tr_tools (sy_reg s)"
        "effects_grow (tabs (sy_store s)) (tabs (sy_store t))" "execs (sy_world t) = execs (sy_world s) @ n1"
        "fresh_calls en (sy_reg s) (tabs (sy_store s)) n1"
      using st by (auto simp: once_rel_def)
    then obtain n2 where s2: "registry_inv (sy_reg u)" "tr_tools (sy_reg u) = tr_tools (sy_reg t)"
        "effects_grow (tabs (sy_store t)) (tabs (sy_store u))" "execs (sy_world u) = execs (sy_world t) @ n2"
        "fresh_calls en (sy_reg t) (tabs (sy_store t)) n2"
      using tu by (auto simp: once_rel_def)
    from s1 s2 have "fresh_calls en (sy_reg s) (tabs (sy_store s)) (n1 @ n2)"
      by (auto simp: list_all_append intro: fresh_calls_before)
    with s1 s2 show "registry_inv (sy_reg u) \<and> tr_tools (sy_reg u) = tr_tools (sy_reg s) \<and>
        effects_grow (tabs (sy_store s)) (tabs (sy_store u)) \<and>
        (\<exists>new. execs (sy_world u) = execs (sy_world s) @ new \<and> fresh_calls en (sy_reg s) (tabs (sy_store s)) new)"
      by (auto intro: effects_grow_trans)
  qed
qed

interpretation once: frame "once_rel tabs en" for tabs en
  by (rule once_frame)

lemma once_quiet:
  "sy_reg s' = sy_reg s \<Longrightarrow> execs (sy_world s') = execs (sy_world s) \<Longrightarrow>
     effects_grow (tabs (sy_store s)) (tabs (sy_store s')) \<Longrightarrow> once_rel tabs en s s'"
  by (simp add: once_rel_def)

text \<open>A call through the registry is fresh if its key is, or if an agent may make it.\<close>

lemma once_exec_tool_since:
  assumes "exec_tool E name args s = (r, s')"
    and "sy_reg s = sy_reg s0" and "execs (sy_world s) = execs (sy_world s0)"
    and "effects_grow (tabs (sy_store s0)) (tabs (sy_store s))"
    and "agent_reachable en name \<or>
         (\<forall>t. tr_tools (sy_reg s0) name = Some t \<longrightarrow> t_side_effect t \<longrightarrow>
            (\<exists>key. map_of args ''_idempotency_key'' = Some (PStr key) \<and> \<not> ledgered key (tabs (sy_store s0))))"
  shows "once_rel tabs en s0 s'"
proof -
  obtain reg w where ex: "execute E name args (sy_reg s, sy_world s) = (r, (reg, w))"
    and s': "s' = s\<lparr>sy_reg := reg, sy_world := w\<rparr>"
    using assms(1) by (auto simp: exec_tool_def zoom_def split: prod.splits)
  have "registry_inv reg" if "registry_inv (sy_reg s)"
    using ex that by (auto simp: execute_def get_tool_def registry_inv_def split: option.splits prod.splits)
  then show ?thesis
    using execute_frame [OF ex] assms(2-5) s'
    by (auto simp: once_rel_def fresh_call_def)
qed

lemmas once_exec_tool = once_exec_tool_since [OF _ refl refl effects_grow_refl]

section \<open>Steps that call no tool\<close>

text \<open>The tools and their calls stay, and the tables change as \<open>Q\<close> allows.\<close>

definition quiet_rel :: "(tables \<Rightarrow> tables \<Rightarrow> bool) \<Rightarrow> ('d \<Rightarrow> tables) \<Rightarrow> ('d, 'x) sys \<Rightarrow> ('d, 'x) sys \<Rightarrow> bool" where
  "quiet_rel Q tabs s s' \<longleftrightarrow> sy_reg s' = sy_reg s \<and> execs (sy_world s') = execs (sy_world s) \<and>
     Q (tabs (sy_store s)) (tabs (sy_store s'))"

lemma quiet_once: "quiet_rel effects_grow tabs s s' \<Longrightarrow> once_rel tabs en s s'"
  by (auto simp: quiet_rel_def intro: once_quiet)

text \<open>What every operation the engine makes but the recording of a result does to the ledger.\<close>

locale ledger_frame =
  fixes S :: "'d StoreOps" and tabs :: "'d \<Rightarrow> tables" and Q :: "tables \<Rightarrow> tables \<Rightarrow> bool"
  assumes Q_refl: "Q a a"
    and Q_trans: "Q a b \<Longrightarrow> Q b c \<Longrightarrow> Q a c"
    and Q_get_effect: "op_get_effect S tenant key d = (rg, d') \<Longrightarrow> Q (tabs d) (tabs d')"
    and Q_checkpoint: "op_checkpoint S run evs d = (ru, d') \<Longrightarrow> Q (tabs d) (tabs d')"
    and Q_load_run: "op_load_run S tenant rid d = (rr, d') \<Longrightarrow> Q (tabs d) (tabs d')"
    and Q_create_or_get_run: "op_create_or_get_run S run d = (rc, d') \<Longrightarrow> Q (tabs d) (tabs d')"
    and Q_create_approval: "op_create_approval S tenant rid sid approvers d = (ra, d') \<Longrightarrow> Q (tabs d) (tabs d')"
    and Q_resolve_approval: "op_resolve_approval S tenant aid ok by_whom nt d = (ru, d') \<Longrightarrow> Q (tabs d) (tabs d')"
    and Q_latest_approval: "op_latest_approval S tenant rid sid d = (rl, d') \<Longrightarrow> Q (tabs d) (tabs d')"
    and Q_cancel_run: "op_cancel_run S tenant rid d = (rb, d') \<Longrightarrow> Q (tabs d) (tabs d')"
    and Q_purge: "op_purge_event_payloads S tenant ts d = (ri, d') \<Longrightarrow> Q (tabs d) (tabs d')"
    and Q_ensure_tenant: "op_ensure_tenant S tenant nm settings d = (ru, d') \<Longrightarrow> Q (tabs d) (tabs d')"
begin

lemmas Q_ops = Q_get_effect Q_checkpoint Q_load_run Q_create_or_get_run Q_create_approval Q_resolve_approval
  Q_latest_approval Q_cancel_run Q_purge Q_ensure_tenant

lemma quiet_frame: "frame (quiet_rel Q tabs)"
  by unfold_locales (auto simp: quiet_rel_def intro: Q_refl Q_trans)

lemmas quiet_keeps = frame.keeps_rules [OF quiet_frame]
lemmas quiet_trans = frame.frame_trans [OF quiet_frame]

lemma quiet_same:
  "sy_reg s' = sy_reg s \<Longrightarrow> execs (sy_world s') = execs (sy_world s) \<Longrightarrow> sy_store s' = sy_store s \<Longrightarrow> quiet_rel Q tabs s s'"
  by (simp add: quiet_rel_def Q_refl)

lemma quiet_modify: "(\<And>s. quiet_rel Q tabs s (f s)) \<Longrightarrow> keeps (quiet_rel Q tabs) (modify f)"
  by (rule frame.keeps_modify [OF quiet_frame])

lemma quiet_outside: "keeps (quiet_rel Q tabs) (outside f)"
  by (rule outside_keeps) (simp add: quiet_same)

lemma quiet_on_store:
  "(\<And>d r d'. m d = (r, d') \<Longrightarrow> Q (tabs d) (tabs d')) \<Longrightarrow> keeps (quiet_rel Q tabs) (on_store m)"
  by (rule on_store_keeps) (simp add: quiet_rel_def)

lemma quiet_checkpoint: "keeps (quiet_rel Q tabs) (engine_checkpoint S)"
  unfolding engine_checkpoint_def
  by (intro quiet_keeps quiet_on_store quiet_modify; (erule Q_ops | simp add: quiet_same))

lemma quiet_approval: "keeps (quiet_rel Q tabs) (await_approval S en step approvers name args)"
  unfolding await_approval_def approve_sync_def approve_async_def request_approval_def
    emit_def set_status_def
  by (intro quiet_keeps quiet_checkpoint quiet_outside quiet_on_store quiet_modify;
      (erule Q_ops | simp add: quiet_same))

lemma quiet_gate: "keeps (quiet_rel Q tabs) (tool_gate S en step name tool args)"
  unfolding tool_gate_def emit_def metric_def
  by (intro quiet_keeps quiet_approval quiet_modify; simp add: quiet_same)

lemma quiet_consult: "keeps (quiet_rel Q tabs) (consult S run tool key)"
  unfolding consult_def by (intro quiet_keeps quiet_on_store; erule Q_ops)

lemma quiet_replay: "keeps (quiet_rel Q tabs) (replay_effect step name cached)"
  unfolding replay_effect_def emit_def set_context_def
  by (intro quiet_keeps quiet_modify; simp add: quiet_same)

lemma quiet_prim:
  "keeps (quiet_rel Q tabs) (emit ty p sid c a)" "keeps (quiet_rel Q tabs) (metric nm l)"
  "keeps (quiet_rel Q tabs) (set_status st)" "keeps (quiet_rel Q tabs) (add_cost c)"
  "keeps (quiet_rel Q tabs) (set_context k v)" "keeps (quiet_rel Q tabs) (enter_step step)"
  "keeps (quiet_rel Q tabs) (advance n)" "keeps (quiet_rel Q tabs) (register_workflow flow)"
  "keeps (quiet_rel Q tabs) (set_run run)" "keeps (quiet_rel Q tabs) (new_run E tenant flow trig)"
  "keeps (quiet_rel Q tabs) (field k' v')"
  unfolding eng_prims enter_step_def advance_def register_workflow_def set_run_def new_run_def keeps_def
  by (auto simp: quiet_same bindc_apply split: option.splits)

end

text \<open>The ledger as a mutating step relies on it: rows stay, and a lookup that finds nothing
  means that there was no result when it was asked.\<close>

locale ledger_store = ledger_frame S tabs effects_grow
  for S :: "'d StoreOps" and tabs :: "'d \<Rightarrow> tables" +
  assumes record_grows: "op_record_effect S tenant key rid osid tool v d = (ru, d') \<Longrightarrow> effects_grow (tabs d) (tabs d')"
    and lookup_none: "op_get_effect S tenant key d = (Inr PNone, d') \<Longrightarrow> \<not> ledgered key (tabs d)"
begin

lemma consult_None_fresh:
  "consult S run tool key s = (Inr PNone, s') \<Longrightarrow> t_side_effect tool \<Longrightarrow> \<not> ledgered key (tabs (sy_store s))"
  by (auto simp: consult_def on_store_apply split: prod.splits if_splits dest: lookup_none)

lemma once_keeps_quiet: "keeps (quiet_rel effects_grow tabs) m \<Longrightarrow> keeps (once_rel tabs en) m"
  by (auto simp: keeps_def intro: quiet_once)

lemma once_record_effect:
  fixes en :: "'x engine"
  shows "keeps (once_rel tabs en) (on_store (op_record_effect S tenant key rid osid tool v))"
proof (rule on_store_keeps)
  fix s :: "('d, 'x) sys" and r d
  assume "op_record_effect S tenant key rid osid tool v (sy_store s) = (r, d)"
  then show "once_rel tabs en s (s\<lparr>sy_store := d\<rparr>)"
    by (auto intro!: once_quiet record_grows)
qed

lemmas once_prim = quiet_prim [THEN once_keeps_quiet]

text \<open>Whether the key has a result matters when it was looked up, at \<open>s0\<close>; the approval that may
  lie between can take any time.\<close>

lemma once_tool_act:
  assumes "tool_act E S step name tool key args s = (r, s')" and "quiet_rel effects_grow tabs s0 s"
    and "tr_tools (sy_reg s0) name = Some tool" and "t_side_effect tool \<Longrightarrow> \<not> ledgered key (tabs (sy_store s0))"
  shows "once_rel tabs en s0 s'"
  using assms(1) unfolding tool_act_def
proof (rule once.bindc_at)
  fix r1 s1
  assume "exec_tool E name
    (if t_side_effect tool then AList.update ''_idempotency_key'' (PStr key) args else args) s = (r1, s1)"
  then show "once_rel tabs en s0 s1"
    by (rule once_exec_tool_since) (use assms(2-4) in \<open>auto simp: quiet_rel_def\<close>)
qed (intro once.keeps_rules once_prim once_record_effect)

lemma once_run_tool: "keeps (once_rel tabs en) (run_tool E S en step)"
proof (rule keepsI)
  fix s r s'
  assume "run_tool E S en step s = (r, s')"
  then show "once_rel tabs en s s'"
  proof (cases rule: run_tool_cases)
    case (acted name tool args s1 s2)
    then have "quiet_rel effects_grow tabs s s2"
      by (blast intro: quiet_trans dest: keepsD [OF quiet_consult] keepsD [OF quiet_gate])
    from acted(6) this acted(2) consult_None_fresh [OF acted(4)] show ?thesis by (rule once_tool_act)
  next
    case denied
    then show ?thesis
      by (blast intro: quiet_once once.frame_trans dest: keepsD [OF quiet_consult] keepsD [OF quiet_gate])
  qed (blast intro: once.frame_refl quiet_once once.frame_trans dest: keepsD [OF quiet_consult] keepsD [OF quiet_replay])+
qed

lemma check_allows_listed:
  "d_effect (check pe agent tool args context) = ALLOW \<Longrightarrow> t_name tool \<in> set (a_tools agent)"
  by (auto simp: check_def split: if_splits)

lemma once_gated_call:
  assumes "agent_reachable en name \<or> d_effect decision \<noteq> ALLOW"
  shows "keeps (once_rel tabs en) (gated_call E agent name tool args cid decision)"
proof -
  have "keeps (once_rel tabs en) (exec_tool E name args)" if "d_effect decision = ALLOW"
    using assms that by (auto intro!: keepsI once_exec_tool)
  then show ?thesis
    unfolding gated_call_def by (intro once.keeps_rules once_prim; simp)
qed

lemma once_exec_call:
  fixes en :: "'x engine"
  assumes "en_agents en n = Some agent"
  shows "keeps (once_rel tabs en) (exec_call E en agent call)"
proof (rule keepsI)
  fix s :: "('d, 'x) sys" and r s'
  assume "exec_call E en agent call s = (r, s')"
  then show "once_rel tabs en s s'"
  proof (cases rule: exec_call_cases)
    case early
    then show ?thesis by (simp add: once.frame_refl)
  next
    case (gated name tool args cid)
    show ?thesis
    proof (cases "registry_inv (sy_reg s)")
      case True
      with gated(1) have "t_name tool = name" by (simp add: registry_inv_def)
      then have "agent_reachable en name \<or> d_effect (check (en_policy en) agent tool args (r_context (sy_run s))) \<noteq> ALLOW"
        using assms check_allows_listed by (metis agent_reachable_def)
      from keepsD [OF once_gated_call [OF this] gated(2)] show ?thesis .
    qed (simp add: once_rel_def)
  qed
qed

lemma once_orch: "orch_frame (once_rel tabs en) E S en"
proof (unfold_locales, goal_cases)
  case 7
  show ?case by (rule once_keeps_quiet [OF quiet_checkpoint])
qed (rule once.frame_refl once.frame_trans once_prim once_keeps_quiet [OF quiet_outside] once_exec_call
       once_keeps_quiet [OF quiet_approval] once_run_tool
       once_keeps_quiet [OF quiet_on_store, OF Q_load_run]
       once_keeps_quiet [OF quiet_on_store, OF Q_create_or_get_run]; assumption)+

lemma once_serve: "keeps (once_rel tabs en) (serve E S en q)"
  by (cases q; simp only: serve.simps;
      intro once.keeps_rules orch_frame.fire_keeps [OF once_orch] orch_frame.resume_run_keeps [OF once_orch]
        once_keeps_quiet quiet_on_store; erule Q_ops)

lemma once_serve_all: "once_rel tabs en s (serve_all E S en qs s)"
proof (induction qs arbitrary: s)
  case Nil
  then show ?case by (simp add: once.frame_refl)
next
  case (Cons q qs)
  then show ?case
    by (auto split: prod.splits sum.splits dest!: keepsD [OF once_serve] intro: once.frame_trans)
qed

text \<open>The runner of a worker process, which has no approver.\<close>

lemma once_runner_resume: "keeps (once_rel tabs en) (runner_resume E S en flows tenant rid)"
proof -
  have "fresh_call (en\<lparr>en_approval_fn := None\<rparr>) = fresh_call en"
    by (simp add: fun_eq_iff fresh_call_def agent_reachable_def)
  then have same: "once_rel tabs (en\<lparr>en_approval_fn := None\<rparr>) = once_rel tabs en" by (intro ext) (simp add: once_rel_def)
  have "keeps (once_rel tabs en) (resume E S (en\<lparr>en_approval_fn := None\<rparr>) flow)" for flow
    using drive_frame.resume_keeps [OF orch_frame.axioms(1), OF once_orch [of "en\<lparr>en_approval_fn := None\<rparr>"]] same by simp
  then show ?thesis
    unfolding runner_resume_def
    by (intro once.keeps_rules once_prim once_keeps_quiet [OF quiet_on_store, OF Q_load_run]
        once_keeps_quiet [OF quiet_modify]; (assumption | simp add: quiet_same))
qed

text \<open>The contract holds for a thread that shares the store, and for one that may die.\<close>

lemma grow_perform: "effects_grow (tabs d) (tabs (perform S call d))"
  by (cases call) (simp_all add: Q_ops [OF prod.collapse [symmetric]] record_grows [OF prod.collapse [symmetric]])

lemma grow_turn: "effects_grow (tabs (fst s)) (tabs (turn S s))"
  by (rule turn_keeps) (blast intro: grow_perform effects_grow_trans, simp)

lemma shared_ledger: "ledger_store (shared_ops S) (tabs \<circ> fst)"
proof (unfold_locales, goal_cases)
  case (14 tenant key d d')
  then have "\<not> ledgered key (tabs (turn S d))"
    by (auto simp: shared_ops_def elim!: shared_cases dest: lookup_none)
  then show ?case using ledgered_grow [OF grow_turn, of key d] by auto
qed (auto simp: shared_ops_def elim!: shared_cases
       intro: Q_ops record_grows effects_grow_trans effects_grow_trans [OF grow_turn])

lemma crash_ledger: "ledger_store (crash_ops S) (tabs \<circ> fst)"
proof (unfold_locales, goal_cases)
  case (14 tenant key d d')
  then show ?case by (auto simp: crash_ops_def crashed_def elim!: dies_cases dest: lookup_none)
qed (auto simp: crash_ops_def elim!: dies_cases intro: Q_ops record_grows effects_grow_trans)

end

text \<open>A store nobody else uses keeps the ledger exactly; its lookups are of what is there.\<close>

sublocale store < exact: ledger_frame S tabs "\<lambda>a b. tb_effects b = tb_effects a"
  by unfold_locales (auto dest: store_laws)

sublocale store < ledger_store S tabs
proof unfold_locales
  fix tenant key d d'
  assume "op_get_effect S tenant key d = (Inr PNone, d')"
  from get_effect_law [OF this] show "\<not> ledgered key (tabs d)"
    by (auto simp: crashed_def effect_result_def ledgered_def split: option.splits if_splits)
qed (auto dest!: store_laws intro: effects_grow_insert effects_grow_trans effects_grow_same split: if_splits)

context store
begin

text \<open>A mutating step that returns has its result in the ledger.\<close>

lemma gate_same_steps: "keeps same_steps (tool_gate S en step name tool args)"
  unfolding tool_gate_def by (intro same_steps.step_rules)

lemma tool_act_records:
  assumes "tool_act E S step name tool key args s = (Inr nxt, s')" and "t_side_effect tool"
    and "effect_row key (tabs (sy_store s)) = None"
  shows "\<exists>row. effect_row key (tabs (sy_store s')) = Some row \<and> fx_tenant_id row = r_tenant_id (sy_run s) \<and>
    map_of (r_context (sy_run s')) (s_id step) = Some (fx_result row)"
proof -
  obtain v s1 d where ex: "exec_tool E name (AList.update ''_idempotency_key'' (PStr key) args) s = (Inr v, s1)"
    and rec: "op_record_effect S (r_tenant_id (sy_run s1)) key (r_id (sy_run s1)) (Some (s_id step)) name v (sy_store s1)
               = (Inr (), d)"
    and s': "sy_store s' = d" "r_context (sy_run s') = AList.update (s_id step) v (r_context (sy_run s1))"
    using assms(1,2)
    by (auto simp: tool_act_def bindc_eq_Inr on_store_Inr eng_prims)
  from ex have "sy_store s1 = sy_store s" "sy_run s1 = sy_run s"
    by (auto simp: exec_tool_def zoom_def split: prod.splits)
  with record_effect_law [OF rec] assms(3) s' show ?thesis
    by (auto simp: effect_row_def insert_effect_def find_append)
qed

lemma run_tool_records:
  assumes "run_tool E S en step s = (Inr nxt, s')" and "s_tool step = Some name"
    and "tr_tools (sy_reg s) name = Some tool" and "t_side_effect tool"
    and "\<And>row. effect_row (effect_key (sy_run s) step name) (tabs (sy_store s)) = Some row \<Longrightarrow> fx_result row \<noteq> PNone"
  shows "\<exists>row. effect_row (effect_key (sy_run s) step name) (tabs (sy_store s')) = Some row \<and>
    fx_tenant_id row = r_tenant_id (sy_run s) \<and>
    map_of (r_context (sy_run s')) (s_id step) = Some (fx_result row)"
  using assms(1)
proof (cases rule: run_tool_cases)
  case (replay n t cached s1)
  obtain d where d: "op_get_effect S (r_tenant_id (sy_run s)) (effect_key (sy_run s) step name) (sy_store s) = (Inr cached, d)"
    and s1: "s1 = s\<lparr>sy_store := d\<rparr>"
    using replay assms(2-4) by (auto simp: consult_def on_store_apply split: prod.splits)
  with get_effect_law [OF d] replay assms(2) show ?thesis
    by (auto simp: effect_result_def replay_effect_def eng_prims split: option.splits if_splits)
next
  case (acted n t args s1 s2)
  have q: "quiet_rel (\<lambda>a b. tb_effects b = tb_effects a) tabs s s2"
    using acted by (blast intro: exact.quiet_trans dest: keepsD [OF exact.quiet_consult] keepsD [OF exact.quiet_gate])
  have "r_tenant_id (sy_run s2) = r_tenant_id (sy_run s)"
    using keepsD [OF gate_same_steps acted(5)] acted(4)
    by (auto simp: same_steps_def consult_def on_store_apply split: prod.splits if_splits)
  moreover have "effect_row (effect_key (sy_run s) step name) (tabs (sy_store s2)) = None"
    using q consult_None_fresh [OF acted(4)] acted(1,2) assms(2-5)
    by (auto simp: quiet_rel_def ledgered_def effect_row_def split: option.splits)
  ultimately show ?thesis
    using tool_act_records [OF acted(6)] acted(1,2) assms(2-4) by auto
qed (use assms in auto)

end

interpretation cluster: ledger_store "crash_ops (shared_ops (sqlite_ops E))" "sq_db \<circ> fst \<circ> fst" for E
  by (intro ledger_store.crash_ledger ledger_store.shared_ledger sqlite.ledger_store_axioms)

section \<open>Across threads and lifetimes\<close>

text \<open>What a deployment's life keeps: ledger rows, and no call with a key that has a result.\<close>

lemma cluster_step_once:
  assumes "cluster_step E en T (d, w) (d', w')"
  shows "effects_grow (sq_db d) (sq_db d') \<and>
    (\<exists>new. execs w' = execs w @ new \<and> fresh_calls en \<lparr>tr_tools = T, tr_connectors = Map.empty\<rparr> (sq_db d) new)"
  using assms
proof cases
  case (worker reg qs sched n m ids s')
  have "once_rel (sq_db \<circ> fst \<circ> fst) en (fresh_sys ((d, sched), n) reg w m ids) s'"
    using cluster.once_serve_all [of en "fresh_sys ((d, sched), n) reg w m ids" E E qs] worker by simp
  with worker show ?thesis
    by (auto simp: once_rel_def fresh_sys_def fresh_call_def cong: list.pred_cong)
next
  case (rival call)
  then show ?thesis by (auto intro: sqlite.grow_perform)
qed auto

lemma cluster_steps_once:
  assumes "(cluster_step E en T)\<^sup>*\<^sup>* (d, w) (d', w')"
  shows "effects_grow (sq_db d) (sq_db d') \<and>
    (\<exists>new. execs w' = execs w @ new \<and> fresh_calls en \<lparr>tr_tools = T, tr_connectors = Map.empty\<rparr> (sq_db d) new)"
  using assms
proof (induction "(d', w')" arbitrary: d' w' rule: rtranclp_induct)
  case base
  then show ?case by simp
next
  case (step y)
  obtain d1 w1 where y: "y = (d1, w1)" by (cases y)
  from step(3) [OF y] cluster_step_once [OF step(2) [unfolded y]]
  show ?case
    by (auto intro: effects_grow_trans fresh_calls_before)
qed

section \<open>Properties\<close>

text \<open>C1: a side effect whose result is recorded is not repeated, across crashes and threads.  Let the ledger hold a
  result under a key.  Whatever threads and processes work on that database afterwards, in any
  number, serving any requests, interleaved at any store operation and dying at any one, none
  of them ever calls a mutating tool that only workflow steps reach with that idempotency key.\<close>

theorem exactly_once_across_crashes:
  assumes "(cluster_step E en T)\<^sup>*\<^sup>* (d, w) (d', w')" and "ledgered key (sq_db d)"
  shows "\<exists>new. execs w' = execs w @ new \<and>
    (\<forall>name args t. (name, args) \<in> set new \<and> T name = Some t \<and> t_side_effect t \<and> \<not> agent_reachable en name \<longrightarrow>
       (\<exists>key'. map_of args ''_idempotency_key'' = Some (PStr key') \<and> key' \<noteq> key))"
  using cluster_steps_once [OF assms(1)] assms(2)
  by (fastforce simp: fresh_call_def list_all_iff)

text \<open>A thread that resumes the run while another cancels a run and records an effect.\<close>

definition contended :: "(((SQLiteStore \<times> StoreCall list list) \<times> nat), accounting) sys" where
  "contended = serve_all demo_env (crash_ops (shared_ops (sqlite_ops demo_env))) (mock_engine None)
     [Resume acme ''run_1'' build_workflow]
     (fresh_sys ((dead_db, [[CancelRun ''acme'' ''run_0''], [RecordEffect ''acme'' ''k'' ''run_1'' None ''t'' posted]]), 7)
       demo_registry demo_world new_metrics 0)"

theorem exactly_once_across_crashes_witness:
  "\<not> agent_reachable (mock_engine None) ''create_ap_entry'' \<and>
   (\<exists>new. execs (sy_world contended) = execs demo_world @ new \<and>
    (\<forall>name args t. (name, args) \<in> set new \<and> tr_tools demo_registry name = Some t \<and> t_side_effect t \<and>
       \<not> agent_reachable (mock_engine None) name \<longrightarrow>
       (\<exists>key'. map_of args ''_idempotency_key'' = Some (PStr key') \<and> key' \<noteq> ''run_1:post:create_ap_entry'')))"
proof
  show "\<not> agent_reachable (mock_engine None) ''create_ap_entry''"
    by (auto simp: agent_reachable_def mock_engine_def build_agents_def mk_agent_def split: if_splits)
next
  have "cluster_step demo_env (mock_engine None) (tr_tools demo_registry) (dead_db, demo_world)
      (fst (fst (sy_store contended)), sy_world contended)"
    by (rule worker [OF demo_registry_inv refl contended_def [symmetric]])
  moreover have "ledgered ''run_1:post:create_ap_entry'' (sq_db dead_db)" by code_simp
  ultimately show "\<exists>new. execs (sy_world contended) = execs demo_world @ new \<and>
    (\<forall>name args t. (name, args) \<in> set new \<and> tr_tools demo_registry name = Some t \<and> t_side_effect t \<and>
       \<not> agent_reachable (mock_engine None) name \<longrightarrow>
       (\<exists>key'. map_of args ''_idempotency_key'' = Some (PStr key') \<and> key' \<noteq> ''run_1:post:create_ap_entry''))"
    by (intro exactly_once_across_crashes) auto
qed

text \<open>A replayed step does not act.  If the ledger holds a result of the run's tenant under
  the step's key, the step returns that result without consulting the policy, asking for
  approval or calling the tool: the world, the registry and the store are as before, and the
  only event says that the result was replayed.\<close>

lemma tool_step_replays:
  assumes "s_tool step = Some name" and "tr_tools (sy_reg s) name = Some tool" and "t_side_effect tool"
    and "resolve (s_args step) (r_context (sy_run s)) = Inr args"
    and "effect_row (effect_key (sy_run s) step name) (sq_db (sy_store s)) = Some row"
    and "fx_tenant_id row = r_tenant_id (sy_run s)" and "fx_result row \<noteq> PNone"
  shows "run_tool E (sqlite_ops E) en step s = (Inr (s_next step), s\<lparr>
     sy_buffer := sy_buffer s @ [\<lparr>ev_run_id = r_id (sy_run s), ev_tenant_id = r_tenant_id (sy_run s),
       ev_type = ''tool_result_replayed'', ev_payload = [(''tool'', PStr name), (''result'', fx_result row)],
       ev_step_id = Some (s_id step), ev_actor = ''system'', ev_cost_usd = 0, ev_seq = 0\<rparr>],
     sy_run := (sy_run s)\<lparr>r_context := AList.update (s_id step) (fx_result row) (r_context (sy_run s))\<rparr>\<rparr>)"
  using assms
  by (simp add: run_tool_def get_tool_def bindc_apply on_store_apply get_effect_def query_def Let_def
      replay_effect_def emit_def set_context_def)

text \<open>What a mutating step returns is what the ledger replays.  When a mutating tool step
  returns, the value it put into the run's context is the result the ledger holds under its
  key, so a later replay of the step gives the same value.\<close>

lemma tool_step_records:
  assumes "run_tool E (sqlite_ops E) en step s = (Inr nxt, s')" and "s_tool step = Some name"
    and "tr_tools (sy_reg s) name = Some tool" and "t_side_effect tool"
    and "\<And>row. effect_row (effect_key (sy_run s) step name) (sq_db (sy_store s)) = Some row \<Longrightarrow> fx_result row \<noteq> PNone"
  shows "\<exists>row. effect_row (effect_key (sy_run s) step name) (sq_db (sy_store s')) = Some row \<and>
    fx_tenant_id row = r_tenant_id (sy_run s) \<and>
    map_of (r_context (sy_run s')) (s_id step) = Some (fx_result row)"
  by (rule sqlite.run_tool_records) (rule assms; assumption?)+

text \<open>A result of \<open>None\<close> is not recognised: the step asks the policy and runs the tool again, although the
  ledger has a row for it.\<close>

lemma none_result_runs_again:
  assumes "s_tool step = Some name" and "tr_tools (sy_reg s) name = Some tool" and "t_side_effect tool"
    and "resolve (s_args step) (r_context (sy_run s)) = Inr args"
    and "effect_row (effect_key (sy_run s) step name) (sq_db (sy_store s)) = Some row"
    and "fx_tenant_id row = r_tenant_id (sy_run s)" and "fx_result row = PNone"
  shows "run_tool E (sqlite_ops E) en step s =
    seqc (tool_gate (sqlite_ops E) en step name tool args)
      (tool_act E (sqlite_ops E) step name tool (effect_key (sy_run s) step name) args) s"
  using assms
  by (simp add: run_tool_def get_tool_def bindc_apply on_store_apply get_effect_def query_def Let_def)

text \<open>Two threads that reach the step at the same time both find no result and both act, with the
  same key: the ledger keeps the result that is recorded first, and it is left to the tool to
  recognise the key.\<close>

lemma overlapping_steps_both_act:
  "case run_tool demo_env (shared_ops (sqlite_ops demo_env)) (mock_engine None) post_step
      ((fresh_sys (new_sqlite, [[], [RecordEffect ''acme'' ''run_1:post:create_ap_entry'' ''run_1'' (Some ''post'')
          ''create_ap_entry'' posted]]) demo_registry demo_world new_metrics 0)\<lparr>sy_run := dead_run\<rparr>) of
     (r, s) \<Rightarrow>
      map (\<lambda>(name, args). (name, map_of args ''_idempotency_key'')) (execs (sy_world s)) =
        [(''create_ap_entry'', Some (PStr ''run_1:post:create_ap_entry''))] \<and>
      map fx_result (tb_effects (sq_db (fst (sy_store s)))) = [posted]"
  by code_simp

end
