(* ===== verification/Gate.thy ===== *)
theory Gate
  imports Ledger
begin

text \<open>
  The policy gate is on every path to a tool.

  \<open>gate_rel\<close> says that each call made through the registry was permitted: an agent's call by
  a policy that allows it to that agent, a step's call by a policy that allows it to the
  system principal, or one that asks for approval together with an approved request for
  this very run and step in the store.
\<close>

section \<open>Permission\<close>

definition approved :: "string \<Rightarrow> string \<Rightarrow> string \<Rightarrow> tables \<Rightarrow> bool" where
  "approved tenant rid sid tb \<longleftrightarrow>
     (\<exists>row\<in>set (tb_approvals tb). ap_tenant_id row = tenant \<and> ap_run_id row = rid \<and> ap_step_id row = sid \<and>
        ap_status row = AP_APPROVED)"

definition permitted_agent :: "'x engine \<Rightarrow> (string \<rightharpoonup> 'x Tool) \<Rightarrow> string \<times> pydict \<Rightarrow> bool" where
  "permitted_agent en T call \<longleftrightarrow>
     (\<exists>tool n agent ctx. T (fst call) = Some tool \<and> en_agents en n = Some agent \<and>
        d_effect (check (en_policy en) agent tool (snd call) ctx) = ALLOW)"

text \<open>The arguments a step's tool is called with, from the step's resolved arguments.\<close>

definition step_args :: "Run \<Rightarrow> Step \<Rightarrow> string \<Rightarrow> 'x Tool \<Rightarrow> pydict \<Rightarrow> pydict" where
  "step_args run step name tool args =
     (if t_side_effect tool then AList.update ''_idempotency_key'' (PStr (effect_key run step name)) args else args)"

definition permitted_step :: "'x engine \<Rightarrow> (string \<rightharpoonup> 'x Tool) \<Rightarrow> Run \<Rightarrow> tables \<Rightarrow> string \<times> pydict \<Rightarrow> bool" where
  "permitted_step en T run tb call \<longleftrightarrow>
     (\<exists>tool step args ctx. T (fst call) = Some tool \<and> s_tool step = Some (fst call) \<and>
        snd call = step_args run step (fst call) tool args \<and>
        (let effect = d_effect (check (en_policy en) (system_agent (fst call)) tool args ctx)
         in effect = ALLOW \<or> effect = REQUIRE_APPROVAL \<and> approved (r_tenant_id run) (r_id run) (s_id step) tb))"

definition approvals_stay :: "tables \<Rightarrow> tables \<Rightarrow> bool" where
  "approvals_stay tb tb' \<longleftrightarrow>
     (\<forall>row\<in>set (tb_approvals tb). ap_status row = AP_APPROVED \<longrightarrow> row \<in> set (tb_approvals tb'))"

definition same_run :: "Run \<Rightarrow> Run \<Rightarrow> bool" where
  "same_run run run' \<longleftrightarrow> r_id run' = r_id run \<and> r_tenant_id run' = r_tenant_id run"

definition gate_rel :: "('d \<Rightarrow> tables) \<Rightarrow> 'x engine \<Rightarrow> ('d, 'x) sys \<Rightarrow> ('d, 'x) sys \<Rightarrow> bool" where
  "gate_rel tabs en s s' \<longleftrightarrow>
     same_run (sy_run s) (sy_run s') \<and> tr_tools (sy_reg s') = tr_tools (sy_reg s) \<and>
     approvals_stay (tabs (sy_store s)) (tabs (sy_store s')) \<and>
     (\<exists>new. execs (sy_world s') = execs (sy_world s) @ new \<and>
        (\<forall>call\<in>set new. permitted_agent en (tr_tools (sy_reg s)) call \<or>
           permitted_step en (tr_tools (sy_reg s)) (sy_run s) (tabs (sy_store s')) call))"

lemma same_run_refl [simp]: "same_run run run"
  by (simp add: same_run_def)

lemma approvals_stay_refl [simp]: "approvals_stay tb tb"
  by (simp add: approvals_stay_def)

lemma approvals_stay_same: "tb_approvals tb' = tb_approvals tb \<Longrightarrow> approvals_stay tb tb'"
  by (simp add: approvals_stay_def)

lemma approvals_stay_trans: "approvals_stay a b \<Longrightarrow> approvals_stay b c \<Longrightarrow> approvals_stay a c"
  by (simp add: approvals_stay_def)

lemma approved_stay: "approvals_stay tb tb' \<Longrightarrow> approved tenant rid sid tb \<Longrightarrow> approved tenant rid sid tb'"
  by (auto simp: approvals_stay_def approved_def)

lemma effect_key_same: "same_run run run' \<Longrightarrow> effect_key run' = effect_key run"
  by (auto simp: effect_key_def same_run_def fun_eq_iff)

lemma permitted_step_stay:
  assumes "approvals_stay tb tb'" and "same_run run run'" and "permitted_step en T run' tb call"
  shows "permitted_step en T run tb' call"
proof -
  have "step_args run' = step_args run"
    using effect_key_same [OF assms(2)] by (intro ext) (simp add: step_args_def)
  moreover have "r_id run' = r_id run" "r_tenant_id run' = r_tenant_id run"
    using assms(2) by (simp_all add: same_run_def)
  ultimately show ?thesis
    using assms(3) approved_stay [OF assms(1)] unfolding permitted_step_def Let_def by metis
qed

lemma gate_frame: "frame (gate_rel tabs en)"
proof
  fix s show "gate_rel tabs en s s" by (simp add: gate_rel_def)
next
  fix s t u
  assume st: "gate_rel tabs en s t" and tu: "gate_rel tabs en t u"
  obtain n1 where n1: "execs (sy_world t) = execs (sy_world s) @ n1"
      "\<forall>call\<in>set n1. permitted_agent en (tr_tools (sy_reg s)) call \<or>
         permitted_step en (tr_tools (sy_reg s)) (sy_run s) (tabs (sy_store t)) call"
    using st by (auto simp: gate_rel_def)
  obtain n2 where n2: "execs (sy_world u) = execs (sy_world t) @ n2"
      "\<forall>call\<in>set n2. permitted_agent en (tr_tools (sy_reg t)) call \<or>
         permitted_step en (tr_tools (sy_reg t)) (sy_run t) (tabs (sy_store u)) call"
    using tu by (auto simp: gate_rel_def)
  have runs: "same_run (sy_run s) (sy_run t)" "same_run (sy_run t) (sy_run u)"
    and stay: "approvals_stay (tabs (sy_store s)) (tabs (sy_store t))" "approvals_stay (tabs (sy_store t)) (tabs (sy_store u))"
    and reg: "tr_tools (sy_reg t) = tr_tools (sy_reg s)" "tr_tools (sy_reg u) = tr_tools (sy_reg t)"
    using st tu by (auto simp: gate_rel_def)
  have "\<forall>call\<in>set (n1 @ n2). permitted_agent en (tr_tools (sy_reg s)) call \<or>
      permitted_step en (tr_tools (sy_reg s)) (sy_run s) (tabs (sy_store u)) call"
    using n1(2) n2(2) [unfolded reg(1)] permitted_step_stay [OF stay(2) same_run_refl]
      permitted_step_stay [OF approvals_stay_refl runs(1)] unfolding set_append ball_Un by meson
  then show "gate_rel tabs en s u"
    using n1(1) n2(1) runs stay reg
    by (auto simp: gate_rel_def same_run_def intro: approvals_stay_trans)
qed

interpretation gate: frame "gate_rel tabs en" for tabs en
  by (rule gate_frame)

section \<open>Steps that call no tool\<close>

definition calm_rel :: "('d \<Rightarrow> tables) \<Rightarrow> ('d, 'x) sys \<Rightarrow> ('d, 'x) sys \<Rightarrow> bool" where
  "calm_rel tabs s s' \<longleftrightarrow> same_run (sy_run s) (sy_run s') \<and> sy_reg s' = sy_reg s \<and>
     execs (sy_world s') = execs (sy_world s) \<and> approvals_stay (tabs (sy_store s)) (tabs (sy_store s'))"

interpretation calm: frame "calm_rel tabs" for tabs
  by unfold_locales (auto simp: calm_rel_def same_run_def intro: approvals_stay_trans)

lemma calm_gate: "calm_rel tabs s s' \<Longrightarrow> gate_rel tabs en s s'"
  by (simp add: calm_rel_def gate_rel_def)

lemma gate_keeps_calm: "keeps (calm_rel tabs) m \<Longrightarrow> keeps (gate_rel tabs en) m"
  by (auto simp: keeps_def intro: calm_gate)

lemma calm_modify: "(\<And>s. calm_rel tabs s (f s)) \<Longrightarrow> keeps (calm_rel tabs) (modify f)"
  by (rule calm.keeps_modify)

lemma calm_outside: "keeps (calm_rel tabs) (outside f)"
  by (rule outside_keeps) (simp add: calm_rel_def)

lemma calm_on_store:
  "(\<And>d r d'. m d = (r, d') \<Longrightarrow> approvals_stay (tabs d) (tabs d')) \<Longrightarrow> keeps (calm_rel tabs) (on_store m)"
  by (rule on_store_keeps) (simp add: calm_rel_def)

lemma calm_prim:
  "keeps (calm_rel tabs) (emit ty p sid c a)" "keeps (calm_rel tabs) (metric nm l)"
  "keeps (calm_rel tabs) (set_status st)" "keeps (calm_rel tabs) (add_cost c)"
  "keeps (calm_rel tabs) (set_context k v)" "keeps (calm_rel tabs) (enter_step step)"
  "keeps (calm_rel tabs) (advance n)" "keeps (calm_rel tabs) (field k' v')"
  "keeps (calm_rel tabs) (replay_effect step name cached)"
  unfolding eng_prims enter_step_def advance_def replay_effect_def keeps_def
  by (auto simp: calm_rel_def same_run_def bindc_apply split: option.splits)

lemmas gate_prim = calm_prim [THEN gate_keeps_calm]

lemma decide_new_approval:
  assumes "approval_row (ap_id row) tb = None"
  shows "tb_approvals (decide_approval (ap_id row) st w nt t (insert_approval row tb)) =
    tb_approvals tb @ [row\<lparr>ap_status := st, ap_decided_by := Some w, ap_note := Some nt, ap_decided_at := Some t\<rparr>]"
proof -
  have "map (\<lambda>r. if ap_id r = ap_id row then g r else r) (tb_approvals tb) = tb_approvals tb" for g
    using assms by (intro map_idI) (auto simp: approval_row_def find_None_iff2)
  then show ?thesis by (simp add: decide_approval_def insert_approval_def)
qed

context store
begin

lemma approvals_unchanged:
  "op_get_effect S tenant key d = (rg, d') \<Longrightarrow> tb_approvals (tabs d') = tb_approvals (tabs d)"
  "op_record_effect S tenant key rid osid tool v d = (ru, d') \<Longrightarrow> tb_approvals (tabs d') = tb_approvals (tabs d)"
  "op_checkpoint S run evs d = (ru, d') \<Longrightarrow> tb_approvals (tabs d') = tb_approvals (tabs d)"
  "op_latest_approval S tenant rid sid d = (rl, d') \<Longrightarrow> tb_approvals (tabs d') = tb_approvals (tabs d)"
  by (auto dest!: store_laws split: if_splits)

lemma approvals_stay_create:
  "op_create_approval S tenant rid sid approvers d = (ra, d') \<Longrightarrow> approvals_stay (tabs d) (tabs d')"
  by (auto dest!: create_approval_law simp: approvals_stay_def insert_approval_def)

lemmas calm_ops = approvals_unchanged [THEN approvals_stay_same] approvals_stay_create

lemma calm_checkpoint: "keeps (calm_rel tabs) (engine_checkpoint S)"
  unfolding engine_checkpoint_def
  by (intro calm.keeps_rules calm_on_store calm_modify; (drule calm_ops | simp add: calm_rel_def); assumption?)

lemma calm_request: "keeps (calm_rel tabs) (request_approval S step approvers name args)"
  unfolding request_approval_def
  by (intro calm.keeps_rules calm_prim calm_on_store; drule calm_ops; assumption?)

lemma calm_async: "keeps (calm_rel tabs) (approve_async S step approvers name args)"
  unfolding approve_async_def
  by (intro calm.keeps_rules calm_prim calm_request calm_checkpoint calm_on_store; drule calm_ops; assumption?)

lemma request_approval_row:
  assumes "request_approval S step approvers name args s = (Inr aid, s')"
  shows "\<exists>row. tabs (sy_store s') = insert_approval row (tabs (sy_store s)) \<and> ap_id row = aid \<and>
    approval_row aid (tabs (sy_store s)) = None \<and> ap_tenant_id row = r_tenant_id (sy_run s) \<and>
    ap_run_id row = r_id (sy_run s) \<and> ap_step_id row = s_id step \<and> same_run (sy_run s) (sy_run s')"
  using assms
  by (auto simp: request_approval_def bindc_eq_Inr on_store_Inr eng_prims same_run_def dest!: create_approval_law)

lemma sync_request:
  assumes "approve_sync S f step approvers name args s = (r, s')"
  shows "calm_rel tabs s s' \<and>
    (r = Inr True \<longrightarrow> approved (r_tenant_id (sy_run s)) (r_id (sy_run s)) (s_id step) (tabs (sy_store s')))"
proof -
  obtain r1 s1 where req: "request_approval S step approvers name args s = (r1, s1)" by fastforce
  have c1: "calm_rel tabs s s1" using keepsD [OF calm_request req] .
  show ?thesis
  proof (cases r1)
    case (Inl e)
    with assms req c1 show ?thesis by (auto simp: approve_sync_def bindc_apply)
  next
    case aid: (Inr aid)
    obtain row where row: "tabs (sy_store s1) = insert_approval row (tabs (sy_store s))" "ap_id row = aid"
      "approval_row aid (tabs (sy_store s)) = None" "ap_tenant_id row = r_tenant_id (sy_run s)"
      "ap_run_id row = r_id (sy_run s)" "ap_step_id row = s_id step"
      using request_approval_row [OF req [unfolded aid]] by blast
    obtain r2 s2 where out: "outside (f (sy_run s1) step name args) s1 = (r2, s2)" by fastforce
    then have s2: "sy_store s2 = sy_store s1" "sy_run s2 = sy_run s1" "sy_reg s2 = sy_reg s1" "execs (sy_world s2) = execs (sy_world s1)"
      by (auto simp: outside_def zoom_def split: prod.splits)
    show ?thesis
    proof (cases r2)
      case (Inl e)
      with assms req aid out c1 s2 show ?thesis by (auto simp: approve_sync_def bindc_apply calm_rel_def)
    next
      case granted: (Inr granted)
      obtain r3 d where res: "op_resolve_approval S (r_tenant_id (sy_run s1)) aid granted ''approval_fn'' [] (sy_store s2) = (r3, d)"
        by fastforce
      have eff: "approvals_stay (tabs (sy_store s)) (tabs d) \<and> (r3 = Inr () \<and> granted \<longrightarrow>
          approved (r_tenant_id (sy_run s)) (r_id (sy_run s)) (s_id step) (tabs d))"
        using resolve_approval_law [OF res] c1 s2(1) row decide_new_approval [of row "tabs (sy_store s)"]
        by (auto simp: calm_rel_def approvals_stay_def approved_def)
      have s': "same_run (sy_run s1) (sy_run s')" "sy_reg s' = sy_reg s1" "execs (sy_world s') = execs (sy_world s1)"
          "sy_store s' = d" "r = Inr True \<longrightarrow> r3 = Inr () \<and> granted"
        using assms req aid out granted s2 res
        by (auto simp: approve_sync_def bindc_apply on_store_apply eng_prims same_run_def split: sum.splits prod.splits)
      from eff s' c1 show ?thesis by (auto simp: calm_rel_def same_run_def)
    qed
  qed
qed

lemma async_approved:
  assumes "approve_async S step approvers name args s = (Inr True, s')"
  shows "approved (r_tenant_id (sy_run s)) (r_id (sy_run s)) (s_id step) (tabs (sy_store s'))"
proof -
  obtain existing d where l: "op_latest_approval S (r_tenant_id (sy_run s)) (r_id (sy_run s)) (s_id step) (sy_store s) = (Inr existing, d)"
    using assms by (auto simp: approve_async_def bindc_eq_Inr on_store_Inr)
  obtain aid where "existing = Some (aid, AP_APPROVED)" and s': "sy_store s' = d"
    using assms l
    by (cases existing) (auto simp: approve_async_def bindc_apply on_store_apply eng_prims
        split: if_splits sum.splits prod.splits)
  with latest_approval_law [OF l] have "\<exists>row\<in>set (approvals_for (r_tenant_id (sy_run s)) (r_id (sy_run s)) (s_id step) (tabs (sy_store s))).
      ap_status row = AP_APPROVED" and "tabs d = tabs (sy_store s)"
    by (auto simp: is_latest_def) metis
  with s' show ?thesis by (auto simp: approved_def approvals_for_def)
qed

lemma calm_await: "keeps (calm_rel tabs) (await_approval S en step approvers name args)"
  unfolding await_approval_def
  by (auto intro!: calm_async keepsI dest: sync_request split: option.splits)

lemma await_approved:
  assumes "await_approval S en step approvers name args s = (Inr True, s')"
  shows "approved (r_tenant_id (sy_run s)) (r_id (sy_run s)) (s_id step) (tabs (sy_store s'))"
proof (cases "en_approval_fn en")
  case None
  with assms async_approved show ?thesis by (simp add: await_approval_def)
next
  case (Some f)
  with assms sync_request [of f step approvers name args s "Inr True" s'] show ?thesis by (simp add: await_approval_def)
qed

lemma calm_tool_gate: "keeps (calm_rel tabs) (tool_gate S en step name tool args)"
  unfolding tool_gate_def by (intro calm.keeps_rules calm_prim calm_await)

lemma tool_gate_permits:
  assumes "tool_gate S en step name tool args s = (Inr (), s')"
  shows "let effect = d_effect (check (en_policy en) (system_agent name) tool args (r_context (sy_run s)))
    in effect = ALLOW \<or> effect = REQUIRE_APPROVAL \<and>
       approved (r_tenant_id (sy_run s)) (r_id (sy_run s)) (s_id step) (tabs (sy_store s'))"
  using assms
  by (cases "d_effect (check (en_policy en) (system_agent name) tool args (r_context (sy_run s)))")
    (auto simp: tool_gate_def bindc_eq_Inr eng_prims split: if_splits dest!: await_approved)

lemma calm_consult: "keeps (calm_rel tabs) (consult S run tool key)"
  unfolding consult_def by (intro calm.keeps_rules calm_on_store; drule calm_ops; assumption?)

lemma gate_exec_tool:
  assumes "exec_tool E name args s = (r, s')"
    and "permitted_agent en (tr_tools (sy_reg s)) (name, args) \<or>
      permitted_step en (tr_tools (sy_reg s)) (sy_run s) (tabs (sy_store s)) (name, args)"
  shows "gate_rel tabs en s s'"
proof -
  obtain reg w where ex: "execute E name args (sy_reg s, sy_world s) = (r, (reg, w))"
    and s': "s' = s\<lparr>sy_reg := reg, sy_world := w\<rparr>"
    using assms(1) by (auto simp: exec_tool_def zoom_def split: prod.splits)
  then show ?thesis using execute_frame [OF ex] assms(2) by (auto simp: gate_rel_def)
qed

lemma gate_tool_act:
  assumes "tool_act E S step name tool (effect_key run step name) args s = (r, s')" and "same_run run (sy_run s)"
    and "s_tool step = Some name" and "tr_tools (sy_reg s) name = Some tool"
    and "let effect = d_effect (check (en_policy en) (system_agent name) tool args ctx)
      in effect = ALLOW \<or> effect = REQUIRE_APPROVAL \<and>
       approved (r_tenant_id run) (r_id run) (s_id step) (tabs (sy_store s))"
  shows "gate_rel tabs en s s'"
  using assms(1) unfolding tool_act_def
proof (rule gate.bindc_at)
  fix r1 s1
  assume ex: "exec_tool E name
    (if t_side_effect tool then AList.update ''_idempotency_key'' (PStr (effect_key run step name)) args else args) s = (r1, s1)"
  have "permitted_step en (tr_tools (sy_reg s)) run (tabs (sy_store s)) (name, step_args run step name tool args)"
    using assms(3-5) by (auto simp: permitted_step_def)
  then have "permitted_step en (tr_tools (sy_reg s)) (sy_run s) (tabs (sy_store s)) (name, step_args run step name tool args)"
    by (rule permitted_step_stay [OF approvals_stay_refl, rotated]) (use assms(2) in \<open>simp add: same_run_def\<close>)
  with ex show "gate_rel tabs en s s1" by (intro gate_exec_tool [OF ex]) (simp add: step_args_def)
qed (intro gate.keeps_rules gate_prim gate_keeps_calm calm_on_store; drule calm_ops; assumption?)

lemma gate_run_tool: "keeps (gate_rel tabs en) (run_tool E S en step)"
proof (rule keepsI)
  fix s r s'
  assume "run_tool E S en step s = (r, s')"
  then show "gate_rel tabs en s s'"
  proof (cases rule: run_tool_cases)
    case (acted name tool args s1 s2)
    have c: "calm_rel tabs s s1" "calm_rel tabs s1 s2"
      using acted by (auto dest: keepsD [OF calm_consult] keepsD [OF calm_tool_gate])
    have run: "r_tenant_id (sy_run s1) = r_tenant_id (sy_run s)" "r_id (sy_run s1) = r_id (sy_run s)"
      using c by (auto simp: calm_rel_def same_run_def)
    have "gate_rel tabs en s2 s'"
      by (rule gate_tool_act [OF acted(6), where ctx = "r_context (sy_run s1)"])
        (use c run acted tool_gate_permits [OF acted(5)] in \<open>auto simp: calm_rel_def same_run_def\<close>)
    with c show ?thesis by (blast intro: calm_gate gate.frame_trans)
  next
    case denied
    then show ?thesis
      by (blast intro: calm_gate gate.frame_trans dest: keepsD [OF calm_consult] keepsD [OF calm_tool_gate])
  qed (blast intro: gate.frame_refl calm_gate gate.frame_trans dest: keepsD [OF calm_consult] keepsD [OF calm_prim(9)])+
qed

lemma gate_exec_call:
  fixes en :: "'x engine"
  assumes "en_agents en n = Some agent"
  shows "keeps (gate_rel tabs en) (exec_call E en agent call)"
proof (rule keepsI)
  fix s :: "('d, 'x) sys" and r s'
  assume "exec_call E en agent call s = (r, s')"
  then show "gate_rel tabs en s s'"
  proof (cases rule: exec_call_cases)
    case early
    then show ?thesis by (simp add: gate.frame_refl)
  next
    case (gated name tool args cid)
    let ?d = "check (en_policy en) agent tool args (r_context (sy_run s))"
    show ?thesis
    proof (cases "d_effect ?d = ALLOW")
      case True
      let ?rest = "\<lambda>result. seqc (add_cost (t_cost_usd tool)) (seqc (metric ''tool.calls'' [(''tool'', name)])
        (seqc (emit ''tool_result'' [(''tool'', PStr name), (''result'', result)] None (t_cost_usd tool) (a_name agent))
          (ret (PDict [(''id'', cid), (''tool'', PStr name), (''result'', result)]))))"
      obtain s1 where s1: "calm_rel tabs s s1" and run: "bindc (exec_tool E name args) ?rest s1 = (r, s')"
      proof
        show "bindc (exec_tool E name args) ?rest (s\<lparr>sy_buffer := sy_buffer s @
            [\<lparr>ev_run_id = r_id (sy_run s), ev_tenant_id = r_tenant_id (sy_run s), ev_type = ''policy_decision'',
              ev_payload = [(''tool'', PStr name), (''effect'', PStr ''allow''), (''reason'', PStr (d_reason ?d))],
              ev_step_id = None, ev_actor = a_name agent, ev_cost_usd = 0, ev_seq = 0\<rparr>],
            sy_metrics := incr ''policy.decisions'' 1 [(''effect'', ''allow'')] (sy_metrics s)\<rparr>) = (r, s')"
          using gated(2) True by (simp add: gated_call_def seq_emit seq_metric)
      qed (simp add: calm_rel_def)
      have "permitted_agent en (tr_tools (sy_reg s1)) (name, args)"
        using s1 gated(1) assms True by (auto simp: permitted_agent_def calm_rel_def)
      then have "gate_rel tabs en s1 s'"
        using gate_exec_tool by (intro gate.bindc_at [OF run] gate.keeps_rules gate_prim) blast
      with s1 show ?thesis by (blast intro: calm_gate gate.frame_trans)
    next
      case False
      then have "keeps (gate_rel tabs en) (gated_call E agent name tool args cid ?d)"
        unfolding gated_call_def by (intro gate.keeps_rules gate_prim; simp)
      from keepsD [OF this gated(2)] show ?thesis .
    qed
  qed
qed

lemma gate_drive: "drive_frame (gate_rel tabs en) E S en"
proof (unfold_locales, goal_cases)
  case 7
  show ?case by (rule gate_keeps_calm [OF calm_checkpoint])
qed (rule gate.frame_refl gate.frame_trans gate_prim gate_keeps_calm [OF calm_outside] gate_exec_call
       gate_keeps_calm [OF calm_await] gate_run_tool; assumption)+

end

interpretation sqlite_gate: drive_frame "gate_rel (sq_db \<circ> fst) en" E "crash_ops (sqlite_ops E)" en for E en
  by (rule sqlite_crash.gate_drive)

section \<open>Properties\<close>

text \<open>C2: no tool runs without permission.  Driving a run, also one that is cut short by a crash
  at any store operation, calls a tool only if the policy engine allowed that call to an agent
  of the engine, or allowed it to the workflow's system principal, or asked for approval and
  the store holds an approved request of that tenant, run and step.\<close>

theorem calls_permitted:
  assumes "resume E (crash_ops (sqlite_ops E)) en flow s = (r, s')"
  shows "\<exists>new. execs (sy_world s') = execs (sy_world s) @ new \<and>
    (\<forall>call\<in>set new. permitted_agent en (tr_tools (sy_reg s)) call \<or>
       permitted_step en (tr_tools (sy_reg s)) (sy_run s) (sq_db (fst (sy_store s'))) call)"
  using keepsD [OF sqlite_gate.resume_keeps assms] by (simp add: gate_rel_def)

theorem calls_permitted_witness:
  "\<exists>new. execs (sy_world (snd (resume demo_env (crash_ops (sqlite_ops demo_env)) (mock_engine None) build_workflow
        ((fresh_sys (dead_db, 9) demo_registry demo_world new_metrics 0)\<lparr>sy_run := dead_run\<rparr>)))) = new \<and>
    (\<forall>call\<in>set new. permitted_agent (mock_engine None) (tr_tools demo_registry) call \<or>
       permitted_step (mock_engine None) (tr_tools demo_registry) dead_run
         (sq_db (fst (sy_store (snd (resume demo_env (crash_ops (sqlite_ops demo_env)) (mock_engine None) build_workflow
            ((fresh_sys (dead_db, 9) demo_registry demo_world new_metrics 0)\<lparr>sy_run := dead_run\<rparr>)))))) call)"
  using calls_permitted [OF outcome_eq [OF refl], of demo_env "mock_engine None" build_workflow
      "(fresh_sys (dead_db, 9) demo_registry demo_world new_metrics 0)\<lparr>sy_run := dead_run\<rparr>"]
  by (simp add: fresh_sys_def demo_world_def)

end
