(* ===== verification/StoreInvariant.thy ===== *)
theory StoreInvariant
  imports Service
begin

text \<open>
  The constraints of the schema hold in every database the service can reach: primary keys,
  one run per tenant and idempotency key, and event numbers that grow in insertion order.
\<close>

definition sq_inv :: "SQLiteStore \<Rightarrow> bool" where
  "sq_inv d \<longleftrightarrow> tables_inv (sq_seq d) (sq_db d)"

lemma sq_inv_new: "sq_inv new_sqlite"
  by (simp add: sq_inv_def tables_inv_def new_sqlite_def empty_tables_def)

section \<open>Statements keep the constraints\<close>

lemma tables_inv_map_runs:
  assumes "\<And>row. r_id (row_run (f row)) = r_id (row_run row)"
    and "\<And>row. r_tenant_id (row_run (f row)) = r_tenant_id (row_run row)"
    and "\<And>row. r_idempotency_key (row_run (f row)) = r_idempotency_key (row_run row)"
  shows "tables_inv n tb \<Longrightarrow> tables_inv n (tb\<lparr>tb_runs := map f (tb_runs tb)\<rparr>)"
  by (simp add: tables_inv_def comp_def assms)

lemma tables_inv_update_run: "tables_inv n tb \<Longrightarrow> tables_inv n (update_run run t tb)"
  unfolding update_run_def by (rule tables_inv_map_runs) (simp_all add: set_run_columns_def)

lemma tables_inv_update_status: "tables_inv n tb \<Longrightarrow> tables_inv n (update_status tenant i st t tb)"
  unfolding update_status_def by (rule tables_inv_map_runs) simp_all

lemma stamped_seq: "map (ev_seq \<circ> er_event) (stamped E n c evs) = map (\<lambda>k. n + 1 + int k) [0..<length evs]"
proof (induction evs arbitrary: n c)
  case (Cons ev evs)
  have "map (\<lambda>k. n + 1 + int k) [0..<Suc (length evs)] = (n + 1) # map (\<lambda>k. n + 1 + 1 + int k) [0..<length evs]"
    by (simp add: upt_conv_Cons map_Suc_upt [symmetric] del: upt_Suc)
  with Cons show ?case by simp
qed simp

lemma stamped_seq_bounds: "row \<in> set (stamped E n c evs) \<Longrightarrow> n < ev_seq (er_event row) \<and> ev_seq (er_event row) \<le> n + int (length evs)"
  by (induction evs arbitrary: n c) fastforce+

lemma tables_inv_log:
  assumes "tables_inv n tb"
  shows "tables_inv (n + int (length evs)) (log_events (stamped E n c evs) tb)"
proof -
  have "sorted_wrt (<) (map (ev_seq \<circ> er_event) (stamped E n c evs))"
    by (simp add: stamped_seq sorted_wrt_map sorted_wrt_upt)
  with assms show ?thesis
    using stamped_seq_bounds [of _ E n c evs] by (fastforce simp: tables_inv_def sorted_wrt_append)
qed

lemma tables_inv_insert_run:
  "tables_inv n tb \<Longrightarrow> run_row (r_id run) tb = None \<Longrightarrow>
     run_by_key (r_tenant_id run) (r_idempotency_key run) tb = None \<Longrightarrow> tables_inv n (insert_run run t tb)"
  by (auto simp: tables_inv_def insert_run_def run_row_def run_by_key_def find_None_iff2)

lemma tables_inv_insert_effect:
  "tables_inv n tb \<Longrightarrow> effect_row (fx_key row) tb = None \<Longrightarrow> tables_inv n (insert_effect row tb)"
  by (auto simp: tables_inv_def insert_effect_def effect_row_def find_None_iff2)

lemma tables_inv_insert_approval:
  "tables_inv n tb \<Longrightarrow> approval_row (ap_id row) tb = None \<Longrightarrow> tables_inv n (insert_approval row tb)"
  by (auto simp: tables_inv_def insert_approval_def approval_row_def find_None_iff2)

lemma tables_inv_decide: "tables_inv n tb \<Longrightarrow> tables_inv n (decide_approval i st w nt t tb)"
proof -
  have "map ap_id (tb_approvals (decide_approval i st w nt t tb)) = map ap_id (tb_approvals tb)"
    by (simp add: decide_approval_def)
  then show "tables_inv n tb \<Longrightarrow> ?thesis" by (simp add: tables_inv_def)
qed

lemma tables_inv_map_events:
  assumes "\<And>row. ev_seq (er_event (f row)) = ev_seq (er_event row)"
  shows "tables_inv n tb \<Longrightarrow> tables_inv n (tb\<lparr>tb_events := map f (tb_events tb)\<rparr>)"
  by (simp add: tables_inv_def comp_def assms)

lemma tables_inv_purge: "tables_inv n tb \<Longrightarrow> tables_inv n (purge_payloads tenant ts tb)"
  unfolding purge_payloads_def by (rule tables_inv_map_events) simp_all

lemma tables_inv_upsert: "tables_inv n tb \<Longrightarrow> tables_inv n (upsert_tenant tenant nm settings t tb)"
proof -
  have "map tnr_id (map (\<lambda>row. if tnr_id row = tenant then row\<lparr>tnr_name := nm\<rparr> else row) rows) = map tnr_id rows" for rows :: "TenantRow list"
    by (induction rows) simp_all
  then show "tables_inv n tb \<Longrightarrow> tables_inv n (upsert_tenant tenant nm settings t tb)"
    by (auto simp: tables_inv_def upsert_tenant_def simp del: map_map)
qed

lemmas tables_inv_statements = tables_inv_upsert tables_inv_update_run tables_inv_update_status tables_inv_log tables_inv_insert_run
  tables_inv_insert_effect tables_inv_insert_approval tables_inv_decide tables_inv_purge

section \<open>Operations keep the constraints\<close>

interpretation sqlite_inv: store_invariant "sqlite_ops E" sq_inv for E
proof (unfold_locales, goal_cases)
  case (6 run evs d ru d')
  then show ?case
    by (cases rule: checkpoint_cases [of run d evs E]) (auto simp: sq_inv_def intro!: tables_inv_log tables_inv_update_run)
next
  case (7 run d rc d')
  then show ?case
    by (cases rule: create_or_get_run_cases [of run d E]) (auto simp: sq_inv_def intro: tables_inv_statements)
next
  case (9 tenant rid d rb d')
  then show ?case
  proof (cases rule: cancel_run_cases [of rid d E tenant])
    case (canceled row)
    with 9 tables_inv_log [OF tables_inv_update_status, of "sq_seq d" "sq_db d" "[canceled_event tenant rid]"]
    show ?thesis by (auto simp: sq_inv_def)
  qed (auto simp: sq_inv_def)
qed (auto simp: sq_inv_def get_effect_def record_effect_def create_approval_def resolve_approval_def latest_approval_def
      load_run_def purge_event_payloads_def ensure_tenant_def assert_owns_eq sq_defs
      intro: tables_inv_statements split: option.splits if_splits sum.splits)

section \<open>Properties\<close>

text \<open>C12: the schema's constraints are invariants.  Every database a deployment reaches from an
  empty one, whatever requests its threads and processes serve, however their store operations
  interleave and wherever they die, has pairwise different run, approval and ledger keys, at
  most one run for a tenant and idempotency key, and event numbers that strictly grow in
  insertion order.\<close>

theorem reachable_tables_inv:
  assumes "(cluster_step E en T)\<^sup>*\<^sup>* (new_sqlite, w) (d, w')"
  shows "tables_inv (sq_seq d) (sq_db d)"
  using cluster_inv [OF assms sqlite_inv.store_invariant_axioms] by (simp add: sq_inv_new) (simp add: sq_inv_def)

theorem reachable_tables_inv_witness:
  "tables_inv (sq_seq (fst (fst (sy_store (serve_all demo_env (crash_ops (shared_ops (sqlite_ops demo_env))) (mock_engine None)
       [Fire acme build_workflow (invoice 8200)]
       (fresh_sys ((new_sqlite, [[CreateOrGetRun dead_run]]), 5) demo_registry demo_world new_metrics 0))))))
     (sq_db (fst (fst (sy_store (serve_all demo_env (crash_ops (shared_ops (sqlite_ops demo_env))) (mock_engine None)
       [Fire acme build_workflow (invoice 8200)]
       (fresh_sys ((new_sqlite, [[CreateOrGetRun dead_run]]), 5) demo_registry demo_world new_metrics 0))))))"
  by (rule reachable_tables_inv [where E = demo_env and en = "mock_engine None" and T = "tr_tools demo_registry" and w = demo_world])
    (rule r_into_rtranclp, rule worker [OF demo_registry_inv refl refl])

end
