(* ===== verification/Isolation.thy ===== *)
theory Isolation
  imports Service
begin

text \<open>
  Tenant isolation: what is done for one tenant leaves the rows of every other tenant alone,
  and what a tenant reads are its own rows.

  \<open>view_rel t0\<close> says that only rows of the tenant \<open>t0\<close> may have changed.  Approvals are
  decided by id, so the relation also carries that approval ids are pairwise different.
\<close>

section \<open>The rows of other tenants\<close>

definition approval_ids_distinct :: "tables \<Rightarrow> bool" where
  "approval_ids_distinct tb \<longleftrightarrow> distinct (map ap_id (tb_approvals tb))"

definition others_same :: "string \<Rightarrow> tables \<Rightarrow> tables \<Rightarrow> bool" where
  "others_same t0 tb tb' \<longleftrightarrow> (approval_ids_distinct tb \<longrightarrow>
     approval_ids_distinct tb' \<and> (\<forall>t. t \<noteq> t0 \<longrightarrow> tenant_view t tb' = tenant_view t tb))"

lemma others_same_refl [simp]: "others_same t0 tb tb"
  by (simp add: others_same_def)

lemma others_same_trans: "others_same t0 a b \<Longrightarrow> others_same t0 b c \<Longrightarrow> others_same t0 a c"
  by (auto simp: others_same_def)

lemma others_update_run: "others_same (r_tenant_id run) tb (update_run run t tb)"
  by (auto simp: others_same_def tenant_view_def approval_ids_distinct_def update_run_def set_run_columns_def
      intro!: filter_map_same split: if_splits)

lemma others_update_status: "others_same tenant tb (update_status tenant i st t tb)"
  by (auto simp: others_same_def tenant_view_def approval_ids_distinct_def update_status_def
      intro!: filter_map_same split: if_splits)

lemma logs_tenant: "logs evs rows \<Longrightarrow> row \<in> set rows \<Longrightarrow> \<exists>ev\<in>set evs. ev_tenant_id (er_event row) = ev_tenant_id ev"
  by (fastforce simp: logs_def list_all2_conv_all_nth in_set_conv_nth)

lemma others_log_events:
  assumes "logs evs rows" and "\<forall>ev\<in>set evs. ev_tenant_id ev = tenant"
  shows "others_same tenant tb (log_events rows tb)"
proof -
  have "filter (\<lambda>row. ev_tenant_id (er_event row) = t) rows = []" if "t \<noteq> tenant" for t
    using logs_tenant [OF assms(1)] assms(2) that by (fastforce simp: filter_empty_conv)
  then show ?thesis by (auto simp: others_same_def tenant_view_def approval_ids_distinct_def)
qed

lemma others_logged_update:
  "logs evs rows \<Longrightarrow> \<forall>ev\<in>set evs. ev_tenant_id ev = r_tenant_id run \<Longrightarrow>
     others_same (r_tenant_id run) tb (log_events rows (update_run run t tb))"
  "logs evs rows \<Longrightarrow> \<forall>ev\<in>set evs. ev_tenant_id ev = tenant \<Longrightarrow>
     others_same tenant tb (log_events rows (update_status tenant i st t tb))"
  using others_update_run others_update_status others_log_events others_same_trans by blast+

lemma others_insert_run: "others_same (r_tenant_id run) tb (insert_run run t tb)"
  by (auto simp: others_same_def tenant_view_def approval_ids_distinct_def insert_run_def)

lemma others_insert_effect: "others_same (fx_tenant_id row) tb (insert_effect row tb)"
  by (auto simp: others_same_def tenant_view_def approval_ids_distinct_def insert_effect_def)

lemma others_insert_approval:
  "approval_row (ap_id row) tb = None \<Longrightarrow> others_same (ap_tenant_id row) tb (insert_approval row tb)"
  by (auto simp: others_same_def tenant_view_def approval_ids_distinct_def insert_approval_def approval_row_def find_None_iff2)

lemma others_decide_approval:
  assumes "approval_row i tb = Some row"
  shows "others_same (ap_tenant_id row) tb (decide_approval i st w nt t tb)"
proof -
  have "row \<in> set (tb_approvals tb)" "ap_id row = i"
    using find_SomeD [OF assms [unfolded approval_row_def]] by auto
  then have "ap_tenant_id r = ap_tenant_id row"
    if "distinct (map ap_id (tb_approvals tb))" "r \<in> set (tb_approvals tb)" "ap_id r = i" for r
    using that by (metis (mono_tags) distinct_map inj_onD)
  moreover have "map ap_id (tb_approvals (decide_approval i st w nt t tb)) = map ap_id (tb_approvals tb)"
    by (simp add: decide_approval_def)
  ultimately show ?thesis
    by (auto simp: others_same_def tenant_view_def approval_ids_distinct_def decide_approval_def simp del: map_map
        intro!: filter_map_same split: if_splits)
qed

lemma others_purge: "others_same tenant tb (purge_payloads tenant ts tb)"
  by (auto simp: others_same_def tenant_view_def approval_ids_distinct_def purge_payloads_def purgeable_def
      intro!: filter_map_same split: if_splits)

lemma others_upsert: "others_same tenant tb (upsert_tenant i nm settings t tb)"
  by (simp add: others_same_def tenant_view_def approval_ids_distinct_def)

context store
begin

lemma others_ops:
  "op_get_effect S tenant key d = (rg, d') \<Longrightarrow> others_same tenant (tabs d) (tabs d')"
  "op_record_effect S tenant key rid osid tool v d = (ru, d') \<Longrightarrow> others_same tenant (tabs d) (tabs d')"
  "op_load_run S tenant rid d = (rr, d') \<Longrightarrow> others_same tenant (tabs d) (tabs d')"
  "op_create_approval S tenant rid sid approvers d = (ra, d') \<Longrightarrow> others_same tenant (tabs d) (tabs d')"
  "op_resolve_approval S tenant aid ok by_whom nt d = (ru, d') \<Longrightarrow> others_same tenant (tabs d) (tabs d')"
  "op_latest_approval S tenant rid sid d = (rl, d') \<Longrightarrow> others_same tenant (tabs d) (tabs d')"
  "op_purge_event_payloads S tenant ts d = (ri, d') \<Longrightarrow> others_same tenant (tabs d) (tabs d')"
  by (auto dest!: store_laws intro: others_insert_effect others_insert_approval others_decide_approval others_purge
      split: if_splits)

lemma others_checkpoint:
  "op_checkpoint S run evs d = (ru, d') \<Longrightarrow> others_same (r_tenant_id run) (tabs d) (tabs d')"
  by (auto dest!: checkpoint_law intro: others_logged_update)

lemma others_create: "op_create_or_get_run S run d = (rc, d') \<Longrightarrow> others_same (r_tenant_id run) (tabs d) (tabs d')"
  by (auto dest!: create_or_get_run_law intro: others_insert_run)

lemma others_cancel: "op_cancel_run S tenant rid d = (rb, d') \<Longrightarrow> others_same tenant (tabs d) (tabs d')"
  by (drule cancel_run_law, elim disjE exE conjE) (auto intro: others_logged_update(2))

end

section \<open>A run touches only its tenant's rows\<close>

context store
begin

lemma iso_scope: "run_scope S (\<lambda>t i d d'. others_same t (tabs d) (tabs d'))"
  by unfold_locales (auto intro: others_same_trans others_ops others_checkpoint)

lemma create_run_tenant:
  "op_create_or_get_run S run0 d = (Inr (run, created), d') \<Longrightarrow> r_tenant_id run = r_tenant_id run0"
  by (drule create_or_get_run_law) (auto simp: run_by_key_def dest: find_SomeD)

lemma load_run_tenant:
  "op_load_run S tenant rid d = (Inr (Some run), d') \<Longrightarrow>
     r_tenant_id run = tenant \<and> r_id run = rid \<and> (\<exists>row. run_row rid (tabs d) = Some row \<and> row_run row = run)"
  by (drule load_run_law) (auto simp: run_result_def run_row_def split: option.splits if_splits dest: find_SomeD)

lemma resume_others:
  "resume E S en flow s = (r, s') \<Longrightarrow> others_same (r_tenant_id (sy_run s)) (tabs (sy_store s)) (tabs (sy_store s'))"
  using run_scope.resume_scope [OF iso_scope] by blast

lemma serve_others:
  assumes "serve E S en q s = (r, s')"
  shows "others_same (request_tenant q) (tabs (sy_store s)) (tabs (sy_store s'))"
proof (cases q)
  case (Fire tenant flow trig)
  then obtain r' where "fire E S en tenant flow trig s = (r', s')"
    using assms by (auto simp: bindc_apply split: prod.splits sum.splits)
  then show ?thesis
  proof (cases rule: fire_cases)
    case (started run d s1)
    with Fire others_create [OF started(1)] create_run_tenant [OF started(1)] resume_others [OF started(2)]
    show ?thesis by (auto intro: others_same_trans)
  qed (use Fire others_create in fastforce)+
next
  case (Resume tenant rid flow)
  then obtain r' where "resume_run E S en tenant rid flow s = (r', s')"
    using assms by (auto simp: bindc_apply split: prod.splits sum.splits)
  then show ?thesis
  proof (cases rule: resume_run_cases)
    case (driven d run)
    with Resume others_ops(3) [OF driven(1)] load_run_tenant [OF driven(1)] resume_others [OF driven(3)]
    show ?thesis by (auto intro: others_same_trans)
  qed (use Resume others_ops(3) in fastforce)+
qed (use assms in \<open>auto simp: bindc_apply on_store_apply split: prod.splits sum.splits
      intro: others_cancel others_ops\<close>)

lemma serve_all_others:
  "\<forall>q\<in>set qs. request_tenant q \<noteq> t \<Longrightarrow> approval_ids_distinct (tabs (sy_store s)) \<Longrightarrow>
     approval_ids_distinct (tabs (sy_store (serve_all E S en qs s))) \<and>
     tenant_view t (tabs (sy_store (serve_all E S en qs s))) = tenant_view t (tabs (sy_store s))"
proof (induction qs arbitrary: s)
  case (Cons q qs)
  obtain r s1 where q: "serve E S en q s = (r, s1)" by fastforce
  with Cons.prems serve_others [OF q] have "approval_ids_distinct (tabs (sy_store s1))"
      "tenant_view t (tabs (sy_store s1)) = tenant_view t (tabs (sy_store s))"
    by (auto simp: others_same_def)
  with Cons q show ?case by (auto split: sum.splits)
qed simp

end

interpretation sqlite_iso: run_scope "crash_ops (sqlite_ops E)"
  "\<lambda>t i d d'. others_same t ((sq_db \<circ> fst) d) ((sq_db \<circ> fst) d')" for E
  by (rule sqlite_crash.iso_scope)

lemma mapc_row_to_run:
  "mapc (\<lambda>row. liftE (row_to_run row tenant)) rows s = (Inr runs, s') \<Longrightarrow> run \<in> set runs \<Longrightarrow> r_tenant_id run = tenant"
  by (induction rows arbitrary: runs s s')
    (auto simp: bindc_eq_Inr row_to_run_def split: if_splits)

section \<open>Properties\<close>

text \<open>C3: tenants are isolated.  Whatever requests other tenants make, fired or resumed runs,
  cancellations, decisions and purges, in any order and with a crash at any store operation,
  the runs, events, approvals and ledger entries of a tenant are as before.\<close>

theorem tenant_isolation:
  assumes "\<forall>q\<in>set qs. request_tenant q \<noteq> t" and "approval_ids_distinct (sq_db (fst (sy_store s)))"
  shows "tenant_view t (sq_db (fst (sy_store (serve_all E (crash_ops (sqlite_ops E)) en qs s)))) =
    tenant_view t (sq_db (fst (sy_store s)))"
  using sqlite_crash.serve_all_others [OF assms(1), of s E E en] assms(2) by simp

theorem tenant_isolation_witness:
  "tenant_view ''acme'' (sq_db (fst (sy_store (serve_all demo_env (crash_ops (sqlite_ops demo_env)) (mock_engine None)
      [Fire (acme\<lparr>tn_id := ''evil''\<rparr>) build_workflow (invoice 9), Cancel ''evil'' ''run_1'', Decide ''evil'' ''appr_1'' True [] []]
      (fresh_sys (dead_db, 30) demo_registry demo_world new_metrics 0))))) =
    ([\<lparr>row_run = dead_run, row_started_at = 0, row_updated_at = 0\<rparr>], [], [], [posted_row])"
proof -
  have "tenant_view ''acme'' (sq_db dead_db) =
      ([\<lparr>row_run = dead_run, row_started_at = 0, row_updated_at = 0\<rparr>], [], [], [posted_row])"
    by (simp add: tenant_view_def dead_db_def empty_tables_def new_sqlite_def demo)
  then show ?thesis
    using tenant_isolation [of "[Fire (acme\<lparr>tn_id := ''evil''\<rparr>) build_workflow (invoice 9), Cancel ''evil'' ''run_1'',
        Decide ''evil'' ''appr_1'' True [] []]" "''acme''" "fresh_sys (dead_db, 30) demo_registry demo_world new_metrics 0"
        demo_env "mock_engine None"]
    by (simp add: fresh_sys_def approval_ids_distinct_def dead_db_def empty_tables_def new_sqlite_def)
qed

text \<open>C18: a tenant reads only its own data.  A loaded or listed run and a listed event belong to
  the asking tenant, a listed event to the run asked for, and loading a run of another tenant
  raises \<open>TenantIsolationError\<close>, as listing its events does.\<close>

theorem reads_isolated:
  "(\<forall>run d'. load_run tenant rid d = (Inr (Some run), d') \<longrightarrow> r_tenant_id run = tenant \<and> r_id run = rid) \<and>
   (\<forall>runs d' run. list_runs tenant limit status d = (Inr runs, d') \<and> run \<in> set runs \<longrightarrow> r_tenant_id run = tenant) \<and>
   (\<forall>evs d' ev. list_events tenant rid d = (Inr evs, d') \<and> ev \<in> set evs \<longrightarrow> ev_tenant_id ev = tenant \<and> ev_run_id ev = rid) \<and>
   (\<forall>row. run_row rid (sq_db d) = Some row \<and> r_tenant_id (row_run row) \<noteq> tenant \<longrightarrow>
      (\<exists>m m'. load_run tenant rid d = (Inl (Exn TenantIsolationError m), d) \<and>
              list_events tenant rid d = (Inl (Exn TenantIsolationError m'), d)))"
proof (intro conjI allI impI)
  fix run d' assume l: "load_run tenant rid d = (Inr (Some run), d')"
  show "r_tenant_id run = tenant" "r_id run = rid"
    using sqlite.load_run_tenant [of _ tenant rid d run d'] l by auto
next
  fix runs d' run assume "list_runs tenant limit status d = (Inr runs, d') \<and> run \<in> set runs"
  then show "r_tenant_id run = tenant"
    using mapc_row_to_run [of tenant] by (auto simp: list_runs_def query_def split: if_splits)
next
  fix evs d' ev assume "list_events tenant rid d = (Inr evs, d') \<and> ev \<in> set evs"
  then show "ev_tenant_id ev = tenant" "ev_run_id ev = rid"
    by (auto simp: list_events_def assert_owns_eq bindc_apply query_def events_of_def split: if_splits)
next
  fix row assume "run_row rid (sq_db d) = Some row \<and> r_tenant_id (row_run row) \<noteq> tenant"
  then show "\<exists>m m'. load_run tenant rid d = (Inl (Exn TenantIsolationError m), d) \<and>
      list_events tenant rid d = (Inl (Exn TenantIsolationError m'), d)"
    by (auto simp: load_run_def list_events_def assert_owns_eq owns_def query_def row_to_run_def bindc_apply)
qed

theorem reads_isolated_witness:
  "r_tenant_id dead_run = ''acme'' \<and> load_run ''acme'' ''run_1'' dead_db = (Inr (Some dead_run), dead_db) \<and>
   (\<exists>m m'. load_run ''evil'' ''run_1'' dead_db = (Inl (Exn TenantIsolationError m), dead_db) \<and>
           list_events ''evil'' ''run_1'' dead_db = (Inl (Exn TenantIsolationError m'), dead_db))"
proof -
  have row: "run_row ''run_1'' (sq_db dead_db) = Some \<lparr>row_run = dead_run, row_started_at = 0, row_updated_at = 0\<rparr>"
    by (simp add: run_row_def dead_db_def empty_tables_def new_sqlite_def demo)
  have l: "load_run ''acme'' ''run_1'' dead_db = (Inr (Some dead_run), dead_db)"
    by (simp add: load_run_def query_def row_to_run_def bindc_liftE row demo)
  have own: "r_tenant_id dead_run = ''acme''"
    using reads_isolated [of "''acme''" "''run_1''" dead_db 0 None] l by blast
  have "\<exists>m m'. load_run ''evil'' ''run_1'' dead_db = (Inl (Exn TenantIsolationError m), dead_db) \<and>
      list_events ''evil'' ''run_1'' dead_db = (Inl (Exn TenantIsolationError m'), dead_db)"
    using reads_isolated [of "''evil''" "''run_1''" dead_db 0 None, THEN conjunct2, THEN conjunct2, THEN conjunct2,
        rule_format, OF conjI, OF row] by (simp add: demo)
  with own l show ?thesis by blast
qed

end
