(* ===== verification/Durable.thy ===== *)
theory Durable
  imports StoreInvariant Isolation
begin

text \<open>
  The durable state of runs: which rows of \<open>runs\<close> an operation changes, that the outcome of
  driving a run is what the store holds afterwards, and that a run that has ended stays as
  it ended.
\<close>

section \<open>Rows under the statements\<close>

lemma run_row_same: "tb_runs tb' = tb_runs tb \<Longrightarrow> run_row i tb' = run_row i tb"
  by (simp add: run_row_def)

lemma run_row_update_run:
  "run_row i (update_run run t tb) = map_option (\<lambda>row.
     if r_id (row_run row) = r_id run \<and> r_tenant_id (row_run row) = r_tenant_id run
     then set_run_columns run t row else row) (run_row i tb)"
  unfolding run_row_def update_run_def by (simp add: find_map_same set_run_columns_def)

lemma run_row_update_status:
  "run_row i (update_status tenant j st t tb) = map_option (\<lambda>row.
     if r_id (row_run row) = j \<and> r_tenant_id (row_run row) = tenant
     then row\<lparr>row_run := (row_run row)\<lparr>r_status := st\<rparr>, row_updated_at := t\<rparr> else row) (run_row i tb)"
  unfolding run_row_def update_status_def by (simp add: find_map_same)

lemma run_row_insert_run:
  "run_row i (insert_run run t tb) = (case run_row i tb of
      Some row \<Rightarrow> Some row
    | None \<Rightarrow> if r_id run = i then Some \<lparr>row_run = run\<lparr>r_result := PNone\<rparr>, row_started_at = t, row_updated_at = t\<rparr> else None)"
  by (simp add: run_row_def insert_run_def find_append split: option.splits)

lemma run_row_id: "run_row i tb = Some row \<Longrightarrow> r_id (row_run row) = i"
  by (auto simp: run_row_def dest: find_SomeD)

lemmas run_row_rules = run_row_update_run run_row_update_status run_row_insert_run

section \<open>Only the row of the run\<close>

definition other_rows_same :: "string \<Rightarrow> tables \<Rightarrow> tables \<Rightarrow> bool" where
  "other_rows_same i tb tb' \<longleftrightarrow> (\<forall>j. j \<noteq> i \<longrightarrow> run_row j tb' = run_row j tb)"

definition has_row :: "string \<Rightarrow> string \<Rightarrow> tables \<Rightarrow> bool" where
  "has_row tenant i tb \<longleftrightarrow> (\<exists>row. run_row i tb = Some row \<and> r_tenant_id (row_run row) = tenant)"

lemma run_row_checkpoint:
  "run_row i (log_events rows (update_run run t tb)) = map_option (\<lambda>row.
     if r_id (row_run row) = r_id run \<and> r_tenant_id (row_run row) = r_tenant_id run
     then set_run_columns run t row else row) (run_row i tb)"
  using run_row_update_run [of i run t tb] by (simp add: run_row_def)

lemma run_row_checkpoint_other: "j \<noteq> r_id run \<Longrightarrow> run_row j (log_events rows (update_run run t tb)) = run_row j tb"
  by (cases "run_row j tb") (auto simp: run_row_checkpoint dest: run_row_id)

lemma rows_same:
  "tb_runs tb' = tb_runs tb \<Longrightarrow> other_rows_same i tb tb' \<and> (has_row t i tb \<longrightarrow> has_row t i tb')"
  by (simp add: other_rows_same_def has_row_def run_row_def)

context store
begin

lemma runs_unchanged:
  "op_get_effect S tenant key d = (rg, d') \<Longrightarrow> tb_runs (tabs d') = tb_runs (tabs d)"
  "op_record_effect S tenant key rid osid tool v d = (ru, d') \<Longrightarrow> tb_runs (tabs d') = tb_runs (tabs d)"
  "op_create_approval S tenant rid sid approvers d = (ra, d') \<Longrightarrow> tb_runs (tabs d') = tb_runs (tabs d)"
  "op_resolve_approval S tenant aid ok by_whom nt d = (ru, d') \<Longrightarrow> tb_runs (tabs d') = tb_runs (tabs d)"
  "op_latest_approval S tenant rid sid d = (rl, d') \<Longrightarrow> tb_runs (tabs d') = tb_runs (tabs d)"
  "op_load_run S tenant rid d = (rr, d') \<Longrightarrow> tb_runs (tabs d') = tb_runs (tabs d)"
  "op_purge_event_payloads S tenant ts d = (ri, d') \<Longrightarrow> tb_runs (tabs d') = tb_runs (tabs d)"
  by (auto dest!: store_laws split: if_splits)

lemmas rows_unchanged = runs_unchanged [THEN run_row_same]

lemma checkpoint_rows:
  assumes "op_checkpoint S run evs d = (ru, d')"
  shows "other_rows_same (r_id run) (tabs d) (tabs d')"
    and "has_row tenant i (tabs d) \<Longrightarrow> has_row tenant i (tabs d')"
  using checkpoint_law [OF assms]
  by (auto simp: other_rows_same_def has_row_def run_row_checkpoint_other)
    (auto simp: run_row_checkpoint set_run_columns_def)

lemma rows_scope:
  "run_scope S (\<lambda>t i d d'. other_rows_same i (tabs d) (tabs d') \<and> (has_row t i (tabs d) \<longrightarrow> has_row t i (tabs d')))"
proof (unfold_locales, goal_cases)
  case (8 run evs d ru d')
  then show ?case using checkpoint_rows by blast
next
  case (2 t i a b c)
  then show ?case by (simp add: other_rows_same_def)
qed (rule rows_same, simp add: runs_unchanged)+

lemma drive_step_has_row:
  assumes "drive_step E S en flow budget i s = (r, s')" and "has_row (r_tenant_id (sy_run s)) (r_id (sy_run s)) (tabs (sy_store s))"
  shows "has_row (r_tenant_id (sy_run s')) (r_id (sy_run s')) (tabs (sy_store s'))"
  using keepsD [OF drive_frame.drive_step_keeps [OF run_scope.scope_drive [OF rows_scope]] assms(1)] assms(2)
  by (fastforce simp: scope_rel_def)

lemma resume_other_rows:
  "resume E S en flow s = (r, s') \<Longrightarrow> other_rows_same (r_id (sy_run s)) (tabs (sy_store s)) (tabs (sy_store s'))"
  using run_scope.resume_scope [OF rows_scope] by blast

end

section \<open>What driving a run leaves in the store\<close>

definition same_columns :: "Run \<Rightarrow> Run \<Rightarrow> bool" where
  "same_columns run run' \<longleftrightarrow>
     r_tenant_id run' = r_tenant_id run \<and> r_id run' = r_id run \<and> r_status run' = r_status run \<and>
     r_cursor_step run' = r_cursor_step run \<and> r_context run' = r_context run \<and> r_cost_usd run' = r_cost_usd run \<and>
     r_steps_used run' = r_steps_used run \<and> r_result run' = r_result run"

text \<open>The row of the driven run holds the run's current columns.\<close>

definition synced :: "Run \<Rightarrow> tables \<Rightarrow> bool" where
  "synced run tb \<longleftrightarrow> (\<exists>row. run_row (r_id run) tb = Some row \<and> same_columns run (row_run row))"

definition is_failure :: "exn \<Rightarrow> bool" where
  "is_failure e \<longleftrightarrow> is_a PolicyDenied e \<or> is_a ConnectorError e"

lemma is_failure_not_paused: "is_failure e \<Longrightarrow> \<not> is_a Paused e"
  by (cases e; cases "exn_cls e") (auto simp: is_failure_def is_a_def)

abbreviation run_stored :: "('d \<Rightarrow> tables) \<Rightarrow> ('d, 'x) sys \<Rightarrow> bool" where
  "run_stored tabs s \<equiv> has_row (r_tenant_id (sy_run s)) (r_id (sy_run s)) (tabs (sy_store s))"

abbreviation run_synced :: "('d \<Rightarrow> tables) \<Rightarrow> ('d, 'x) sys \<Rightarrow> bool" where
  "run_synced tabs s \<equiv> synced (sy_run s) (tabs (sy_store s))"

context store
begin

lemma checkpoint_syncs:
  assumes "engine_checkpoint S s = (Inr (), s')" and "run_stored tabs s"
  shows "run_synced tabs s' \<and> sy_run s' = sy_run s"
proof -
  obtain d where d: "op_checkpoint S (sy_run s) (sy_buffer s) (sy_store s) = (Inr (), d)"
    and s': "s' = s\<lparr>sy_store := d, sy_buffer := []\<rparr>"
    using assms(1) by (auto simp: engine_checkpoint_def bindc_eq_Inr on_store_Inr)
  with checkpoint_law [OF d] assms(2) show ?thesis
    by (auto simp: has_row_def synced_def run_row_checkpoint set_run_columns_def same_columns_def dest: run_row_id)
qed

lemma checkpoint_error:
  assumes "engine_checkpoint S s = (Inl e, s')"
  shows "exn_cls e \<in> {Crash, TenantIsolationError}"
proof -
  obtain d where d: "op_checkpoint S (sy_run s) (sy_buffer s) (sy_store s) = (Inl e, d)"
    using assms by (auto simp: engine_checkpoint_def bindc_apply on_store_apply split: prod.splits sum.splits)
  from checkpoint_law [OF d] show ?thesis by auto
qed

lemma fail_run_syncs:
  assumes "fail_run S reason detail label s = (Inr (), s')" and "run_stored tabs s"
  shows "run_synced tabs s' \<and> r_status (sy_run s') = FAILED"
  using assms
  by (auto simp: fail_run_def set_status_def seq_emit bindc_eq_Inr metric_def dest!: checkpoint_syncs)

lemma fail_run_error: "fail_run S reason detail label s = (Inl e, s') \<Longrightarrow> exn_cls e \<in> {Crash, TenantIsolationError}"
  by (auto simp: fail_run_def set_status_def seq_emit bindc_eq_Inl metric_def dest: checkpoint_error)

lemma compensate_error: "compensate E S en flow step s = (Inl e, s') \<Longrightarrow> exn_cls e = Crash"
  by (auto simp: compensate_def seq_emit handle_def is_exception_def emit_def
      split: option.splits if_splits prod.splits sum.splits)

lemmas rows_drive = run_scope.scope_drive [OF rows_scope]
lemmas rows_engine = drive_frame.axioms(1) [OF rows_drive]

lemma stored_keeps:
  assumes "\<And>t i. keeps (scope_rel (\<lambda>t i d d'. other_rows_same i (tabs d) (tabs d') \<and>
      (has_row t i (tabs d) \<longrightarrow> has_row t i (tabs d'))) t i) m"
    and "m s = (r, s')" and "run_stored tabs s"
  shows "run_stored tabs s'"
  using keepsD [OF assms(1,2), of "r_tenant_id (sy_run s)" "r_id (sy_run s)"] assms(3) by (simp add: scope_rel_def)

lemma on_step_error_synced:
  assumes "on_step_error E S en flow step e0 s = (Inl e, s')" and "is_failure e" and "run_stored tabs s"
  shows "run_synced tabs s' \<and> r_status (sy_run s') = FAILED"
proof -
  have not_failure: "\<not> is_failure e'" if "exn_cls e' \<in> {Crash, TenantIsolationError}" for e'
    using that by (auto simp: is_failure_def)
  show ?thesis
  proof (cases "is_a PolicyDenied e0")
    case True
    with assms not_failure show ?thesis
      by (auto simp: on_step_error_def bindc_eq_Inl dest: fail_run_error fail_run_syncs)
  next
    case False
    show ?thesis
    proof (cases "is_a ConnectorError e0")
      case True
      with False assms(1) consider "compensate E S en flow step s = (Inl e, s')"
        | s1 where "fail_run S ''step failed'' (exn_str e0) ''connector'' s1 = (Inl e, s')"
        | s1 where "compensate E S en flow step s = (Inr (), s1)"
            "fail_run S ''step failed'' (exn_str e0) ''connector'' s1 = (Inr (), s')"
        by (auto simp: on_step_error_def bindc_eq_Inl)
      then show ?thesis
      proof cases
        case 3
        with fail_run_syncs stored_keeps [OF engine_frame.compensate_keeps [OF rows_engine] 3(1) assms(3)]
        show ?thesis by blast
      qed (use assms(2) not_failure in \<open>auto dest: compensate_error fail_run_error\<close>)
    next
      case conn: False
      with False assms show ?thesis by (auto simp: on_step_error_def is_failure_def)
    qed
  qed
qed

lemma enter_step_eq:
  obtains s1 where "enter_step step s = (Inr (), s1)" "sy_store s1 = sy_store s"
    "r_id (sy_run s1) = r_id (sy_run s)" "r_tenant_id (sy_run s1) = r_tenant_id (sy_run s)"
  by (simp add: enter_step_def emit_def)

lemma advance_eq:
  obtains s1 where "advance n s = (Inr (), s1)" "sy_store s1 = sy_store s"
    "r_id (sy_run s1) = r_id (sy_run s)" "r_tenant_id (sy_run s1) = r_tenant_id (sy_run s)"
    "n = None \<Longrightarrow> r_status (sy_run s1) = SUCCEEDED"
  by (cases n) (auto simp: advance_def emit_def)

lemma drive_step_cases:
  assumes "drive_step E S en flow budget i s = (r, s')" and "run_stored tabs s"
  obtains (unknown) e where "r = Inl e" "exn_cls e = WorkflowError" "s' = s"
  | (budget) v where "budget_check budget (sy_run s) = Some v"
      "seqc (fail_run S ''budget exceeded'' v ''budget'') (throw (Exn BudgetExceeded v)) s = (r, s')"
  | (failed) step s1 s2 e0 where "run_step_with_retry E S en step s1 = (Inl e0, s2)" "run_stored tabs s2"
      "on_step_error E S en flow step e0 s2 = (r, s')"
  | (stepped) step s1 s2 s3 n where "run_step_with_retry E S en step s1 = (Inr n, s2)" "advance n s2 = (Inr (), s3)"
      "run_stored tabs s3" "n = None \<Longrightarrow> r_status (sy_run s3) = SUCCEEDED"
      "seqc (engine_checkpoint S) (ret n) s3 = (r, s')"
proof (cases "wf_steps flow i")
  case None
  with assms unknown show ?thesis by (auto simp: drive_step_def)
next
  case step: (Some step)
  show ?thesis
  proof (cases "budget_check budget (sy_run s)")
    case (Some v)
    with assms step budget show ?thesis by (simp add: drive_step_def)
  next
    case None
    obtain s1 where s1: "enter_step step s = (Inr (), s1)" "run_stored tabs s1"
      using enter_step_eq [of step s] assms(2) by metis
    obtain x s2 where x: "run_step_with_retry E S en step s1 = (x, s2)" by fastforce
    have st2: "run_stored tabs s2"
      using stored_keeps [OF engine_frame.run_step_with_retry_keeps [OF rows_engine] x s1(2)] .
    show ?thesis
    proof (cases x)
      case (Inl e0)
      obtain y :: "exn + string option" and s3 where y: "on_step_error E S en flow step e0 s2 = (y, s3)" by fastforce
      have "\<exists>e. y = Inl e"
        using y by (auto simp: on_step_error_def bindc_apply split: if_splits prod.splits sum.splits)
      with assms(1) step None s1 x Inl y st2 show ?thesis
        by (intro failed [of step s1 e0 s2]) (auto simp: drive_step_def bindc_apply handle_def)
    next
      case (Inr n)
      obtain s3 where s3: "advance n s2 = (Inr (), s3)" "run_stored tabs s3" "n = None \<Longrightarrow> r_status (sy_run s3) = SUCCEEDED"
        using advance_eq [of n s2] st2 by metis
      with assms(1) step None s1 x Inr show ?thesis
        by (intro stepped [of step s1 n s2 s3]) (auto simp: drive_step_def bindc_apply handle_def)
    qed
  qed
qed

lemma drive_step_failed:
  assumes "drive_step E S en flow budget i s = (Inl e, s')" and "is_failure e" and "run_stored tabs s"
  shows "run_synced tabs s' \<and> r_status (sy_run s') = FAILED"
  using assms(1,3)
proof (cases rule: drive_step_cases)
  case failed
  with assms(2) on_step_error_synced show ?thesis by blast
qed (use assms(2) in \<open>auto simp: is_failure_def bindc_eq_Inl dest: fail_run_error checkpoint_error\<close>)

lemma drive_failed:
  assumes "drive E S en flow budget sid s = (Inl e, s')" and "is_failure e" and "run_stored tabs s"
  shows "run_synced tabs s' \<and> r_status (sy_run s') = FAILED"
  using assms
  by (induction sid s rule: drive_induct [of _ E S en flow budget])
    (auto split: prod.splits sum.splits dest: drive_step_failed drive_step_has_row)

lemma drive_step_completed:
  assumes "drive_step E S en flow budget i s = (Inr None, s')" and "run_stored tabs s"
  shows "run_synced tabs s' \<and> r_status (sy_run s') = SUCCEEDED"
  using assms
proof (cases rule: drive_step_cases)
  case (stepped step s1 s2 s3 n)
  then show ?thesis using checkpoint_syncs [of s3 s'] by (auto simp: bindc_eq_Inr)
qed (auto simp: bindc_eq_Inr on_step_error_def split: if_splits)

lemma drive_completed:
  "drive E S en flow budget sid s = (Inr x, s') \<Longrightarrow> sid \<noteq> None \<Longrightarrow> run_stored tabs s \<Longrightarrow>
     run_synced tabs s' \<and> r_status (sy_run s') = SUCCEEDED"
proof (induction sid s rule: drive_induct [of _ E S en flow budget])
  case (2 i s)
  then obtain n s1 where n: "drive_step E S en flow budget i s = (Inr n, s1)" "drive E S en flow budget n s1 = (Inr x, s')"
    by (auto split: prod.splits sum.splits)
  show ?case
  proof (cases n)
    case None
    with n drive_step_completed [OF _ 2(4)] show ?thesis by simp
  next
    case (Some j)
    with 2(1) [OF n(1)] n drive_step_has_row [OF n(1) 2(4)] show ?thesis by simp
  qed
qed simp

end

section \<open>A run that has ended\<close>

definition ended_row :: "string \<Rightarrow> RunRow \<Rightarrow> tables \<Rightarrow> bool" where
  "ended_row i row tb \<longleftrightarrow> run_row i tb = Some row \<and> terminal (r_status (row_run row))"

lemma run_row_log [simp]: "run_row i (log_events rows tb) = run_row i tb"
  by (simp add: run_row_def)

context store
begin

lemma ended_other: "other_rows_same j tb tb' \<Longrightarrow> j \<noteq> i \<Longrightarrow> ended_row i row tb \<Longrightarrow> ended_row i row tb'"
  by (simp add: ended_row_def other_rows_same_def)

lemma ended_create: "op_create_or_get_run S run d = (rc, d') \<Longrightarrow> ended_row i row (tabs d) \<Longrightarrow> ended_row i row (tabs d')"
  by (drule create_or_get_run_law) (auto simp: ended_row_def run_row_insert_run)

lemma ended_cancel:
  assumes "op_cancel_run S tenant j d = (rb, d')" and "ended_row i row (tabs d)"
  shows "ended_row i row (tabs d')"
  using cancel_run_law [OF assms(1)] assms(2) run_row_id [of i "tabs d" row]
  by (cases "j = i") (auto simp: ended_row_def run_row_update_status)

lemma ended_fire:
  assumes "fire E S en tenant flow trig s = (r, s')" and "ended_row i row (tabs (sy_store s))"
  shows "ended_row i row (tabs (sy_store s'))"
  using assms(1)
proof (cases rule: fire_cases)
  case (started run d s1)
  have "r_id run \<noteq> i"
    using create_or_get_run_law [OF started(1)] assms(2) by (auto simp: ended_row_def)
  with started ended_create [OF started(1) assms(2)] resume_other_rows [OF started(2)]
  show ?thesis using ended_other by metis
qed (use assms(2) ended_create in blast)+

lemma ended_resume_run:
  assumes "resume_run E S en tenant rid flow s = (r, s')" and "ended_row i row (tabs (sy_store s))"
  shows "ended_row i row (tabs (sy_store s'))"
  using assms(1)
proof (cases rule: resume_run_cases)
  case (driven d run)
  from load_run_tenant [OF driven(1)] driven(2) assms(2) have "r_id run \<noteq> i" by (auto simp: ended_row_def)
  moreover have "ended_row i row (tabs d)"
    using load_run_law [OF driven(1)] assms(2) by simp
  ultimately show ?thesis using ended_other [OF resume_other_rows [OF driven(3)]] by simp
qed (use assms(2) load_run_law in fastforce)+

lemma serve_ended:
  assumes "serve E S en q s = (r, s')" and "ended_row i row (tabs (sy_store s))"
  shows "ended_row i row (tabs (sy_store s'))"
proof (cases q)
  case (Fire tenant flow trig)
  then show ?thesis using assms ended_fire by (auto simp: bindc_apply split: prod.splits sum.splits)
next
  case (Resume tenant rid flow)
  then show ?thesis using assms ended_resume_run by (auto simp: bindc_apply split: prod.splits sum.splits)
qed (use assms in \<open>auto simp: bindc_apply on_store_apply split: prod.splits sum.splits intro: ended_cancel\<close>,
     (auto simp: ended_row_def rows_unchanged)+)

lemma serve_all_ended:
  "ended_row i row (tabs (sy_store s)) \<Longrightarrow> ended_row i row (tabs (sy_store (serve_all E S en qs s)))"
  by (induction qs arbitrary: s) (auto split: prod.splits sum.splits dest: serve_ended)

end

section \<open>Properties\<close>

text \<open>C14: failures are durable.  When driving a stored run over SQLite ends with a policy denial or
  a connector failure, the database holds the run as it failed: status \<open>failed\<close> with the
  cursor, context, cost and steps the run had when the error was raised.\<close>

theorem failure_is_durable:
  assumes "resume E (sqlite_ops E) en flow s = (Inl e, s')"
    and "exn_cls e \<in> {PolicyDenied, ConnectorError, CircuitOpen, Transient}"
    and "\<not> terminal (r_status (sy_run s))"
    and "has_row (r_tenant_id (sy_run s)) (r_id (sy_run s)) (sq_db (sy_store s))"
  shows "\<exists>row. run_row (r_id (sy_run s)) (sq_db (sy_store s')) = Some row \<and>
    r_status (row_run row) = FAILED \<and> same_columns (sy_run s') (row_run row)"
proof -
  let ?i = "case r_cursor_step (sy_run s) of None \<Rightarrow> wf_start flow | Some i \<Rightarrow> i"
  let ?b = "\<lparr>b_max_usd = wf_budget_usd flow, b_max_steps = wf_max_steps flow\<rparr>"
  let ?s = "s\<lparr>sy_run := (sy_run s)\<lparr>r_status := RUNNING\<rparr>\<rparr>"
  have fail: "is_failure e" using assms(2) by (auto simp: is_failure_def)
  then have "drive E (sqlite_ops E) en flow ?b (Some ?i) ?s = (Inl e, s')"
    using assms(1,3) is_failure_not_paused
    by (auto simp: resume_def set_status_def handle_def bindc_apply metric_def split: prod.splits sum.splits if_splits)
  from sqlite.drive_failed [OF this fail] assms(4)
  have "synced (sy_run s') (sq_db (sy_store s')) \<and> r_status (sy_run s') = FAILED" by simp
  moreover have "r_id (sy_run s') = r_id (sy_run s)"
    using run_scope.resume_scope [OF sqlite.rows_scope assms(1)] by simp
  ultimately show ?thesis by (auto simp: synced_def same_columns_def)
qed

theorem failure_is_durable_witness:
  "\<exists>row. run_row ''run_1'' (sq_db (sy_store (snd (resume demo_env (sqlite_ops demo_env) (mock_engine (Some False)) sign_off sign_sys)))) =
     Some row \<and> r_status (row_run row) = FAILED \<and>
     same_columns (sy_run (snd (resume demo_env (sqlite_ops demo_env) (mock_engine (Some False)) sign_off sign_sys))) (row_run row)"
  using failure_is_durable [OF outcome_eq [OF sign_resume_denied]] by (simp add: demo has_row_def)

text \<open>C15: success is durable.  When the loop of \<open>_drive\<close> ends normally on a stored run, the
  database holds the run as \<open>succeeded\<close>, with the result, context, cost and steps it has in
  memory; the final checkpoint is the one that records it.\<close>

theorem success_is_durable:
  assumes "drive E (sqlite_ops E) en flow budget (Some i) s = (Inr x, s')"
    and "has_row (r_tenant_id (sy_run s)) (r_id (sy_run s)) (sq_db (sy_store s))"
  shows "\<exists>row. run_row (r_id (sy_run s)) (sq_db (sy_store s')) = Some row \<and>
    r_status (row_run row) = SUCCEEDED \<and> same_columns (sy_run s') (row_run row)"
proof -
  have "synced (sy_run s') (sq_db (sy_store s')) \<and> r_status (sy_run s') = SUCCEEDED"
    using sqlite.drive_completed [OF assms(1)] assms(2) by simp
  moreover have "r_id (sy_run s') = r_id (sy_run s)"
    using keepsD [OF drive_frame.drive_keeps [OF sqlite.rows_drive] assms(1)] by (fastforce simp: scope_rel_def)
  ultimately show ?thesis by (auto simp: synced_def same_columns_def)
qed

theorem success_is_durable_witness:
  "\<exists>row. run_row ''run_1'' (sq_db (sy_store (snd (drive demo_env (sqlite_ops demo_env) (mock_engine (Some True)) sign_off
       \<lparr>b_max_usd = 1, b_max_steps = 5\<rparr> (Some ''sign'') sign_sys)))) = Some row \<and> r_status (row_run row) = SUCCEEDED \<and>
     same_columns (sy_run (snd (drive demo_env (sqlite_ops demo_env) (mock_engine (Some True)) sign_off
       \<lparr>b_max_usd = 1, b_max_steps = 5\<rparr> (Some ''sign'') sign_sys))) (row_run row)"
  using success_is_durable [OF outcome_eq [OF sign_drive [of True, unfolded if_True]]] by (simp add: demo has_row_def)

text \<open>C13: a run that has ended stays as it ended.  Once a run's row is succeeded, failed or
  canceled, no sequence of processes, whatever they serve, retry, cancel or resume and
  wherever they die, changes the row.\<close>

theorem ended_runs_stay:
  assumes "(restart_step E en T)\<^sup>*\<^sup>* (d, w) (d', w')"
    and "run_row i (sq_db d) = Some row" and "terminal (r_status (row_run row))"
  shows "run_row i (sq_db d') = Some row"
proof -
  have "ended_row i row (sq_db (fst y))" if "(restart_step E en T)\<^sup>*\<^sup>* (d, w) y" for y
    using that
  proof (induction rule: rtranclp_induct)
    case base
    then show ?case using assms(2,3) by (simp add: ended_row_def)
  next
    case (step y z)
    from step(2,3) show ?case
    proof (induction rule: restart_step.induct)
      case (process reg qs d n w m ids s')
      then show ?case
        using sqlite_crash.serve_all_ended [of i row "fresh_sys (d, n) reg w m ids" E E en qs]
        by (auto simp: fresh_sys_def)
    qed simp
  qed
  from this [OF assms(1)] show ?thesis by (simp add: ended_row_def)
qed

definition ended_db :: SQLiteStore where
  "ended_db = new_sqlite\<lparr>sq_db := empty_tables\<lparr>tb_runs :=
     [\<lparr>row_run = dead_run\<lparr>r_status := CANCELED\<rparr>, row_started_at = 0, row_updated_at = 0\<rparr>]\<rparr>\<rparr>"

theorem ended_runs_stay_witness:
  "run_row ''run_1'' (sq_db (fst (sy_store (serve_all demo_env (crash_ops (sqlite_ops demo_env)) (mock_engine None)
      [Resume acme ''run_1'' build_workflow, Cancel ''acme'' ''run_1''] (fresh_sys (ended_db, 9) demo_registry demo_world new_metrics 0))))) =
    Some \<lparr>row_run = dead_run\<lparr>r_status := CANCELED\<rparr>, row_started_at = 0, row_updated_at = 0\<rparr>"
proof (rule ended_runs_stay [where E = demo_env and en = "mock_engine None" and T = "tr_tools demo_registry" and w = demo_world])
  show "(restart_step demo_env (mock_engine None) (tr_tools demo_registry))\<^sup>*\<^sup>* (ended_db, demo_world)
      (fst (sy_store (serve_all demo_env (crash_ops (sqlite_ops demo_env)) (mock_engine None)
        [Resume acme ''run_1'' build_workflow, Cancel ''acme'' ''run_1''] (fresh_sys (ended_db, 9) demo_registry demo_world new_metrics 0))),
       sy_world (serve_all demo_env (crash_ops (sqlite_ops demo_env)) (mock_engine None)
        [Resume acme ''run_1'' build_workflow, Cancel ''acme'' ''run_1''] (fresh_sys (ended_db, 9) demo_registry demo_world new_metrics 0)))"
    by (rule r_into_rtranclp, rule process [OF demo_registry_inv refl refl])
qed (simp_all add: ended_db_def run_row_def new_sqlite_def empty_tables_def demo terminal_def)

section \<open>What is stored in clear\<close>

text \<open>Redaction is applied to event payloads; the trigger of a run is stored as it arrived.\<close>

lemma trigger_stored_verbatim:
  assumes "create_or_get_run E run d = (Inr (run', True), d')"
  shows "\<exists>row. run_row (r_id run) (sq_db d') = Some row \<and> r_trigger_event (row_run row) = r_trigger_event run"
  using assms by (cases rule: create_or_get_run_cases [of run d E]) (auto simp: run_row_insert_run)

end
