(* ===== verification/Bounds.thy ===== *)
theory Bounds
  imports Durable
begin

text \<open>
  The step and cost ceilings of a run: the loop of \<open>_drive\<close> ends after a number of
  iterations that the ceiling gives, and a run over its budget is stopped before it acts.
\<close>

section \<open>The loop with a bounded number of iterations\<close>

text \<open>\<open>_drive\<close> with at most \<open>n\<close> iterations of its \<open>while\<close>; \<open>None\<close> when they do not suffice.\<close>

fun drive_fuel ::
  "nat \<Rightarrow> env \<Rightarrow> 'd StoreOps \<Rightarrow> 'x engine \<Rightarrow> Workflow \<Rightarrow> Budget \<Rightarrow> string option \<Rightarrow> ('d, 'x) sys \<Rightarrow>
     ((exn + string option) \<times> ('d, 'x) sys) option" where
  "drive_fuel n E S en flow budget None s = Some (Inr None, s)"
| "drive_fuel 0 E S en flow budget (Some step_id) s = None"
| "drive_fuel (Suc n) E S en flow budget (Some step_id) s =
     (case drive_step E S en flow budget step_id s of
        (Inl e, s') \<Rightarrow> Some (Inl e, s')
      | (Inr next_id, s') \<Rightarrow> drive_fuel n E S en flow budget next_id s')"

lemma drive_fuel_enough:
  "nat (b_max_steps budget + 1 - r_steps_used (sy_run s)) < n \<Longrightarrow>
     drive_fuel n E S en flow budget sid s = Some (drive E S en flow budget sid s)"
proof (induction n E S en flow budget sid s rule: drive_fuel.induct)
  case (3 n E S en flow budget step_id s)
  show ?case
  proof (cases "drive_step E S en flow budget step_id s")
    case (Pair r s')
    show ?thesis
    proof (cases r)
      case (Inr next_id)
      with Pair drive_step_uses_step [of E S en flow budget step_id s next_id s'] 3(2)
      have "nat (b_max_steps budget + 1 - r_steps_used (sy_run s')) < n" by auto
      with 3(1) Pair Inr show ?thesis by simp
    qed (simp add: Pair)
  qed
qed simp_all

section \<open>Steps used\<close>

lemma drive_step_steps:
  assumes "drive_step E S en flow budget i s = (r, s')"
  shows "r_steps_used (sy_run s') \<le> max (r_steps_used (sy_run s)) (b_max_steps budget + 1)"
proof (cases "wf_steps flow i")
  case None
  with assms show ?thesis by (simp add: drive_step_def)
next
  case step: (Some step)
  show ?thesis
  proof (cases "budget_check budget (sy_run s)")
    case (Some v)
    have "keeps same_steps (seqc (fail_run S ''budget exceeded'' v ''budget'') (throw (Exn BudgetExceeded v)))"
      by (intro same_steps_frame.keeps_rules same_steps.fail_run_keeps)
    from keepsD [OF this, of s r s'] assms step Some show ?thesis by (simp add: drive_step_def same_steps_def)
  next
    case None
    with assms step keepsD [OF drive_step_body_steps, of E S en step flow "snd (enter_step step s)" r s']
    show ?thesis by (auto simp: drive_step_def enter_step_def emit_def same_steps_def bindc_assoc)
  qed
qed

lemma drive_steps:
  "drive E S en flow budget sid s = (r, s') \<Longrightarrow>
     r_steps_used (sy_run s') \<le> max (r_steps_used (sy_run s)) (b_max_steps budget + 1)"
proof (induction sid s rule: drive_induct [of _ E S en flow budget])
  case (2 i s)
  obtain r1 s1 where step: "drive_step E S en flow budget i s = (r1, s1)" by fastforce
  show ?case
  proof (cases r1)
    case (Inl e)
    with step 2(2) drive_step_steps [OF step] show ?thesis by simp
  next
    case (Inr n)
    with step 2 have "r_steps_used (sy_run s') \<le> max (r_steps_used (sy_run s1)) (b_max_steps budget + 1)" by simp
    with drive_step_steps [OF step] show ?thesis by simp
  qed
qed simp

lemma resume_steps:
  assumes "resume E S en flow s = (r, s')"
  shows "r_steps_used (sy_run s') \<le> max (r_steps_used (sy_run s)) (wf_max_steps flow + 1)"
proof (cases "terminal (r_status (sy_run s))")
  case True
  with assms show ?thesis by (simp add: resume_def)
next
  case False
  let ?b = "\<lparr>b_max_usd = wf_budget_usd flow, b_max_steps = wf_max_steps flow\<rparr>"
  let ?i = "case r_cursor_step (sy_run s) of None \<Rightarrow> wf_start flow | Some i \<Rightarrow> i"
  obtain r1 s1 where d: "drive E S en flow ?b (Some ?i) (s\<lparr>sy_run := (sy_run s)\<lparr>r_status := RUNNING\<rparr>\<rparr>) = (r1, s1)"
    by fastforce
  from assms False d have "sy_run s' = sy_run s1"
    by (auto simp: resume_def set_status_def handle_def bindc_apply metric_def split: sum.splits if_splits)
  with drive_steps [OF d] show ?thesis by simp
qed

section \<open>Properties\<close>

text \<open>C16: driving a run ends.  Whatever the workflow (cycles of branches included), the tools,
  the model and the store, the loop of \<open>_drive\<close> needs at most one iteration more than the
  steps the budget leaves, \<open>max_steps + 1 - steps_used\<close>.\<close>

theorem drive_terminates:
  "drive_fuel (Suc (nat (b_max_steps budget + 1 - r_steps_used (sy_run s)))) E S en flow budget sid s =
     Some (drive E S en flow budget sid s)"
  by (rule drive_fuel_enough) simp

text \<open>A workflow that allows no step at all, and whose only step is nevertheless taken.\<close>

definition no_steps :: Workflow where
  "no_steps = sign_off\<lparr>wf_max_steps := 0\<rparr>"

lemma no_steps_succeeds:
  "\<exists>run. fst (resume demo_env (sqlite_ops demo_env) (mock_engine (Some True)) no_steps sign_sys) = Inr run \<and>
     r_status run = SUCCEEDED \<and> r_steps_used run = 1"
  by (simp add: resume_def no_steps_def demo sign_defs)

text \<open>C17: a run overshoots its step ceiling by one step at most, and by one it may.  Because the budget
  is checked before the step is counted, a run uses at most \<open>max_steps + 1\<close> steps (or the steps
  it had when it was resumed), and the bound is reached: a run of a workflow with
  \<open>max_steps = 0\<close> takes its one step and succeeds.\<close>

theorem steps_bounded:
  assumes "resume E S en flow s = (r, s')"
  shows "r_steps_used (sy_run s') \<le> max (r_steps_used (sy_run s)) (wf_max_steps flow + 1) \<and>
    wf_max_steps no_steps = 0 \<and> r_steps_used (sy_run sign_sys) = 0 \<and>
    (\<exists>run. fst (resume demo_env (sqlite_ops demo_env) (mock_engine (Some True)) no_steps sign_sys) = Inr run \<and>
      r_status run = SUCCEEDED \<and> r_steps_used run = 1)"
proof (intro conjI no_steps_succeeds)
  show "wf_max_steps no_steps = 0" "r_steps_used (sy_run sign_sys) = 0" by (simp_all add: no_steps_def demo)
  show "r_steps_used (sy_run s') \<le> max (r_steps_used (sy_run s)) (wf_max_steps flow + 1)"
    by (rule resume_steps [OF assms])
qed

theorem steps_bounded_witness:
  "r_steps_used (sy_run (snd (resume demo_env (sqlite_ops demo_env) (mock_engine None) build_workflow (demo_at dead_db)))) \<le> 26"
  using steps_bounded [OF outcome_eq [OF refl], of demo_env "sqlite_ops demo_env" "mock_engine None" build_workflow "demo_at dead_db"]
  by (simp add: demo build_workflow_def)

text \<open>C4: a run over its budget does not act.  When the cost or the steps of a stored run exceed
  its workflow's budget, resuming it raises \<open>BudgetExceeded\<close>, calls no tool, model or approver,
  and leaves the run failed in the database.\<close>

theorem budget_stops_run:
  assumes "\<not> terminal (r_status (sy_run s))"
    and "r_cursor_step (sy_run s) = Some i" and "wf_steps flow i = Some step"
    and "wf_budget_usd flow < r_cost_usd (sy_run s) \<or> wf_max_steps flow < r_steps_used (sy_run s)"
    and "has_row (r_tenant_id (sy_run s)) (r_id (sy_run s)) (sq_db (sy_store s))"
    and "\<forall>ev\<in>set (sy_buffer s). ev_tenant_id ev = r_tenant_id (sy_run s)"
  shows "\<exists>v s' row. resume E (sqlite_ops E) en flow s = (Inl (Exn BudgetExceeded v), s') \<and>
    sy_world s' = sy_world s \<and> sy_reg s' = sy_reg s \<and>
    run_row (r_id (sy_run s)) (sq_db (sy_store s')) = Some row \<and> r_status (row_run row) = FAILED"
proof -
  let ?b = "\<lparr>b_max_usd = wf_budget_usd flow, b_max_steps = wf_max_steps flow\<rparr>"
  have own: "owns (r_tenant_id (sy_run s)) (r_id (sy_run s)) (sq_db (sy_store s))"
    using assms(5) by (auto simp: has_row_def owns_def)
  obtain v where v: "budget_check ?b ((sy_run s)\<lparr>r_status := RUNNING\<rparr>) = Some v"
    using assms(4) budget_check_None [of ?b "(sy_run s)\<lparr>r_status := RUNNING\<rparr>"]
    by (cases "budget_check ?b ((sy_run s)\<lparr>r_status := RUNNING\<rparr>)") auto
  from assms(5) obtain row where row: "run_row (r_id (sy_run s)) (sq_db (sy_store s)) = Some row"
      "r_tenant_id (row_run row) = r_tenant_id (sy_run s)" by (auto simp: has_row_def)
  show ?thesis
    using assms(1,2,3,6) v own row run_row_id [OF row(1)]
    by (simp add: resume_def set_status_def drive_step_def fail_run_def emit_def engine_checkpoint_def bindc_apply
        on_store_apply checkpoint_ok handle_def metric_def is_a_def run_row_update_run set_run_columns_def)
qed

theorem budget_stops_run_witness:
  "\<exists>v s' row. resume demo_env (sqlite_ops demo_env) (mock_engine None) build_workflow
       ((demo_at dead_db)\<lparr>sy_run := dead_run\<lparr>r_cost_usd := 1\<rparr>\<rparr>) = (Inl (Exn BudgetExceeded v), s') \<and>
     sy_world s' = demo_world \<and> sy_reg s' = demo_registry \<and>
     run_row ''run_1'' (sq_db (sy_store s')) = Some row \<and> r_status (row_run row) = FAILED"
proof -
  have "r_cursor_step dead_run = Some ''post''" "wf_steps build_workflow ''post'' = Some post_step"
    by (simp_all add: dead_run_def mk_run_def build_workflow_def)
  then show ?thesis
    using budget_stops_run [of "(demo_at dead_db)\<lparr>sy_run := dead_run\<lparr>r_cost_usd := 1\<rparr>\<rparr>" "''post''" build_workflow post_step
        demo_env "mock_engine None"]
    by (simp add: demo has_row_def build_workflow_def)
qed

end
