(* ===== verification/Triggers.thy ===== *)
theory Triggers
  imports Durable
begin

text \<open>
  From trigger events to runs: the idempotency key of an event, and that a delivery of the
  same event again finds the run of the first delivery.
\<close>

section \<open>Keys\<close>

lemma map_of_permute: "mset d = mset d' \<Longrightarrow> distinct (map fst d) \<Longrightarrow> map_of d = map_of d'"
  by (metis map_of_inject_set mset_eq_imp_distinct_iff mset_eq_setD mset_map)

lemma first_truthy_cong: "map_of ev = map_of ev' \<Longrightarrow> first_truthy ks ev = first_truthy ks ev'"
  by (induction ks) (simp_all add: dget_def Let_def)

section \<open>Which runs exist\<close>

definition run_keys :: "tables \<Rightarrow> (string \<times> string \<times> string) list" where
  "run_keys tb = map (\<lambda>row. (r_tenant_id (row_run row), r_idempotency_key (row_run row), r_id (row_run row))) (tb_runs tb)"

lemma run_keys_log [simp]: "run_keys (log_events rows tb) = run_keys tb"
  by (simp add: run_keys_def)

lemma run_keys_update_run [simp]: "run_keys (update_run run t tb) = run_keys tb"
  by (simp add: run_keys_def update_run_def set_run_columns_def)

lemma run_by_key_iff: "run_by_key tenant key tb \<noteq> None \<longleftrightarrow> (\<exists>i. (tenant, key, i) \<in> set (run_keys tb))"
  by (auto simp: run_by_key_def run_keys_def find_None_iff2)

lemma run_by_key_sel:
  "run_by_key tenant key tb = Some row \<Longrightarrow> r_tenant_id (row_run row) = tenant \<and> r_idempotency_key (row_run row) = key"
  by (auto simp: run_by_key_def dest: find_SomeD)

context store
begin

lemma keys_scope: "run_scope S (\<lambda>t i d d'. run_keys (tabs d') = run_keys (tabs d))"
proof (unfold_locales, goal_cases)
  case (8 run evs d ru d')
  then show ?case by (auto dest!: checkpoint_law)
qed (simp_all add: run_keys_def runs_unchanged)

lemma resume_run_keys: "resume E S en flow s = (r, s') \<Longrightarrow> run_keys (tabs (sy_store s')) = run_keys (tabs (sy_store s))"
  using run_scope.resume_scope [OF keys_scope] by blast

text \<open>After a trigger was accepted or found to be a duplicate, its key has a run, even when
  driving the run failed or the process died in it.\<close>

lemma fire_stores_key:
  assumes "fire E S en tenant flow trig s = (r, s')"
    and "\<And>e d. op_create_or_get_run S (trigger_run E (sy_ids s) (tn_id tenant) flow trig) (sy_store s) \<noteq> (Inl e, d)"
  shows "\<exists>row. run_by_key (tn_id tenant) (derive_idempotency_key E trig) (tabs (sy_store s')) = Some row"
  using assms(1)
proof (cases rule: fire_cases)
  case (duplicate run d)
  then show ?thesis using create_or_get_run_law [OF duplicate(1)] by auto
next
  case (started run d s1)
  then have "(tn_id tenant, derive_idempotency_key E trig, r_id run) \<in> set (run_keys (tabs d))"
    using create_or_get_run_law [OF started(1)] by (auto simp: run_keys_def insert_run_def)
  with started resume_run_keys [OF started(2)] show ?thesis
    using run_by_key_iff [of "tn_id tenant" "derive_idempotency_key E trig" "tabs (sy_store s')"] by auto
qed (use assms(2) in blast)

end

lemma fire_duplicate:
  assumes "run_by_key (tn_id tenant) (derive_idempotency_key E trig) (sq_db (sy_store s)) = Some row"
  shows "\<exists>s'. fire E (sqlite_ops E) en tenant flow trig s = (Inr (row_run row), s') \<and>
    sq_db (sy_store s') = sq_db (sy_store s) \<and> sy_world s' = sy_world s \<and> sy_buffer s' = sy_buffer s"
  using assms
  by (cases rule: create_or_get_run_cases [of "trigger_run E (sy_ids s) (tn_id tenant) flow trig" "sy_store s" E])
    (auto simp: fire_def register_workflow_def new_run_def bindc_apply on_store_apply set_run_def metric_def)

section \<open>Properties\<close>

text \<open>The idempotency key of a trigger event does not depend on the order of its fields:
  the canonical text that is hashed sorts them, and explicit keys are found by name.\<close>

lemma key_order_independent:
  assumes "mset ev = mset ev'" and "distinct (map fst ev)"
  shows "derive_idempotency_key E ev = derive_idempotency_key E ev'"
  unfolding derive_idempotency_key_def canonical_def
  using first_truthy_cong [OF map_of_permute [OF assms]] json_dumps_sorted_perm [OF assms] by presburger

text \<open>C20: a delivery that is repeated acts once.  After a trigger was handled, however it ended
  (unless its run id was already taken), firing an event with the same idempotency key for the
  tenant returns a run stored under that key, changes no table and calls no tool, model or
  approver.\<close>

theorem redelivery_acts_once:
  assumes "fire E (sqlite_ops E) en tenant flow trig s = (r, s1)"
    and "run_row (new_id E (sy_ids s) ''run'') (sq_db (sy_store s)) = None"
    and "derive_idempotency_key E trig' = derive_idempotency_key E trig"
  shows "\<exists>run s2. fire E (sqlite_ops E) en tenant flow' trig' s1 = (Inr run, s2) \<and>
    r_tenant_id run = tn_id tenant \<and> r_idempotency_key run = derive_idempotency_key E trig \<and>
    sq_db (sy_store s2) = sq_db (sy_store s1) \<and> sy_world s2 = sy_world s1"
proof -
  have "create_or_get_run E (trigger_run E (sy_ids s) (tn_id tenant) flow trig) (sy_store s) \<noteq> (Inl e, d)" for e d
    using assms(2)
    by (cases rule: create_or_get_run_cases [of "trigger_run E (sy_ids s) (tn_id tenant) flow trig" "sy_store s" E]) auto
  then obtain row where row: "run_by_key (tn_id tenant) (derive_idempotency_key E trig) (sq_db (sy_store s1)) = Some row"
    using sqlite.fire_stores_key [OF assms(1)] by auto
  from fire_duplicate [of tenant E trig' s1 row en flow'] row run_by_key_sel [OF row] assms(3) show ?thesis by auto
qed

theorem redelivery_acts_once_witness:
  "\<exists>run s2. fire demo_env (sqlite_ops demo_env) (mock_engine None) acme build_workflow (invoice 8200)
       (snd (fire demo_env (sqlite_ops demo_env) (mock_engine None) acme build_workflow (invoice 8200) demo_sys)) = (Inr run, s2) \<and>
     r_tenant_id run = ''acme'' \<and>
     sq_db (sy_store s2) = sq_db (sy_store (snd (fire demo_env (sqlite_ops demo_env) (mock_engine None) acme build_workflow
       (invoice 8200) demo_sys)))"
  using redelivery_acts_once [OF outcome_eq [OF refl], of demo_env demo_sys "invoice 8200" "invoice 8200"
      "mock_engine None" acme build_workflow build_workflow]
  by (auto simp: demo_sys_def fresh_sys_def run_row_def new_sqlite_def empty_tables_def acme_def)

end
