(* ===== verification/AuditLog.thy ===== *)
theory AuditLog
  imports Triggers
begin

text \<open>
  The event log and the operations of an operator: that the log only grows, that a checkpoint
  is what is read back, and what purging payloads and canceling a run do.
\<close>

section \<open>The log only grows\<close>

text \<open>What a purge leaves of a logged event: everything but the payload.\<close>

definition stripped :: "EventRow \<Rightarrow> EventRow" where
  "stripped row = row\<lparr>er_event := (er_event row)\<lparr>ev_payload := []\<rparr>\<rparr>"

text \<open>What may have become of a logged event where only the allowed purges are asked for: it is
  unchanged, or it was older than such a purge of its tenant and lost its payload.\<close>

definition retained :: "(string \<Rightarrow> rat \<Rightarrow> bool) \<Rightarrow> EventRow \<Rightarrow> EventRow \<Rightarrow> bool" where
  "retained allowed old new \<longleftrightarrow> new = old \<or>
     new = stripped old \<and> (\<exists>ts. allowed (ev_tenant_id (er_event old)) ts \<and> er_created_at old < ts)"

definition log_retains :: "(string \<Rightarrow> rat \<Rightarrow> bool) \<Rightarrow> EventRow list \<Rightarrow> tables \<Rightarrow> bool" where
  "log_retains allowed base tb \<longleftrightarrow>
     (\<exists>kept rows. tb_events tb = kept @ rows \<and> list_all2 (retained allowed) base kept)"

lemma log_retains_refl: "log_retains allowed (tb_events tb) tb"
proof -
  have "list_all2 (retained allowed) (tb_events tb) (tb_events tb)"
    by (rule list_all2_refl) (simp add: retained_def)
  then show ?thesis unfolding log_retains_def by (metis append_Nil2)
qed

lemma log_retains_more: "log_retains allowed base tb \<Longrightarrow> tb_events tb' = tb_events tb @ rows \<Longrightarrow> log_retains allowed base tb'"
  unfolding log_retains_def by (metis append.assoc)

lemma log_retains_same: "log_retains allowed base tb \<Longrightarrow> tb_events tb' = tb_events tb \<Longrightarrow> log_retains allowed base tb'"
  by (simp add: log_retains_def)

lemma log_retains_log: "log_retains allowed base tb \<Longrightarrow> log_retains allowed base (log_events rows tb)"
  by (erule log_retains_more) simp

lemma log_retains_runs [simp]:
  "log_retains allowed base (update_run run t tb) = log_retains allowed base tb"
  "log_retains allowed base (update_status tenant i st t tb) = log_retains allowed base tb"
  by (simp_all add: log_retains_def)

lemma stripped_purge: "map stripped (tb_events (purge_payloads tenant ts tb)) = map stripped (tb_events tb)"
  by (simp add: purge_payloads_def stripped_def)

lemma purge_payloads_events:
  "tb_events (purge_payloads tenant ts tb) =
     map (\<lambda>row. if purgeable tenant ts row then stripped row else row) (tb_events tb)"
  by (simp add: purge_payloads_def stripped_def)

lemma retained_purge:
  assumes "allowed tenant ts" and "retained allowed old new"
  shows "retained allowed old (if purgeable tenant ts new then stripped new else new)"
  using assms by (auto simp: retained_def purgeable_def stripped_def)

lemma log_retains_purge:
  assumes "allowed tenant ts" and "log_retains allowed base tb"
  shows "log_retains allowed base (purge_payloads tenant ts tb)"
proof -
  let ?f = "\<lambda>row. if purgeable tenant ts row then stripped row else row"
  obtain kept rows where kept: "tb_events tb = kept @ rows" "list_all2 (retained allowed) base kept"
    using assms(2) by (auto simp: log_retains_def)
  have "list_all2 (retained allowed) base (map ?f kept)"
    unfolding list_all2_map2 using kept(2) by (rule list_all2_mono) (rule retained_purge [where allowed = allowed, OF assms(1)])
  then show ?thesis unfolding log_retains_def purge_payloads_events kept(1) map_append by blast
qed

context store
begin

lemma log_inv: "retention_invariant S (\<lambda>d. log_retains allowed base (tabs d)) allowed"
proof (unfold_locales, goal_cases)
  case (6 run evs d ru d')
  then show ?case by (elim checkpoint_law [elim_format] disjE conjE exE) (simp_all add: log_retains_log)
next
  case (9 tenant rid d rb d')
  then show ?case by (elim cancel_run_law [elim_format] disjE conjE exE) (simp_all add: log_retains_log)
next
  case (10 tenant ts d ri d')
  then show ?case by (auto dest!: purge_law simp: log_retains_purge)
qed (auto dest!: store_laws elim!: log_retains_same split: if_splits)

end

interpretation sqlite_log: retention_invariant "sqlite_ops E" "\<lambda>d. log_retains allowed base (sq_db d)" allowed
  for E base allowed
  by (rule sqlite.log_inv)

section \<open>Purging twice\<close>

lemma not_purgeable [simp]: "\<not> purgeable tenant ts (row\<lparr>er_event := (er_event row)\<lparr>ev_payload := []\<rparr>\<rparr>)"
  by (simp add: purgeable_def)

lemma purge_none_left: "filter (purgeable tenant ts) (tb_events (purge_payloads tenant ts tb)) = []"
  by (auto simp: purge_payloads_def filter_empty_conv)

lemma purge_nothing: "filter (purgeable tenant ts) (tb_events tb) = [] \<Longrightarrow> purge_payloads tenant ts tb = tb"
  by (simp add: purge_payloads_def filter_empty_conv map_idI)

lemmas purge_twice = purge_nothing [OF purge_none_left]

text \<open>The events a purge may touch.\<close>

definition expired :: "string \<Rightarrow> rat \<Rightarrow> EventRow \<Rightarrow> bool" where
  "expired tenant ts row \<longleftrightarrow> ev_tenant_id (er_event row) = tenant \<and> er_created_at row < ts"

lemma purge_keeps_rest:
  "filter (\<lambda>row. \<not> expired tenant ts row) (tb_events (purge_payloads tenant ts tb)) =
     filter (\<lambda>row. \<not> expired tenant ts row) (tb_events tb)"
  by (simp add: purge_payloads_def del: filter_map) (rule filter_map_same, auto simp: purgeable_def expired_def split: if_splits)

section \<open>Reading back a checkpoint\<close>

lemma events_of_sorted:
  assumes "tables_inv n tb"
  shows "events_of tenant i tb = filter (\<lambda>ev. ev_run_id ev = i \<and> ev_tenant_id ev = tenant) (map er_event (tb_events tb))"
proof -
  have "sorted (map ev_seq (map er_event (tb_events tb)))"
    using assms by (simp add: tables_inv_def comp_def strict_sorted_imp_sorted)
  then show ?thesis unfolding events_of_def by (intro sort_key_id_if_sorted sorted_filter)
qed

text \<open>An event as it is stored, up to its number.\<close>

definition as_logged :: "Event \<Rightarrow> Event" where
  "as_logged ev = ev\<lparr>ev_payload := redact_dict (ev_payload ev), ev_seq := 0\<rparr>"

definition unnumbered :: "Event \<Rightarrow> Event" where
  "unnumbered ev = ev\<lparr>ev_seq := 0\<rparr>"

lemma stamped_events:
  "map (unnumbered \<circ> er_event) (stamped E n c evs) = map as_logged evs"
  by (induction evs arbitrary: n c) (simp_all add: as_logged_def unnumbered_def)

lemma stamped_owner:
  "row \<in> set (stamped E n c evs) \<Longrightarrow> \<exists>ev\<in>set evs. ev_run_id (er_event row) = ev_run_id ev \<and> ev_tenant_id (er_event row) = ev_tenant_id ev"
  by (induction evs arbitrary: n c) fastforce+

lemma list_events_owned: "owns tenant i (sq_db d) \<Longrightarrow> list_events tenant i d = (Inr (events_of tenant i (sq_db d)), d)"
  by (simp add: list_events_def assert_owns_eq bindc_apply query_def)

section \<open>Properties\<close>

text \<open>C21: the audit log is append-only.  Whatever the threads and processes of a deployment serve,
  however their store operations interleave and wherever they die, the events logged so far
  stay in the log, in order and unchanged, payload included, and new ones come after them; the
  one exception is an event older than a purge that was asked for its tenant, which may have lost
  its payload and nothing else.\<close>

theorem audit_log_append_only:
  assumes "(retention_step E en T allowed)\<^sup>*\<^sup>* (d, w) (d', w')"
  shows "\<exists>kept rows. tb_events (sq_db d') = kept @ rows \<and>
    list_all2 (\<lambda>old new. new = old \<or> new = stripped old \<and>
      (\<exists>ts. allowed (ev_tenant_id (er_event old)) ts \<and> er_created_at old < ts)) (tb_events (sq_db d)) kept"
  using retention_inv [OF assms sqlite_log.retention_invariant_axioms, of "tb_events (sq_db d)"]
  by (simp add: log_retains_refl) (simp add: log_retains_def retained_def [abs_def])

definition noted :: "string \<Rightarrow> EventRow" where
  "noted tenant = \<lparr>er_event = (canceled_event tenant ''run_0'')\<lparr>ev_payload := [(''why'', PStr ''late'')], ev_seq := 1\<rparr>,
     er_created_at = 0\<rparr>"

definition logged_db :: SQLiteStore where
  "logged_db = dead_db\<lparr>sq_db := (sq_db dead_db)\<lparr>tb_events := [noted ''acme'']\<rparr>, sq_seq := 1\<rparr>"

definition busy :: "(((SQLiteStore \<times> StoreCall list list) \<times> nat), accounting) sys" where
  "busy = serve_all demo_env (crash_ops (shared_ops (sqlite_ops demo_env))) (mock_engine None)
     [Resume acme ''run_1'' build_workflow, Purge ''globex'' 9]
     (fresh_sys ((logged_db, [[CancelRun ''acme'' ''run_1''], [PurgePayloads ''globex'' 9]]), 9) demo_registry demo_world new_metrics 0)"

text \<open>With purges asked for another tenant only, the event keeps its payload.\<close>

theorem audit_log_append_only_witness:
  "\<exists>rows. tb_events (sq_db (fst (fst (sy_store busy)))) = noted ''acme'' # rows"
proof -
  have "(retention_step demo_env (mock_engine None) (tr_tools demo_registry) (\<lambda>tenant ts. tenant = ''globex''))\<^sup>*\<^sup>*
      (logged_db, demo_world) (fst (fst (sy_store busy)), sy_world busy)"
    by (rule r_into_rtranclp, rule retaining_worker [OF demo_registry_inv refl _ _ busy_def [symmetric]])
      (simp_all add: sched_allowed_def)
  from audit_log_append_only [OF this] show ?thesis
    by (auto simp: logged_db_def noted_def canceled_event_def list_all2_Cons1)
qed

text \<open>C22: what a checkpoint writes is what is read.  After a checkpoint of a stored run, loading
  the run gives the checkpointed status, cursor, context, cost, steps and result, and its
  events are the earlier ones followed by the checkpointed ones, in order and redacted.\<close>

theorem checkpoint_roundtrip:
  assumes "tables_inv (sq_seq d) (sq_db d)" and "has_row (r_tenant_id run) (r_id run) (sq_db d)"
    and "\<forall>ev\<in>set evs. ev_tenant_id ev = r_tenant_id run \<and> ev_run_id ev = r_id run"
    and "list_events (r_tenant_id run) (r_id run) d = (Inr old, d)"
  shows "\<exists>d' run' new. checkpoint E run evs d = (Inr (), d') \<and>
    load_run (r_tenant_id run) (r_id run) d' = (Inr (Some run'), d') \<and> same_columns run run' \<and>
    list_events (r_tenant_id run) (r_id run) d' = (Inr (old @ new), d') \<and>
    map unnumbered new = map as_logged evs"
proof -
  let ?rows = "stamped E (sq_seq d) (sq_clk d + 1) evs" and ?t = "wall E (sq_clk d)"
  let ?d = "d\<lparr>sq_db := log_events ?rows (update_run run ?t (sq_db d)),
    sq_seq := sq_seq d + int (length evs), sq_clk := sq_clk d + 1 + length evs\<rparr>"
  obtain row where row: "run_row (r_id run) (sq_db d) = Some row" "r_tenant_id (row_run row) = r_tenant_id run"
    using assms(2) by (auto simp: has_row_def)
  have own: "owns (r_tenant_id run) (r_id run) (sq_db d)" using row by (simp add: owns_def)
  have upd: "run_row (r_id run) (sq_db ?d) = Some (set_run_columns run ?t row)"
    using row run_row_id [OF row(1)] by (simp add: run_row_update_run)
  have cp: "checkpoint E run evs d = (Inr (), ?d)"
    using checkpoint_ok [OF own] assms(3) by simp
  have ld: "load_run (r_tenant_id run) (r_id run) ?d = (Inr (Some (row_run (set_run_columns run ?t row))), ?d)"
    using upd row(2) by (simp add: load_run_def query_def bindc_liftE row_to_run_def set_run_columns_def)
  have inv: "tables_inv (sq_seq d + int (length evs)) (sq_db ?d)"
    using tables_inv_log [OF tables_inv_update_run [OF assms(1)]] by simp
  have old: "old = events_of (r_tenant_id run) (r_id run) (sq_db d)"
    using assms(4) list_events_owned [OF own] by simp
  have all: "filter (\<lambda>ev. ev_run_id ev = r_id run \<and> ev_tenant_id ev = r_tenant_id run) (map er_event ?rows) = map er_event ?rows"
    using stamped_owner [of _ E "sq_seq d" "sq_clk d + 1" evs] assms(3) by (fastforce intro!: filter_True)
  have "owns (r_tenant_id run) (r_id run) (sq_db ?d)" using upd row(2) by (simp add: owns_def set_run_columns_def)
  from list_events_owned [OF this]
  have le: "list_events (r_tenant_id run) (r_id run) ?d = (Inr (old @ map er_event ?rows), ?d)"
    using events_of_sorted [OF inv] events_of_sorted [OF assms(1)] all by (simp add: old)
  have "same_columns run (row_run (set_run_columns run ?t row))"
    using row run_row_id [OF row(1)] by (simp add: same_columns_def set_run_columns_def)
  with cp ld le stamped_events [of E "sq_seq d" "sq_clk d + 1" evs] show ?thesis by auto
qed

theorem checkpoint_roundtrip_witness:
  "\<exists>d' run' new. checkpoint demo_env dead_run [canceled_event ''acme'' ''run_1''] dead_db = (Inr (), d') \<and>
     load_run ''acme'' ''run_1'' d' = (Inr (Some run'), d') \<and> same_columns dead_run run' \<and>
     list_events ''acme'' ''run_1'' d' = (Inr ([] @ new), d') \<and>
     map unnumbered new = map as_logged [canceled_event ''acme'' ''run_1'']"
proof -
  have "tables_inv (sq_seq dead_db) (sq_db dead_db)"
    by (simp add: tables_inv_def dead_db_def new_sqlite_def empty_tables_def)
  moreover have "list_events ''acme'' ''run_1'' dead_db = (Inr [], dead_db)"
    using list_events_owned [of "''acme''" "''run_1''" dead_db]
    by (simp add: demo events_of_def) (simp add: dead_db_def new_sqlite_def empty_tables_def)
  ultimately show ?thesis
    using checkpoint_roundtrip [of dead_db dead_run "[canceled_event ''acme'' ''run_1'']" "[]" demo_env]
    by (simp add: demo has_row_def)
qed

text \<open>C23: purging is precise and idempotent.  A purge reports how many payloads it emptied, which
  are those of the tenant's events before the given time; every other column, row and table
  (runs, effects, approvals and tenants) is as it was, and the same purge again finds nothing.\<close>

theorem purge_precise:
  "\<exists>d'. purge_event_payloads tenant ts d = (Inr (int (length (filter (purgeable tenant ts) (tb_events (sq_db d))))), d') \<and>
     map stripped (tb_events (sq_db d')) = map stripped (tb_events (sq_db d)) \<and>
     filter (\<lambda>row. \<not> expired tenant ts row) (tb_events (sq_db d')) =
       filter (\<lambda>row. \<not> expired tenant ts row) (tb_events (sq_db d)) \<and>
     tb_runs (sq_db d') = tb_runs (sq_db d) \<and> tb_effects (sq_db d') = tb_effects (sq_db d) \<and>
     tb_approvals (sq_db d') = tb_approvals (sq_db d) \<and> tb_tenants (sq_db d') = tb_tenants (sq_db d) \<and>
     purge_event_payloads tenant ts d' = (Inr 0, d')"
  using stripped_purge [of tenant ts "sq_db d"] purge_keeps_rest [of tenant ts "sq_db d"]
  by (simp add: purge_event_payloads_def sq_defs purge_twice purge_none_left)

text \<open>C24: canceling a run that no worker is driving stops it.  Canceling a run of the tenant that
  has not ended succeeds; it leaves the run canceled, with a \<open>run_canceled\<close> event logged, and
  resuming it afterwards returns it as canceled, with nothing written and no tool, model or
  approver called.  (A worker that drives the run at that moment goes on: see
  \<open>checkpoint_overwrites_cancel\<close>.)\<close>

theorem canceled_run_posts_nothing:
  assumes "run_row i (sq_db (sy_store s)) = Some row" and "r_tenant_id (row_run row) = tn_id tenant"
    and "\<not> terminal (r_status (row_run row))"
  shows "\<exists>d' run. cancel_run E (tn_id tenant) i (sy_store s) = (Inr True, d') \<and>
    resume_run E (sqlite_ops E) en tenant i flow (s\<lparr>sy_store := d'\<rparr>) = (Inr run, s\<lparr>sy_store := d'\<rparr>) \<and>
    r_status run = CANCELED \<and> r_id run = i \<and>
    (\<exists>ev. tb_events (sq_db d') = tb_events (sq_db (sy_store s)) @ [ev] \<and> ev_type (er_event ev) = ''run_canceled'' \<and>
      ev_run_id (er_event ev) = i \<and> ev_tenant_id (er_event ev) = tn_id tenant)"
proof (cases rule: cancel_run_cases [of i "sy_store s" E "tn_id tenant"])
  case (canceled row)
  with run_row_id [OF canceled(1)] show ?thesis
    by (auto simp: resume_run_def bindc_apply on_store_apply load_run_def query_def row_to_run_def
        run_row_update_status terminal_def canceled_event_def)
qed (use assms in auto)

theorem canceled_run_posts_nothing_witness:
  "\<exists>d' run. cancel_run demo_env ''acme'' ''run_1'' dead_db = (Inr True, d') \<and>
     resume_run demo_env (sqlite_ops demo_env) (mock_engine None) acme ''run_1'' build_workflow ((demo_at dead_db)\<lparr>sy_store := d'\<rparr>) =
       (Inr run, (demo_at dead_db)\<lparr>sy_store := d'\<rparr>) \<and> r_status run = CANCELED"
  using canceled_run_posts_nothing [of "''run_1''" "demo_at dead_db" _ acme demo_env "mock_engine None" build_workflow]
  by (auto simp: demo acme_def terminal_def)

text \<open>A checkpoint does not look at the stored status.  When a run was canceled while a worker
  drives it, the worker's next checkpoint writes its own status over \<open>canceled\<close>: the run goes
  on as if it had not been canceled.\<close>

theorem checkpoint_overwrites_cancel:
  assumes "cancel_run E tenant i d = (Inr True, d1)"
    and "r_tenant_id run = tenant" and "r_id run = i" and "r_status run = RUNNING"
    and "\<forall>ev\<in>set evs. ev_tenant_id ev = tenant"
  shows "\<exists>d2 run'. checkpoint E run evs d1 = (Inr (), d2) \<and> load_run tenant i d2 = (Inr (Some run'), d2) \<and>
    r_status run' = RUNNING"
proof (cases rule: cancel_run_cases [of i d E tenant])
  case (canceled row)
  with assms(1) run_row_id [OF canceled(1)] have row: "\<exists>row. run_row i (sq_db d1) = Some row \<and>
      r_tenant_id (row_run row) = tenant \<and> r_id (row_run row) = i"
    by (auto simp: run_row_update_status)
  then have "owns (r_tenant_id run) (r_id run) (sq_db d1)" using assms(2,3) by (auto simp: owns_def)
  from checkpoint_ok [OF this] assms row show ?thesis
    by (auto simp: load_run_def query_def bindc_liftE row_to_run_def run_row_update_run set_run_columns_def)
qed (use assms in auto)

theorem checkpoint_overwrites_cancel_witness:
  "\<exists>d1 d2 run'. cancel_run demo_env ''acme'' ''run_1'' dead_db = (Inr True, d1) \<and>
     checkpoint demo_env dead_run [] d1 = (Inr (), d2) \<and> load_run ''acme'' ''run_1'' d2 = (Inr (Some run'), d2) \<and>
     r_status run' = RUNNING"
proof -
  obtain d1 where d1: "cancel_run demo_env ''acme'' ''run_1'' dead_db = (Inr True, d1)"
    by (cases rule: cancel_run_cases [of "''run_1''" dead_db demo_env "''acme''"]) (auto simp: demo terminal_def)
  then show ?thesis
    using checkpoint_overwrites_cancel [OF d1, of dead_run "[]"] by (auto simp: demo)
qed

end
