(* ===== verification/Contention.thy ===== *)
theory Contention
  imports AuditLog
begin

text \<open>
  Deliveries that race.  The threads of a process share its store, and a trigger that is
  delivered several times may be fired by several threads at once: whichever inserts the run
  first, the others find it and return it without acting.
\<close>

section \<open>Which run a key has\<close>

definition key_run :: "string \<Rightarrow> string \<Rightarrow> tables \<Rightarrow> string option" where
  "key_run t k tb = map_option (r_id \<circ> row_run) (run_by_key t k tb)"

lemma key_run_keys:
  "key_run t k tb = map_option (snd \<circ> snd) (List.find (\<lambda>(t', k', i). t' = t \<and> k' = k) (run_keys tb))"
proof -
  have "map_option (r_id \<circ> row_run) (List.find (\<lambda>row. r_tenant_id (row_run row) = t \<and> r_idempotency_key (row_run row) = k) rows) =
    map_option (snd \<circ> snd) (List.find (\<lambda>(t', k', i). t' = t \<and> k' = k)
      (map (\<lambda>row. (r_tenant_id (row_run row), r_idempotency_key (row_run row), r_id (row_run row))) rows))" for rows
    by (induction rows) auto
  then show ?thesis by (simp add: key_run_def run_by_key_def run_keys_def)
qed

lemma key_run_grows: "run_keys tb' = run_keys tb @ ks \<Longrightarrow> key_run t k tb = Some i \<Longrightarrow> key_run t k tb' = Some i"
  by (auto simp: key_run_keys find_append)

lemma run_keys_insert: "run_keys (insert_run run t tb) = run_keys tb @ [(r_tenant_id run, r_idempotency_key run, r_id run)]"
  by (simp add: run_keys_def insert_run_def)

lemma run_keys_update_status [simp]: "run_keys (update_status tenant i st t tb) = run_keys tb"
  by (simp add: run_keys_def update_status_def)

context store
begin

lemma key_inv: "store_invariant S (\<lambda>d. key_run t k (tabs d) = Some i)"
proof (unfold_locales, goal_cases)
  case (6 run evs d ru d')
  then show ?case by (auto dest!: checkpoint_law simp: key_run_keys)
next
  case (7 run d rc d')
  then show ?case
    by (auto dest!: create_or_get_run_law intro: key_run_grows [OF run_keys_insert])
next
  case (9 tenant rid d rb d')
  then show ?case by (auto dest!: cancel_run_law simp: key_run_keys)
qed (auto dest!: store_laws simp: key_run_keys run_keys_def split: if_splits)

end

interpretation sqlite_key: store_invariant "sqlite_ops E" "\<lambda>d. key_run t k (sq_db d) = Some i" for E t k i
  by (rule sqlite.key_inv)

section \<open>What a fire returns\<close>

lemma resume_returns:
  assumes "resume E S en flow s = (Inr run, s')"
  shows "r_id run = r_id (sy_run s)"
proof -
  have "run_scope S (\<lambda>t i d d'. True)" by unfold_locales simp_all
  from run_scope.resume_scope [OF this assms] have "r_id (sy_run s') = r_id (sy_run s)" by simp
  moreover have "run = sy_run s' \<or> s' = s \<and> run = sy_run s"
    using assms by (auto simp: resume_def handle_def bindc_apply metric_def split: if_splits prod.splits sum.splits)
  ultimately show ?thesis by auto
qed

lemma create_sets_key:
  assumes "create_or_get_run E run d = (Inr (run', new), d')"
  shows "key_run (r_tenant_id run) (r_idempotency_key run) (sq_db d') = Some (r_id run')"
  using assms
proof (cases rule: create_or_get_run_cases [of run d E])
  case created
  with assms show ?thesis by (auto simp: key_run_def run_by_key_def insert_run_def find_append)
qed (auto simp: key_run_def)

lemma shared_fire_returns:
  assumes "fire E (shared_ops (sqlite_ops E)) en tenant flow trig s = (Inr run, s')"
  shows "key_run (tn_id tenant) (derive_idempotency_key E trig)
    (sq_db (snd (create_or_get_run E (trigger_run E (sy_ids s) (tn_id tenant) flow trig) (turn (sqlite_ops E) (sy_store s))))) =
    Some (r_id run)"
  using assms
proof (cases rule: fire_cases)
  case (duplicate run' d)
  then show ?thesis using create_sets_key [of E "trigger_run E (sy_ids s) (tn_id tenant) flow trig"]
    by (auto simp: shared_ops_def elim!: shared_cases)
next
  case (started run' d s1)
  then show ?thesis
    using create_sets_key [of E "trigger_run E (sy_ids s) (tn_id tenant) flow trig"] resume_returns [OF started(2)]
    by (auto simp: shared_ops_def elim!: shared_cases)
qed simp

lemma shared_fire_duplicate:
  assumes "run_by_key (tn_id tenant) (derive_idempotency_key E trig) (sq_db (turn (sqlite_ops E) (sy_store s))) = Some row"
  shows "\<exists>s'. fire E (shared_ops (sqlite_ops E)) en tenant flow trig s = (Inr (row_run row), s') \<and>
    sq_db (fst (sy_store s')) = sq_db (turn (sqlite_ops E) (sy_store s)) \<and> sy_world s' = sy_world s"
  using assms
  by (cases rule: create_or_get_run_cases [of "trigger_run E (sy_ids s) (tn_id tenant) flow trig" "turn (sqlite_ops E) (sy_store s)" E])
    (auto simp: fire_def register_workflow_def new_run_def bindc_apply on_store_apply set_run_def metric_def
      shared_ops_def shared_def)

section \<open>Properties\<close>

text \<open>C19: deliveries that race agree.  Two threads fire events with the same idempotency key for a
  tenant, over one store and among any other threads.  Once the first has made its insertion, at any
  time from then on and whatever operations were made in between, the second gets the run with
  the id that the first returns; its fire changes no table and calls no tool, model or approver.\<close>

theorem concurrent_deliveries_agree:
  assumes "fire E (shared_ops (sqlite_ops E)) en1 tenant flow1 trig1 s1 = (Inr run1, s1')"
    and "derive_idempotency_key E trig2 = derive_idempotency_key E trig1"
    and "turn (sqlite_ops E) (sy_store s2) = rivals (sqlite_ops E) calls
      (snd (create_or_get_run E (trigger_run E (sy_ids s1) (tn_id tenant) flow1 trig1) (turn (sqlite_ops E) (sy_store s1))))"
  shows "\<exists>run2 s2'. fire E (shared_ops (sqlite_ops E)) en2 tenant flow2 trig2 s2 = (Inr run2, s2') \<and>
    r_id run2 = r_id run1 \<and> sy_world s2' = sy_world s2 \<and>
    sq_db (fst (sy_store s2')) = sq_db (turn (sqlite_ops E) (sy_store s2))"
proof -
  let ?key = "derive_idempotency_key E trig1"
  have "key_run (tn_id tenant) ?key (sq_db (turn (sqlite_ops E) (sy_store s2))) = Some (r_id run1)"
    unfolding assms(3)
    by (rule rivals_keep [where P = "\<lambda>d. key_run (tn_id tenant) ?key (sq_db d) = Some (r_id run1)",
          OF sqlite_key.inv_perform shared_fire_returns [OF assms(1)]])
  then obtain row where "run_by_key (tn_id tenant) ?key (sq_db (turn (sqlite_ops E) (sy_store s2))) = Some row"
      and id: "r_id (row_run row) = r_id run1"
    by (auto simp: key_run_def)
  with shared_fire_duplicate [of tenant E trig2 s2 row en2 flow2] assms(2) show ?thesis by auto
qed

text \<open>The first thread finds the run of an earlier delivery; before the second gets its turn, the run is canceled.\<close>

theorem concurrent_deliveries_agree_witness:
  "\<exists>run2 s2'. fire demo_env (shared_ops (sqlite_ops demo_env)) (mock_engine None) acme build_workflow [(''message_id'', PStr ''m1'')]
      (fresh_sys (dead_db\<lparr>sq_clk := 1\<rparr>, [[CancelRun ''acme'' ''run_1'']]) demo_registry demo_world new_metrics 5) = (Inr run2, s2') \<and>
    r_id run2 = ''run_1'' \<and> sy_world s2' = demo_world"
proof -
  let ?E = demo_env and ?S = "sqlite_ops demo_env"
  let ?s1 = "fresh_sys (dead_db, []) demo_registry demo_world new_metrics 0"
    and ?s2 = "fresh_sys (dead_db\<lparr>sq_clk := 1\<rparr>, [[CancelRun ''acme'' ''run_1'']]) demo_registry demo_world new_metrics 5"
  have key: "derive_idempotency_key ?E [(''message_id'', PStr ''m1'')] = ''m1''" by code_simp
  have row: "run_by_key ''acme'' ''m1'' (sq_db dead_db) = Some
      \<lparr>row_run = dead_run, row_started_at = 0, row_updated_at = 0\<rparr>"
    by (simp add: run_by_key_def dead_db_def dead_run_def mk_run_def)
  obtain s1' where f1: "fire ?E (shared_ops ?S) (mock_engine None) acme build_workflow [(''message_id'', PStr ''m1'')] ?s1 = (Inr dead_run, s1')"
    using shared_fire_duplicate [of acme ?E "[(''message_id'', PStr ''m1'')]" ?s1 _ "mock_engine None" build_workflow] key row
    by (auto simp: fresh_sys_def acme_def)
  have "create_or_get_run ?E (trigger_run ?E 0 ''acme'' build_workflow [(''message_id'', PStr ''m1'')]) dead_db = (Inr (dead_run, False), dead_db\<lparr>sq_clk := 1\<rparr>)"
    using key row by (cases rule: create_or_get_run_cases [of "trigger_run ?E 0 ''acme'' build_workflow [(''message_id'', PStr ''m1'')]" dead_db ?E])
      (auto simp: dead_db_def new_sqlite_def)
  then show ?thesis
    using concurrent_deliveries_agree [OF f1 refl, of ?s2 "[CancelRun ''acme'' ''run_1'']" "mock_engine None" build_workflow]
    by (auto simp: fresh_sys_def acme_def demo)
qed

text \<open>A step that is completed ends with a checkpoint of the run it advanced.\<close>

lemma drive_step_saves:
  assumes "drive_step E S en flow budget i s = (Inr n, s')"
  obtains s2 s3 where "advance n s2 = (Inr (), s3)" "engine_checkpoint S s3 = (Inr (), s')"
  using assms by (auto simp: drive_step_def bindc_eq_Inr split: option.splits)

text \<open>A cancellation that arrives while a thread drives the last step of the run is written over:
  whatever the other threads did to the run in the meantime, it ends as succeeded.\<close>

lemma last_step_overwrites_cancel:
  assumes "drive_step E (shared_ops (sqlite_ops E)) en flow budget i s = (Inr None, s')"
    and "run_row (r_id (sy_run s')) (sq_db (fst (sy_store s'))) = Some row"
  shows "r_status (row_run row) = SUCCEEDED"
proof -
  obtain s2 s3 where adv: "advance None s2 = (Inr (), s3)"
    and cp: "engine_checkpoint (shared_ops (sqlite_ops E)) s3 = (Inr (), s')"
    using drive_step_saves [OF assms(1)] .
  from adv have st: "r_status (sy_run s3) = SUCCEEDED" by (auto simp: advance_def emit_def)
  let ?d = "turn (sqlite_ops E) (sy_store s3)"
  from cp have run: "sy_run s' = sy_run s3"
    and save: "checkpoint E (sy_run s3) (sy_buffer s3) ?d = (Inr (), fst (sy_store s'))"
    by (auto simp: engine_checkpoint_def bindc_eq_Inr on_store_Inr shared_ops_def elim!: shared_cases)
  show ?thesis
  proof (cases rule: checkpoint_cases [of "sy_run s3" ?d "sy_buffer s3" E])
    case ok
    have "fst (sy_store s') = snd (checkpoint E (sy_run s3) (sy_buffer s3) ?d)" using save by simp
    then have "\<exists>t rows. sq_db (fst (sy_store s')) = log_events rows (update_run (sy_run s3) t (sq_db ?d))"
      unfolding ok(3) by (simp, blast)
    with assms(2) run obtain t row0 where "run_row (r_id (sy_run s3)) (sq_db ?d) = Some row0"
        "row = (if r_id (row_run row0) = r_id (sy_run s3) \<and> r_tenant_id (row_run row0) = r_tenant_id (sy_run s3)
           then set_run_columns (sy_run s3) t row0 else row0)"
      by (auto simp: run_row_update_run)
    with ok(1) st show ?thesis by (simp add: owns_def run_row_id set_run_columns_def)
  qed (use save in simp)
qed

end
