(* ===== verification/PostgresStore.thy ===== *)
theory PostgresStore
  imports SQLiteStore
begin

text \<open>
  \<open>PostgresStore\<close> of \<open>store_postgres.py\<close>, method by method, and that it implements the
  same contract as \<open>SQLiteStore\<close>.

  The state is the database, the last value of the sequence behind \<open>events.seq\<close>, and how
  often \<open>time.time()\<close> and \<open>uuid4\<close> were called.  Unlike SQLite's counter a PostgreSQL sequence
  is not rolled back, so an aborted checkpoint leaves a gap in the numbers.  \<open>pg_transaction\<close>
  is \<open>with self._conn.transaction()\<close>; a statement outside of one commits by itself.  \<open>ORDER BY\<close>
  leaves the order of rows with equal keys open; the record \<open>Ties\<close> stands for what PostgreSQL makes of it: any choice.
\<close>

record PostgresStore =
  pg_db :: tables
  pg_seq :: int
  pg_clk :: nat
  pg_ids :: nat

type_synonym 'a pg = "(exn, PostgresStore, 'a) comp"

text \<open>How PostgreSQL breaks ties: which of the latest approvals \<open>LIMIT 1\<close> takes, and how it arranges the rows of
  \<open>runs\<close> that a query orders.\<close>

record Ties =
  tie_row :: "ApprovalRow list \<Rightarrow> nat"
  tie_order :: "RunRow list \<Rightarrow> RunRow list"

text \<open>Rows with equal keys stay in the order of insertion, and the first of them is taken.\<close>

definition default_ties :: Ties where
  "default_ties = \<lparr>tie_row = (\<lambda>_. 0), tie_order = id\<rparr>"

definition new_postgres :: PostgresStore where
  "new_postgres = \<lparr>pg_db = empty_tables, pg_seq = 0, pg_clk = 0, pg_ids = 0\<rparr>"

definition pg_transaction :: "'a pg \<Rightarrow> 'a pg" where
  "pg_transaction m = (\<lambda>s. case m s of
      (Inl e, s') \<Rightarrow> (Inl e, s'\<lparr>pg_db := pg_db s\<rparr>)
    | (Inr x, s') \<Rightarrow> (Inr x, s'))"

definition pg_time :: "env \<Rightarrow> rat pg" where
  "pg_time E = (\<lambda>s. (Inr (wall E (pg_clk s)), s\<lparr>pg_clk := pg_clk s + 1\<rparr>))"

definition pg_fresh_id :: "env \<Rightarrow> string \<Rightarrow> string pg" where
  "pg_fresh_id E pre = (\<lambda>s. (Inr (new_id E (pg_ids s) pre), s\<lparr>pg_ids := pg_ids s + 1\<rparr>))"

definition pg_sql :: "(tables \<Rightarrow> tables) \<Rightarrow> unit pg" where
  "pg_sql f = modify (\<lambda>s. s\<lparr>pg_db := f (pg_db s)\<rparr>)"

definition pg_query :: "(tables \<Rightarrow> 'a) \<Rightarrow> 'a pg" where
  "pg_query f = gets (\<lambda>s. f (pg_db s))"

section \<open>Helpers\<close>

definition pg_assert_owns :: "string \<Rightarrow> string \<Rightarrow> unit pg" where
  "pg_assert_owns tenant i = bindc (pg_query (run_row i)) (\<lambda>row. case row of
      None \<Rightarrow> ret ()
    | Some row \<Rightarrow>
        if r_tenant_id (row_run row) \<noteq> tenant
        then throw (Exn TenantIsolationError (''run '' @ i @ '' belongs to a different tenant''))
        else ret ())"

definition pg_row_to_run :: "RunRow \<Rightarrow> string \<Rightarrow> exn + Run" where
  "pg_row_to_run row tenant =
     (if r_tenant_id (row_run row) \<noteq> tenant
      then Inl (Exn TenantIsolationError ''run belongs to a different tenant'')
      else Inr (row_run row))"

section \<open>Tenants and runs\<close>

definition pg_ensure_tenant :: "env \<Rightarrow> string \<Rightarrow> string \<Rightarrow> pydict \<Rightarrow> unit pg" where
  "pg_ensure_tenant E tenant nm settings =
     bindc (pg_time E) (\<lambda>t. pg_sql (upsert_tenant tenant nm settings t))"

definition pg_load_by_key :: "string \<Rightarrow> string \<Rightarrow> Run option pg" where
  "pg_load_by_key tenant key = bindc (pg_query (run_by_key tenant key)) (\<lambda>row. case row of
      None \<Rightarrow> ret None
    | Some row \<Rightarrow> bindc (liftE (pg_row_to_run row tenant)) (\<lambda>r. ret (Some r)))"

text \<open>\<open>ON CONFLICT (tenant_id, idempotency_key) DO NOTHING\<close>: only a conflict on that pair is
  ignored; a run id that is taken violates the primary key and raises.\<close>

definition pg_create_or_get_run :: "env \<Rightarrow> Run \<Rightarrow> (Run \<times> bool) pg" where
  "pg_create_or_get_run E run =
     bindc (pg_time E) (\<lambda>t.
     bindc (pg_transaction (
              bindc (pg_query (run_by_key (r_tenant_id run) (r_idempotency_key run))) (\<lambda>dup.
              bindc (pg_query (run_row (r_id run))) (\<lambda>taken.
              if dup \<noteq> None then ret False
              else if taken \<noteq> None
              then throw (Exn IntegrityError ''duplicate key value violates unique constraint'')
              else seqc (pg_sql (insert_run run t)) (ret True))))) (\<lambda>created.
     if created then ret (run, True)
     else bindc (pg_load_by_key (r_tenant_id run) (r_idempotency_key run)) (\<lambda>existing.
            case existing of
              None \<Rightarrow> throw (Exn AssertionError [])
            | Some r \<Rightarrow> ret (r, False))))"

definition pg_load_run :: "string \<Rightarrow> string \<Rightarrow> Run option pg" where
  "pg_load_run tenant i = bindc (pg_query (run_row i)) (\<lambda>row. case row of
      None \<Rightarrow> ret None
    | Some row \<Rightarrow> bindc (liftE (pg_row_to_run row tenant)) (\<lambda>r. ret (Some r)))"

text \<open>\<open>ORDER BY started_at DESC\<close>: some arrangement of the rows in that order.\<close>

definition arranged :: "Ties \<Rightarrow> RunRow list \<Rightarrow> RunRow list" where
  "arranged pick rows = (let rows' = tie_order pick rows in
     if mset rows' = mset rows \<and> sorted (map (\<lambda>row. - row_started_at row) rows') then rows' else rows)"

text \<open>PostgreSQL refuses a negative \<open>LIMIT\<close>.\<close>

definition pg_list_runs :: "Ties \<Rightarrow> string \<Rightarrow> int \<Rightarrow> string option \<Rightarrow> Run list pg" where
  "pg_list_runs pick tenant limit status =
     (if limit < 0 then throw (Exn (PyException ''InvalidRowCountInLimitClause'') ''LIMIT must not be negative'')
      else bindc (pg_query (\<lambda>tb. arranged pick (runs_of tenant status tb))) (\<lambda>rows.
        mapc (\<lambda>row. liftE (pg_row_to_run row tenant)) (take (nat limit) rows)))"

section \<open>Checkpoints and the event log\<close>

definition pg_insert_event :: "env \<Rightarrow> Event \<Rightarrow> unit pg" where
  "pg_insert_event E ev =
     bindc (pg_time E) (\<lambda>t. modify (\<lambda>s. s\<lparr>pg_db := insert_event ev (pg_seq s + 1) t (pg_db s),
                                           pg_seq := pg_seq s + 1\<rparr>))"

fun pg_insert_events :: "env \<Rightarrow> string \<Rightarrow> Event list \<Rightarrow> unit pg" where
  "pg_insert_events E tenant [] = ret ()"
| "pg_insert_events E tenant (ev # evs) =
     (if ev_tenant_id ev \<noteq> tenant
      then throw (Exn TenantIsolationError ''event tenant does not match run tenant'')
      else seqc (pg_insert_event E (ev\<lparr>ev_payload := redact_dict (ev_payload ev)\<rparr>))
                (pg_insert_events E tenant evs))"

definition pg_checkpoint :: "env \<Rightarrow> Run \<Rightarrow> Event list \<Rightarrow> unit pg" where
  "pg_checkpoint E run events =
     pg_transaction (
       seqc (pg_assert_owns (r_tenant_id run) (r_id run))
      (seqc (bindc (pg_time E) (\<lambda>t. pg_sql (update_run run t)))
            (pg_insert_events E (r_tenant_id run) events)))"

definition pg_list_events :: "string \<Rightarrow> string \<Rightarrow> Event list pg" where
  "pg_list_events tenant i = seqc (pg_assert_owns tenant i) (pg_query (events_of tenant i))"

definition pg_cancel_run :: "env \<Rightarrow> string \<Rightarrow> string \<Rightarrow> bool pg" where
  "pg_cancel_run E tenant i =
     pg_transaction (
       bindc (pg_query (run_row i)) (\<lambda>row.
       case row of
         None \<Rightarrow> seqc (pg_assert_owns tenant i) (ret False)
       | Some row \<Rightarrow>
           if r_tenant_id (row_run row) \<noteq> tenant then seqc (pg_assert_owns tenant i) (ret False)
           else if terminal (r_status (row_run row)) then ret False
           else seqc (bindc (pg_time E) (\<lambda>t. pg_sql (update_status tenant i CANCELED t)))
               (seqc (pg_insert_event E
                       \<lparr>ev_run_id = i, ev_tenant_id = tenant, ev_type = ''run_canceled'', ev_payload = [],
                        ev_step_id = None, ev_actor = ''user'', ev_cost_usd = 0, ev_seq = 0\<rparr>)
                     (ret True))))"

section \<open>Side-effect ledger\<close>

definition pg_get_effect :: "string \<Rightarrow> string \<Rightarrow> pyval pg" where
  "pg_get_effect tenant key = bindc (pg_query (effect_row key)) (\<lambda>row. case row of
      None \<Rightarrow> ret PNone
    | Some row \<Rightarrow>
        if fx_tenant_id row \<noteq> tenant
        then throw (Exn TenantIsolationError ''effect belongs to a different tenant'')
        else ret (fx_result row))"

definition pg_record_effect ::
  "env \<Rightarrow> string \<Rightarrow> string \<Rightarrow> string \<Rightarrow> string option \<Rightarrow> string \<Rightarrow> pyval \<Rightarrow> unit pg" where
  "pg_record_effect E tenant key rid sid tool result =
     bindc (pg_time E) (\<lambda>t.
       pg_sql (\<lambda>tb. if effect_row key tb \<noteq> None then tb
         else insert_effect \<lparr>fx_key = key, fx_run_id = rid, fx_tenant_id = tenant, fx_step_id = sid,
                             fx_tool = tool, fx_result = result, fx_created_at = t\<rparr> tb))"

section \<open>Approvals and retention\<close>

definition pg_create_approval :: "env \<Rightarrow> string \<Rightarrow> string \<Rightarrow> string \<Rightarrow> string list \<Rightarrow> string pg" where
  "pg_create_approval E tenant rid sid approvers =
     bindc (pg_fresh_id E ''appr'') (\<lambda>aid.
     seqc (pg_transaction (
       seqc (pg_assert_owns tenant rid)
         (bindc (pg_time E) (\<lambda>t.
          bindc (pg_query (approval_row aid)) (\<lambda>dup.
            if dup \<noteq> None then throw (Exn IntegrityError ''duplicate key value violates unique constraint'')
            else pg_sql (insert_approval
              \<lparr>ap_id = aid, ap_run_id = rid, ap_tenant_id = tenant, ap_step_id = sid,
               ap_status = AP_PENDING, ap_approvers = approvers, ap_decided_by = None, ap_note = None,
               ap_requested_at = t, ap_decided_at = None\<rparr>))))))
     (ret aid))"

definition pg_resolve_approval :: "env \<Rightarrow> string \<Rightarrow> string \<Rightarrow> bool \<Rightarrow> string \<Rightarrow> string \<Rightarrow> unit pg" where
  "pg_resolve_approval E tenant aid approved decided_by note =
     pg_transaction (
       bindc (pg_query (approval_row aid)) (\<lambda>row.
       case row of
         None \<Rightarrow> throw (Exn KeyError (repr_str aid))
       | Some row \<Rightarrow>
           if ap_tenant_id row \<noteq> tenant
           then throw (Exn TenantIsolationError ''approval belongs to a different tenant'')
           else bindc (pg_time E) (\<lambda>t. pg_sql (decide_approval aid
                  (if approved then AP_APPROVED else AP_REJECTED) decided_by note t))))"

definition pg_purge_event_payloads :: "string \<Rightarrow> rat \<Rightarrow> int pg" where
  "pg_purge_event_payloads tenant before_ts =
     pg_transaction (
       bindc (pg_query (\<lambda>tb. int (length (filter (purgeable tenant before_ts) (tb_events tb))))) (\<lambda>n.
       seqc (pg_sql (purge_payloads tenant before_ts)) (ret n)))"

text \<open>The rows with the latest \<open>requested_at\<close>; one of them is returned.\<close>

definition latest_rows :: "ApprovalRow list \<Rightarrow> ApprovalRow list" where
  "latest_rows rows = filter (\<lambda>row. \<forall>row'\<in>set rows. ap_requested_at row' \<le> ap_requested_at row) rows"

definition pg_latest_row :: "Ties \<Rightarrow> ApprovalRow list \<Rightarrow> ApprovalRow option" where
  "pg_latest_row pick rows = (let top = latest_rows rows in
     if top = [] then None else Some (top ! (tie_row pick top mod length top)))"

definition pg_latest_approval ::
  "Ties \<Rightarrow> string \<Rightarrow> string \<Rightarrow> string \<Rightarrow> (string \<times> ApprovalStatus) option pg" where
  "pg_latest_approval pick tenant rid sid =
     pg_query (\<lambda>tb. map_option (\<lambda>row. (ap_id row, ap_status row))
       (pg_latest_row pick (approvals_for tenant rid sid tb)))"

definition postgres_ops :: "Ties \<Rightarrow> env \<Rightarrow> PostgresStore StoreOps" where
  "postgres_ops pick E =
     \<lparr>op_ensure_tenant = pg_ensure_tenant E,
      op_create_or_get_run = pg_create_or_get_run E,
      op_load_run = pg_load_run,
      op_list_runs = pg_list_runs pick,
      op_checkpoint = pg_checkpoint E,
      op_list_events = pg_list_events,
      op_get_effect = pg_get_effect,
      op_record_effect = pg_record_effect E,
      op_create_approval = pg_create_approval E,
      op_resolve_approval = pg_resolve_approval E,
      op_latest_approval = pg_latest_approval pick,
      op_cancel_run = pg_cancel_run E,
      op_purge_event_payloads = pg_purge_event_payloads\<rparr>"

lemma postgres_ops_simps [simp]:
  "op_ensure_tenant (postgres_ops pick E) = pg_ensure_tenant E"
  "op_create_or_get_run (postgres_ops pick E) = pg_create_or_get_run E"
  "op_load_run (postgres_ops pick E) = pg_load_run"
  "op_list_runs (postgres_ops pick E) = pg_list_runs pick"
  "op_checkpoint (postgres_ops pick E) = pg_checkpoint E"
  "op_list_events (postgres_ops pick E) = pg_list_events"
  "op_get_effect (postgres_ops pick E) = pg_get_effect"
  "op_record_effect (postgres_ops pick E) = pg_record_effect E"
  "op_create_approval (postgres_ops pick E) = pg_create_approval E"
  "op_resolve_approval (postgres_ops pick E) = pg_resolve_approval E"
  "op_latest_approval (postgres_ops pick E) = pg_latest_approval pick"
  "op_cancel_run (postgres_ops pick E) = pg_cancel_run E"
  "op_purge_event_payloads (postgres_ops pick E) = pg_purge_event_payloads"
  by (simp_all add: postgres_ops_def)

section \<open>The two stores in step\<close>

text \<open>
  \<open>sq_of\<close> reads a PostgreSQL state as a SQLite state.  \<open>in_step m n\<close>: from states that
  correspond, the operations \<open>m\<close> of PostgreSQL and \<open>n\<close> of SQLite return or raise the same and
  end in states that correspond, except that after an error the sequence may be ahead.
\<close>

definition sq_of :: "PostgresStore \<Rightarrow> SQLiteStore" where
  "sq_of s = \<lparr>sq_db = pg_db s, sq_seq = pg_seq s, sq_clk = pg_clk s, sq_ids = pg_ids s\<rparr>"

definition agree :: "exn + 'a \<Rightarrow> PostgresStore \<Rightarrow> SQLiteStore \<Rightarrow> bool" where
  "agree r s t \<longleftrightarrow> (case r of
      Inl e \<Rightarrow> sq_db t = pg_db s \<and> sq_clk t = pg_clk s \<and> sq_ids t = pg_ids s
    | Inr x \<Rightarrow> t = sq_of s)"

definition in_step :: "'a pg \<Rightarrow> 'a sq \<Rightarrow> bool" where
  "in_step m n \<longleftrightarrow> (\<forall>s. fst (n (sq_of s)) = fst (m s) \<and> agree (fst (m s)) (snd (m s)) (snd (n (sq_of s))))"

lemma sq_of_sel [simp]:
  "sq_db (sq_of s) = pg_db s" "sq_seq (sq_of s) = pg_seq s" "sq_clk (sq_of s) = pg_clk s" "sq_ids (sq_of s) = pg_ids s"
  by (simp_all add: sq_of_def)

named_theorems in_step_rules \<open>operations of the two stores that are in step\<close>

lemma in_step_ret [in_step_rules]: "in_step (ret x) (ret x)"
  by (simp add: in_step_def agree_def)

lemma in_step_throw [in_step_rules]: "in_step (throw e) (throw e)"
  by (simp add: in_step_def agree_def)

lemma in_step_liftE [in_step_rules]: "in_step (liftE r) (liftE r)"
  by (simp add: in_step_def agree_def split: sum.splits)

lemma in_step_bindc [in_step_rules]:
  assumes "in_step m n" and "\<And>x. in_step (f x) (g x)"
  shows "in_step (bindc m f) (bindc n g)"
  unfolding in_step_def
proof
  fix s
  obtain r s1 where m: "m s = (r, s1)" by fastforce
  obtain t1 where n: "n (sq_of s) = (r, t1)" "agree r s1 t1"
    using assms(1) m by (metis fst_conv in_step_def prod.collapse snd_conv)
  show "fst (bindc n g (sq_of s)) = fst (bindc m f s) \<and>
      agree (fst (bindc m f s)) (snd (bindc m f s)) (snd (bindc n g (sq_of s)))"
  proof (cases r)
    case (Inl e)
    with m n show ?thesis by (simp add: bindc_def agree_def)
  next
    case (Inr x)
    with m n assms(2) [of x] show ?thesis by (simp add: bindc_def agree_def in_step_def)
  qed
qed

lemma in_step_if [in_step_rules]: "(b \<Longrightarrow> in_step m n) \<Longrightarrow> (\<not> b \<Longrightarrow> in_step m' n') \<Longrightarrow> in_step (if b then m else m') (if b then n else n')"
  by simp

lemma in_step_option [in_step_rules]:
  "(x = None \<Longrightarrow> in_step m n) \<Longrightarrow> (\<And>y. x = Some y \<Longrightarrow> in_step (f y) (g y)) \<Longrightarrow>
     in_step (case x of None \<Rightarrow> m | Some y \<Rightarrow> f y) (case x of None \<Rightarrow> n | Some y \<Rightarrow> g y)"
  by (simp split: option.split)

lemma in_step_transaction [in_step_rules]: "in_step m n \<Longrightarrow> in_step (pg_transaction m) (transaction n)"
  unfolding in_step_def
proof
  fix s
  assume "\<forall>s. fst (n (sq_of s)) = fst (m s) \<and> agree (fst (m s)) (snd (m s)) (snd (n (sq_of s)))"
  then have "fst (n (sq_of s)) = fst (m s)" "agree (fst (m s)) (snd (m s)) (snd (n (sq_of s)))" by blast+
  then show "fst (transaction n (sq_of s)) = fst (pg_transaction m s) \<and>
      agree (fst (pg_transaction m s)) (snd (pg_transaction m s)) (snd (transaction n (sq_of s)))"
    by (cases "m s"; cases "n (sq_of s)"; cases "fst (m s)") (simp_all add: pg_transaction_def transaction_def agree_def)
qed

lemma in_step_query [in_step_rules]: "in_step (pg_query f) (query f)"
  by (simp add: in_step_def agree_def pg_query_def query_def)

lemma in_step_sql [in_step_rules]: "in_step (pg_sql f) (run_sql f)"
  by (simp add: in_step_def agree_def pg_sql_def run_sql_def sq_of_def)

lemma in_step_time [in_step_rules]: "in_step (pg_time E) (time_now E)"
  by (simp add: in_step_def agree_def pg_time_def time_now_def sq_of_def)

lemma in_step_fresh_id [in_step_rules]: "in_step (pg_fresh_id E pre) (fresh_id E pre)"
  by (simp add: in_step_def agree_def pg_fresh_id_def fresh_id_def sq_of_def)

lemma in_step_insert_event [in_step_rules]: "in_step (pg_insert_event E ev) (insert_event_row E ev)"
  by (simp add: in_step_def agree_def pg_insert_event_def insert_event_row_def sq_of_def pg_time_def time_now_def
      bindc_def)

lemma in_step_insert_events [in_step_rules]: "in_step (pg_insert_events E tenant evs) (insert_events E tenant evs)"
proof (induction evs)
  case Nil
  show ?case unfolding pg_insert_events.simps insert_events.simps by (rule in_step_ret)
next
  case (Cons ev evs)
  show ?case
    unfolding pg_insert_events.simps insert_events.simps by (intro in_step_rules Cons)
qed

lemma pg_row_to_run_eq: "pg_row_to_run = row_to_run"
  by (intro ext) (simp add: pg_row_to_run_def row_to_run_def)

lemma in_step_assert_owns [in_step_rules]: "in_step (pg_assert_owns tenant i) (assert_owns tenant i)"
  unfolding pg_assert_owns_def assert_owns_def by (intro in_step_rules)

lemma in_step_load_run: "in_step (pg_load_run tenant i) (load_run tenant i)"
  unfolding pg_load_run_def load_run_def pg_row_to_run_eq by (intro in_step_rules)

lemma in_step_load_by_key [in_step_rules]: "in_step (pg_load_by_key tenant key) (load_run_by_key tenant key)"
  unfolding pg_load_by_key_def load_run_by_key_def pg_row_to_run_eq by (intro in_step_rules)

lemma in_step_checkpoint: "in_step (pg_checkpoint E run evs) (checkpoint E run evs)"
  unfolding pg_checkpoint_def checkpoint_def by (intro in_step_rules)

lemma in_step_list_events: "in_step (pg_list_events tenant i) (list_events tenant i)"
  unfolding pg_list_events_def list_events_def by (intro in_step_rules)

lemma in_step_cancel_run: "in_step (pg_cancel_run E tenant i) (cancel_run E tenant i)"
  unfolding pg_cancel_run_def cancel_run_def by (intro in_step_rules)

lemma in_step_get_effect: "in_step (pg_get_effect tenant key) (get_effect tenant key)"
  unfolding pg_get_effect_def get_effect_def by (intro in_step_rules)

lemma in_step_resolve_approval: "in_step (pg_resolve_approval E tenant aid ok by_whom nt) (resolve_approval E tenant aid ok by_whom nt)"
  unfolding pg_resolve_approval_def resolve_approval_def by (intro in_step_rules)

lemma in_step_purge: "in_step (pg_purge_event_payloads tenant ts) (purge_event_payloads tenant ts)"
  unfolding pg_purge_event_payloads_def purge_event_payloads_def by (intro in_step_rules)

text \<open>A single statement commits by itself: the same as a transaction around it when nothing in
  it raises.\<close>

lemma in_step_ensure_tenant: "in_step (pg_ensure_tenant E tenant nm settings) (ensure_tenant E tenant nm settings)"
  by (simp add: in_step_def agree_def pg_ensure_tenant_def ensure_tenant_def transaction_def pg_time_def time_now_def
      pg_sql_def run_sql_def bindc_def sq_of_def)

lemma in_step_record_effect:
  "in_step (pg_record_effect E tenant key rid sid tool v) (record_effect E tenant key rid sid tool v)"
  by (simp add: in_step_def agree_def pg_record_effect_def record_effect_def transaction_def pg_time_def time_now_def
      pg_sql_def run_sql_def bindc_def sq_of_def)

lemmas in_step_ops = in_step_load_run in_step_checkpoint in_step_list_events in_step_cancel_run in_step_get_effect
  in_step_resolve_approval in_step_purge in_step_ensure_tenant in_step_record_effect

text \<open>What is in step with an operation of SQLite has its effect on the tables.\<close>

lemma in_stepD:
  assumes "in_step m n" and "m s = (r, s')"
  obtains t where "n (sq_of s) = (r, t)" "sq_db t = pg_db s'"
proof -
  have "fst (n (sq_of s)) = r" "agree r s' (snd (n (sq_of s)))"
    using assms by (auto simp: in_step_def dest: spec [of _ s])
  with that [of "snd (n (sq_of s))"] show ?thesis
    by (cases "n (sq_of s)"; cases r) (simp_all add: agree_def)
qed

section \<open>The store keeps the contract\<close>

lemma pg_assert_owns_eq:
  "pg_assert_owns tenant i s =
     ((if owns tenant i (pg_db s) then Inr ()
       else Inl (Exn TenantIsolationError (''run '' @ i @ '' belongs to a different tenant''))), s)"
  by (auto simp: pg_assert_owns_def pg_query_def bindc_def owns_def split: option.splits)

lemmas pg_defs = comp_defs pg_transaction_def pg_time_def pg_fresh_id_def pg_sql_def pg_query_def

lemma pg_create_or_get_run_cases:
  obtains (collision) m where "run_row (r_id run) (pg_db s) \<noteq> None"
      "run_by_key (r_tenant_id run) (r_idempotency_key run) (pg_db s) = None"
      "pg_create_or_get_run E run s = (Inl (Exn IntegrityError m), s\<lparr>pg_clk := pg_clk s + 1\<rparr>)"
  | (duplicate) row where "run_by_key (r_tenant_id run) (r_idempotency_key run) (pg_db s) = Some row"
      "pg_create_or_get_run E run s = (Inr (row_run row, False), s\<lparr>pg_clk := pg_clk s + 1\<rparr>)"
  | (created) "run_row (r_id run) (pg_db s) = None"
      "run_by_key (r_tenant_id run) (r_idempotency_key run) (pg_db s) = None"
      "pg_create_or_get_run E run s =
        (Inr (run, True), s\<lparr>pg_clk := pg_clk s + 1, pg_db := insert_run run (wall E (pg_clk s)) (pg_db s)\<rparr>)"
proof (cases "run_by_key (r_tenant_id run) (r_idempotency_key run) (pg_db s)")
  case (Some row)
  then have "r_tenant_id (row_run row) = r_tenant_id run"
    by (auto simp: run_by_key_def dest: find_SomeD)
  with Some show ?thesis
    by (intro duplicate) (auto simp: pg_create_or_get_run_def pg_load_by_key_def pg_row_to_run_def pg_defs)
next
  case None
  then show ?thesis
    using collision created
    by (cases "run_row (r_id run) (pg_db s)") (auto simp: pg_create_or_get_run_def pg_load_by_key_def pg_defs)
qed

lemma latest_rows_nonempty: "rows \<noteq> [] \<Longrightarrow> latest_rows rows \<noteq> []"
proof -
  assume "rows \<noteq> []"
  then have "Max (ap_requested_at ` set rows) \<in> ap_requested_at ` set rows" by (intro Max_in) auto
  then obtain row where "row \<in> set rows" "ap_requested_at row = Max (ap_requested_at ` set rows)" by force
  then show ?thesis by (fastforce simp: latest_rows_def filter_empty_conv)
qed

lemma pg_is_latest: "is_latest rows (map_option (\<lambda>row. (ap_id row, ap_status row)) (pg_latest_row pick rows))"
proof (cases "rows = []")
  case True
  then show ?thesis by (simp add: pg_latest_row_def latest_rows_def is_latest_def)
next
  case False
  let ?top = "latest_rows rows"
  have "?top ! (tie_row pick ?top mod length ?top) \<in> set ?top"
    using latest_rows_nonempty [OF False] by (intro nth_mem) simp
  then have "?top ! (tie_row pick ?top mod length ?top) \<in> set rows \<and>
      (\<forall>row'\<in>set rows. ap_requested_at row' \<le> ap_requested_at (?top ! (tie_row pick ?top mod length ?top)))"
    by (simp add: latest_rows_def)
  then show ?thesis
    using latest_rows_nonempty [OF False] by (auto simp: is_latest_def pg_latest_row_def Let_def)
qed

lemmas sqlite_laws = sqlite.store_laws [unfolded sqlite_ops_simps]

interpretation postgres: store "postgres_ops pick E" pg_db for pick E
proof (unfold_locales, unfold postgres_ops_simps, goal_cases)
  case (5 run d rc d')
  then show ?case
    by (cases rule: pg_create_or_get_run_cases [of run d E]) auto
next
  case (6 tenant rid sid approvers d ra d')
  let ?row = "\<lparr>ap_id = new_id E (pg_ids d) ''appr'', ap_run_id = rid, ap_tenant_id = tenant, ap_step_id = sid,
     ap_status = AP_PENDING, ap_approvers = approvers, ap_decided_by = None, ap_note = None,
     ap_requested_at = wall E (pg_clk d), ap_decided_at = None\<rparr>"
  show ?case
  proof (cases "owns tenant rid (pg_db d) \<and> approval_row (ap_id ?row) (pg_db d) = None")
    case True
    with 6 show ?thesis
      by (intro disjI2 conjI exI [of _ ?row]) (auto simp: pg_create_approval_def pg_assert_owns_eq pg_defs)
  next
    case False
    with 6 show ?thesis
      by (intro disjI1) (auto simp: pg_create_approval_def pg_assert_owns_eq pg_defs split: if_splits)
  qed
next
  case (8 tenant rid sid d rl d')
  then show ?case by (auto simp: pg_latest_approval_def pg_query_def pg_is_latest)
qed (erule in_stepD [OF in_step_ops(5)] in_stepD [OF in_step_ops(9)] in_stepD [OF in_step_ops(2)] in_stepD [OF in_step_ops(1)]
      in_stepD [OF in_step_ops(6)] in_stepD [OF in_step_ops(4)] in_stepD [OF in_step_ops(8)] in_stepD [OF in_step_ops(3)]
      in_stepD [OF in_step_ops(7)], drule sqlite_laws, simp only: sq_of_sel)+

section \<open>Properties\<close>


text \<open>The rows PostgreSQL lists are those of SQLite up to the order of equal \<open>started_at\<close>.\<close>

lemma runs_of_sorted: "sorted (map (\<lambda>row. - row_started_at row) (runs_of tenant status tb))"
  by (simp add: runs_of_def)

lemma arranged_perm: "mset (arranged pick rows) = mset rows"
  by (simp add: arranged_def Let_def)


lemma arranged_distinct:
  assumes "distinct (map row_started_at rows)" and "sorted (map (\<lambda>row. - row_started_at row) rows)"
  shows "arranged pick rows = rows"
proof -
  have "inj_on (\<lambda>row. - row_started_at row) (set rows)" using assms(1) by (auto simp: distinct_map inj_on_def)
  with assms(2) show ?thesis
    unfolding arranged_def Let_def
    by (metis sort_key_inj_key_eq sort_key_id_if_sorted)
qed

lemma runs_of_owner: "row \<in> set (runs_of tenant status tb) \<Longrightarrow> r_tenant_id (row_run row) = tenant"
  by (simp add: runs_of_def)

lemma mapc_rows:
  "\<forall>row\<in>set rows. r_tenant_id (row_run row) = tenant \<Longrightarrow>
     mapc (\<lambda>row. liftE (row_to_run row tenant)) rows s = (Inr (map row_run rows), s)"
  by (induction rows) (simp_all add: bindc_def row_to_run_def)

lemma list_runs_eq:
  "list_runs tenant limit status t =
     (Inr (map row_run (if limit < 0 then runs_of tenant status (sq_db t) else take (nat limit) (runs_of tenant status (sq_db t)))), t)"
  using runs_of_owner [of _ tenant status "sq_db t"]
  by (auto simp: list_runs_def query_def bindc_def intro!: mapc_rows dest: in_set_takeD)

lemma pg_list_runs_eq:
  assumes "0 \<le> limit"
  shows "pg_list_runs pick tenant limit status s =
    (Inr (map row_run (take (nat limit) (arranged pick (runs_of tenant status (pg_db s))))), s)"
proof -
  let ?rows = "take (nat limit) (arranged pick (runs_of tenant status (pg_db s)))"
  have "set (arranged pick (runs_of tenant status (pg_db s))) = set (runs_of tenant status (pg_db s))"
    by (metis arranged_perm mset_eq_setD)
  then have "\<forall>row\<in>set ?rows. r_tenant_id (row_run row) = tenant"
    using runs_of_owner by (metis in_set_takeD)
  from mapc_rows [OF this] assms show ?thesis
    by (simp add: pg_list_runs_def pg_query_def bindc_def pg_row_to_run_eq)
qed

text \<open>Without ties the two lists are the same.\<close>

lemma list_runs_agree:
  assumes "0 \<le> limit" and "distinct (map row_started_at (runs_of tenant status (pg_db s)))"
  shows "fst (pg_list_runs pick tenant limit status s) = fst (list_runs tenant limit status (sq_of s))"
  using assms by (simp add: pg_list_runs_eq list_runs_eq arranged_distinct runs_of_sorted)



end
