(* ===== verification/RowSecurity.thy ===== *)
theory RowSecurity
  imports PostgresStore Service
begin

text \<open>
  Row-level security of \<open>store_postgres.py\<close>: \<open>RLS_SQL\<close>, which the second migration and
  \<open>apply_row_level_security\<close> execute, and the methods of \<open>PostgresStore\<close> on a database that has it.

  A policy with \<open>USING\<close> and \<open>WITH CHECK\<close> filters what a statement reads and updates and checks what it
  inserts, unless the role bypasses row security; constraints see every row.  So the methods are those
  of the theory \<open>PostgresStore\<close> with \<open>SELECT\<close> as \<open>sees\<close>, \<open>UPDATE\<close> as \<open>updates\<close> and \<open>INSERT\<close> as \<open>inserts\<close>.
\<close>

section \<open>The policies\<close>

record Session =
  se_rls :: bool \<comment> \<open>row-level security was enabled on the tables\<close>
  se_bypass :: bool \<comment> \<open>the role is a superuser or has \<open>BYPASSRLS\<close>\<close>
  se_tenant :: "string option" \<comment> \<open>\<open>current_setting('bass.tenant_id', true)\<close>\<close>

definition apply_row_level_security :: "Session \<Rightarrow> Session" where
  "apply_row_level_security se = se\<lparr>se_rls := True\<rparr>"

text \<open>\<open>tenant_id = current_setting('bass.tenant_id', true)\<close>; a comparison with NULL does not hold.\<close>

definition visible :: "Session \<Rightarrow> string \<Rightarrow> bool" where
  "visible se tenant \<longleftrightarrow> \<not> se_rls se \<or> se_bypass se \<or> se_tenant se = Some tenant"

text \<open>The rows of the four tables that satisfy a condition on their tenant.\<close>

definition rows_where :: "(string \<Rightarrow> bool) \<Rightarrow> tables \<Rightarrow> tables" where
  "rows_where p tb = tb\<lparr>
     tb_runs := filter (\<lambda>row. p (r_tenant_id (row_run row))) (tb_runs tb),
     tb_events := filter (\<lambda>row. p (ev_tenant_id (er_event row))) (tb_events tb),
     tb_approvals := filter (\<lambda>row. p (ap_tenant_id row)) (tb_approvals tb),
     tb_effects := filter (\<lambda>row. p (fx_tenant_id row)) (tb_effects tb)\<rparr>"

text \<open>An update of rows in place takes effect on the visible ones.\<close>

definition only_where :: "('r \<Rightarrow> bool) \<Rightarrow> 'r list \<Rightarrow> 'r list \<Rightarrow> 'r list" where
  "only_where p rows rows' = map2 (\<lambda>row row'. if p row then row' else row) rows rows'"

definition visible_update :: "Session \<Rightarrow> (tables \<Rightarrow> tables) \<Rightarrow> tables \<Rightarrow> tables" where
  "visible_update se f tb = (f tb)\<lparr>
     tb_runs := only_where (\<lambda>row. visible se (r_tenant_id (row_run row))) (tb_runs tb) (tb_runs (f tb)),
     tb_events := only_where (\<lambda>row. visible se (ev_tenant_id (er_event row))) (tb_events tb) (tb_events (f tb)),
     tb_approvals := only_where (\<lambda>row. visible se (ap_tenant_id row)) (tb_approvals tb) (tb_approvals (f tb))\<rparr>"

definition sees :: "Session \<Rightarrow> (tables \<Rightarrow> 'a) \<Rightarrow> 'a pg" where
  "sees se f = pg_query (f \<circ> rows_where (visible se))"

definition updates :: "Session \<Rightarrow> (tables \<Rightarrow> tables) \<Rightarrow> unit pg" where
  "updates se f = pg_sql (visible_update se f)"

definition inserts :: "Session \<Rightarrow> string \<Rightarrow> 'a pg \<Rightarrow> 'a pg" where
  "inserts se tenant m =
     (if visible se tenant then m
      else throw (Exn (PyException ''InsufficientPrivilege'') ''new row violates row-level security policy''))"

section \<open>The methods under row-level security\<close>

definition rls_assert_owns :: "Session \<Rightarrow> string \<Rightarrow> string \<Rightarrow> unit pg" where
  "rls_assert_owns se tenant i = bindc (sees se (run_row i)) (\<lambda>row. case row of
      None \<Rightarrow> ret ()
    | Some row \<Rightarrow>
        if r_tenant_id (row_run row) \<noteq> tenant
        then throw (Exn TenantIsolationError (''run '' @ i @ '' belongs to a different tenant''))
        else ret ())"

definition rls_load_by_key :: "Session \<Rightarrow> string \<Rightarrow> string \<Rightarrow> Run option pg" where
  "rls_load_by_key se tenant key = bindc (sees se (run_by_key tenant key)) (\<lambda>row. case row of
      None \<Rightarrow> ret None
    | Some row \<Rightarrow> bindc (liftE (pg_row_to_run row tenant)) (\<lambda>r. ret (Some r)))"

text \<open>The check of the policy comes before the search for a conflict.\<close>

definition rls_create_or_get_run :: "Session \<Rightarrow> env \<Rightarrow> Run \<Rightarrow> (Run \<times> bool) pg" where
  "rls_create_or_get_run se E run =
     bindc (pg_time E) (\<lambda>t.
     bindc (pg_transaction (inserts se (r_tenant_id run) (
              bindc (pg_query (run_by_key (r_tenant_id run) (r_idempotency_key run))) (\<lambda>dup.
              bindc (pg_query (run_row (r_id run))) (\<lambda>taken.
              if dup \<noteq> None then ret False
              else if taken \<noteq> None
              then throw (Exn IntegrityError ''duplicate key value violates unique constraint'')
              else seqc (pg_sql (insert_run run t)) (ret True)))))) (\<lambda>created.
     if created then ret (run, True)
     else bindc (rls_load_by_key se (r_tenant_id run) (r_idempotency_key run)) (\<lambda>existing.
            case existing of
              None \<Rightarrow> throw (Exn AssertionError [])
            | Some r \<Rightarrow> ret (r, False))))"

definition rls_load_run :: "Session \<Rightarrow> string \<Rightarrow> string \<Rightarrow> Run option pg" where
  "rls_load_run se tenant i = bindc (sees se (run_row i)) (\<lambda>row. case row of
      None \<Rightarrow> ret None
    | Some row \<Rightarrow> bindc (liftE (pg_row_to_run row tenant)) (\<lambda>r. ret (Some r)))"

definition rls_list_runs :: "Session \<Rightarrow> Ties \<Rightarrow> string \<Rightarrow> int \<Rightarrow> string option \<Rightarrow> Run list pg" where
  "rls_list_runs se pick tenant limit status =
     (if limit < 0 then throw (Exn (PyException ''InvalidRowCountInLimitClause'') ''LIMIT must not be negative'')
      else bindc (sees se (\<lambda>tb. arranged pick (runs_of tenant status tb))) (\<lambda>rows.
        mapc (\<lambda>row. liftE (pg_row_to_run row tenant)) (take (nat limit) rows)))"

text \<open>The number is drawn from the sequence before the row is checked.\<close>

definition rls_insert_event :: "Session \<Rightarrow> env \<Rightarrow> Event \<Rightarrow> unit pg" where
  "rls_insert_event se E ev =
     bindc (pg_time E) (\<lambda>t.
     seqc (modify (\<lambda>s. s\<lparr>pg_seq := pg_seq s + 1\<rparr>))
       (inserts se (ev_tenant_id ev) (modify (\<lambda>s. s\<lparr>pg_db := insert_event ev (pg_seq s) t (pg_db s)\<rparr>))))"

fun rls_insert_events :: "Session \<Rightarrow> env \<Rightarrow> string \<Rightarrow> Event list \<Rightarrow> unit pg" where
  "rls_insert_events se E tenant [] = ret ()"
| "rls_insert_events se E tenant (ev # evs) =
     (if ev_tenant_id ev \<noteq> tenant
      then throw (Exn TenantIsolationError ''event tenant does not match run tenant'')
      else seqc (rls_insert_event se E (ev\<lparr>ev_payload := redact_dict (ev_payload ev)\<rparr>))
                (rls_insert_events se E tenant evs))"

definition rls_checkpoint :: "Session \<Rightarrow> env \<Rightarrow> Run \<Rightarrow> Event list \<Rightarrow> unit pg" where
  "rls_checkpoint se E run events =
     pg_transaction (
       seqc (rls_assert_owns se (r_tenant_id run) (r_id run))
      (seqc (bindc (pg_time E) (\<lambda>t. updates se (update_run run t)))
            (rls_insert_events se E (r_tenant_id run) events)))"

definition rls_list_events :: "Session \<Rightarrow> string \<Rightarrow> string \<Rightarrow> Event list pg" where
  "rls_list_events se tenant i = seqc (rls_assert_owns se tenant i) (sees se (events_of tenant i))"

definition rls_cancel_run :: "Session \<Rightarrow> env \<Rightarrow> string \<Rightarrow> string \<Rightarrow> bool pg" where
  "rls_cancel_run se E tenant i =
     pg_transaction (
       bindc (sees se (run_row i)) (\<lambda>row.
       case row of
         None \<Rightarrow> seqc (rls_assert_owns se tenant i) (ret False)
       | Some row \<Rightarrow>
           if r_tenant_id (row_run row) \<noteq> tenant then seqc (rls_assert_owns se tenant i) (ret False)
           else if terminal (r_status (row_run row)) then ret False
           else seqc (bindc (pg_time E) (\<lambda>t. updates se (update_status tenant i CANCELED t)))
               (seqc (rls_insert_event se E
                       \<lparr>ev_run_id = i, ev_tenant_id = tenant, ev_type = ''run_canceled'', ev_payload = [],
                        ev_step_id = None, ev_actor = ''user'', ev_cost_usd = 0, ev_seq = 0\<rparr>)
                     (ret True))))"

definition rls_get_effect :: "Session \<Rightarrow> string \<Rightarrow> string \<Rightarrow> pyval pg" where
  "rls_get_effect se tenant key = bindc (sees se (effect_row key)) (\<lambda>row. case row of
      None \<Rightarrow> ret PNone
    | Some row \<Rightarrow>
        if fx_tenant_id row \<noteq> tenant
        then throw (Exn TenantIsolationError ''effect belongs to a different tenant'')
        else ret (fx_result row))"

definition rls_record_effect ::
  "Session \<Rightarrow> env \<Rightarrow> string \<Rightarrow> string \<Rightarrow> string \<Rightarrow> string option \<Rightarrow> string \<Rightarrow> pyval \<Rightarrow> unit pg" where
  "rls_record_effect se E tenant key rid sid tool result =
     bindc (pg_time E) (\<lambda>t. inserts se tenant (
       pg_sql (\<lambda>tb. if effect_row key tb \<noteq> None then tb
         else insert_effect \<lparr>fx_key = key, fx_run_id = rid, fx_tenant_id = tenant, fx_step_id = sid,
                             fx_tool = tool, fx_result = result, fx_created_at = t\<rparr> tb)))"

definition rls_create_approval :: "Session \<Rightarrow> env \<Rightarrow> string \<Rightarrow> string \<Rightarrow> string \<Rightarrow> string list \<Rightarrow> string pg" where
  "rls_create_approval se E tenant rid sid approvers =
     bindc (pg_fresh_id E ''appr'') (\<lambda>aid.
     seqc (pg_transaction (
       seqc (rls_assert_owns se tenant rid)
         (bindc (pg_time E) (\<lambda>t. inserts se tenant (
          bindc (pg_query (approval_row aid)) (\<lambda>dup.
            if dup \<noteq> None then throw (Exn IntegrityError ''duplicate key value violates unique constraint'')
            else pg_sql (insert_approval
              \<lparr>ap_id = aid, ap_run_id = rid, ap_tenant_id = tenant, ap_step_id = sid,
               ap_status = AP_PENDING, ap_approvers = approvers, ap_decided_by = None, ap_note = None,
               ap_requested_at = t, ap_decided_at = None\<rparr>)))))))
     (ret aid))"

definition rls_resolve_approval :: "Session \<Rightarrow> env \<Rightarrow> string \<Rightarrow> string \<Rightarrow> bool \<Rightarrow> string \<Rightarrow> string \<Rightarrow> unit pg" where
  "rls_resolve_approval se E tenant aid ok decided_by nt =
     pg_transaction (
       bindc (sees se (approval_row aid)) (\<lambda>row.
       case row of
         None \<Rightarrow> throw (Exn KeyError (repr_str aid))
       | Some row \<Rightarrow>
           if ap_tenant_id row \<noteq> tenant
           then throw (Exn TenantIsolationError ''approval belongs to a different tenant'')
           else bindc (pg_time E) (\<lambda>t. updates se (decide_approval aid
                  (if ok then AP_APPROVED else AP_REJECTED) decided_by nt t))))"

definition rls_purge_event_payloads :: "Session \<Rightarrow> string \<Rightarrow> rat \<Rightarrow> int pg" where
  "rls_purge_event_payloads se tenant before_ts =
     pg_transaction (
       bindc (sees se (\<lambda>tb. int (length (filter (purgeable tenant before_ts) (tb_events tb))))) (\<lambda>n.
       seqc (updates se (purge_payloads tenant before_ts)) (ret n)))"

definition rls_latest_approval ::
  "Session \<Rightarrow> Ties \<Rightarrow> string \<Rightarrow> string \<Rightarrow> string \<Rightarrow> (string \<times> ApprovalStatus) option pg" where
  "rls_latest_approval se pick tenant rid sid =
     sees se (\<lambda>tb. map_option (\<lambda>row. (ap_id row, ap_status row))
       (pg_latest_row pick (approvals_for tenant rid sid tb)))"

definition rls_ops :: "Session \<Rightarrow> Ties \<Rightarrow> env \<Rightarrow> PostgresStore StoreOps" where
  "rls_ops se pick E =
     \<lparr>op_ensure_tenant = pg_ensure_tenant E,
      op_create_or_get_run = rls_create_or_get_run se E,
      op_load_run = rls_load_run se,
      op_list_runs = rls_list_runs se pick,
      op_checkpoint = rls_checkpoint se E,
      op_list_events = rls_list_events se,
      op_get_effect = rls_get_effect se,
      op_record_effect = rls_record_effect se E,
      op_create_approval = rls_create_approval se E,
      op_resolve_approval = rls_resolve_approval se E,
      op_latest_approval = rls_latest_approval se pick,
      op_cancel_run = rls_cancel_run se E,
      op_purge_event_payloads = rls_purge_event_payloads se\<rparr>"

section \<open>A session that is not restricted\<close>

lemma rows_where_all: "(\<And>t. p t) \<Longrightarrow> rows_where p tb = tb"
  by (simp add: rows_where_def)

lemma only_where_all: "(\<And>row. p row) \<Longrightarrow> length rows' = length rows \<Longrightarrow> only_where p rows rows' = rows'"
  by (simp add: only_where_def map2_map_map list_eq_iff_nth_eq)

lemma visible_update_all:
  assumes "\<And>t. visible se t" and "length (tb_runs (f tb)) = length (tb_runs tb)"
    and "length (tb_events (f tb)) = length (tb_events tb)" and "length (tb_approvals (f tb)) = length (tb_approvals tb)"
  shows "visible_update se f tb = f tb"
  using assms by (simp add: visible_update_def only_where_all)

lemma unrestricted_statements:
  assumes "\<And>t. visible se t"
  shows "sees se f = pg_query f" "inserts se tenant m = m"
    "updates se (update_run run t) = pg_sql (update_run run t)"
    "updates se (update_status tenant i st t) = pg_sql (update_status tenant i st t)"
    "updates se (decide_approval i ap by_whom nt t) = pg_sql (decide_approval i ap by_whom nt t)"
    "updates se (purge_payloads tenant ts) = pg_sql (purge_payloads tenant ts)"
    "rls_insert_event se E ev = pg_insert_event E ev"
  using assms
  by (auto simp: sees_def inserts_def updates_def pg_sql_def pg_query_def rows_where_all visible_update_all fun_eq_iff
      rls_insert_event_def pg_insert_event_def bindc_apply pg_time_def
      update_run_def update_status_def decide_approval_def purge_payloads_def)

lemma unrestricted_events: "(\<And>t. visible se t) \<Longrightarrow> rls_insert_events se E tenant evs = pg_insert_events E tenant evs"
  by (induction evs) (simp_all add: unrestricted_statements)

lemma unrestricted_methods:
  assumes "\<And>t. visible se t"
  shows "rls_assert_owns se = pg_assert_owns" "rls_load_by_key se = pg_load_by_key" "rls_load_run se = pg_load_run"
    "rls_list_runs se pick = pg_list_runs pick" "rls_checkpoint se E = pg_checkpoint E" "rls_cancel_run se E = pg_cancel_run E"
    "rls_get_effect se = pg_get_effect" "rls_record_effect se E = pg_record_effect E"
    "rls_resolve_approval se E = pg_resolve_approval E" "rls_latest_approval se pick = pg_latest_approval pick"
    "rls_purge_event_payloads se = pg_purge_event_payloads"
proof -
  note u = unrestricted_statements [OF assms] unrestricted_events [OF assms]
  show owns: "rls_assert_owns se = pg_assert_owns" by (intro ext) (simp only: rls_assert_owns_def pg_assert_owns_def u)
  show "rls_load_by_key se = pg_load_by_key" by (intro ext) (simp only: rls_load_by_key_def pg_load_by_key_def u)
  show "rls_load_run se = pg_load_run" by (intro ext) (simp only: rls_load_run_def pg_load_run_def u)
  show "rls_list_runs se pick = pg_list_runs pick" by (intro ext) (simp only: rls_list_runs_def pg_list_runs_def u)
  show "rls_checkpoint se E = pg_checkpoint E" by (intro ext) (simp only: rls_checkpoint_def pg_checkpoint_def u owns)
  show "rls_cancel_run se E = pg_cancel_run E" by (intro ext) (simp only: rls_cancel_run_def pg_cancel_run_def u owns)
  show "rls_get_effect se = pg_get_effect" by (intro ext) (simp only: rls_get_effect_def pg_get_effect_def u)
  show "rls_record_effect se E = pg_record_effect E" by (intro ext) (simp only: rls_record_effect_def pg_record_effect_def u)
  show "rls_resolve_approval se E = pg_resolve_approval E"
    by (intro ext) (simp only: rls_resolve_approval_def pg_resolve_approval_def u)
  show "rls_latest_approval se pick = pg_latest_approval pick"
    by (intro ext) (simp only: rls_latest_approval_def pg_latest_approval_def u)
  show "rls_purge_event_payloads se = pg_purge_event_payloads"
    by (intro ext) (simp only: rls_purge_event_payloads_def pg_purge_event_payloads_def u)
qed

text \<open>Without the policies, and for a role that bypasses them, the store is the one of the theory \<open>PostgresStore\<close>.\<close>

lemma rls_ops_unrestricted:
  assumes "\<And>t. visible se t"
  shows "rls_ops se pick E = postgres_ops pick E"
proof -
  note u = unrestricted_statements [OF assms] unrestricted_methods [OF assms]
  have "rls_create_or_get_run se E = pg_create_or_get_run E" "rls_list_events se = pg_list_events"
    "rls_create_approval se E = pg_create_approval E"
    by (intro ext, simp only: rls_create_or_get_run_def pg_create_or_get_run_def rls_list_events_def pg_list_events_def
        rls_create_approval_def pg_create_approval_def u)+
  then show ?thesis by (simp only: rls_ops_def postgres_ops_def u)
qed

section \<open>What a restricted session cannot touch\<close>

definition hidden :: "Session \<Rightarrow> tables \<Rightarrow> RunRow list \<times> EventRow list \<times> ApprovalRow list \<times> EffectRow list" where
  "hidden se tb = (let view = rows_where (\<lambda>t. \<not> visible se t) tb
     in (tb_runs view, tb_events view, tb_approvals view, tb_effects view))"

definition hidden_same :: "Session \<Rightarrow> PostgresStore \<Rightarrow> PostgresStore \<Rightarrow> bool" where
  "hidden_same se s s' \<longleftrightarrow> hidden se (pg_db s') = hidden se (pg_db s)"

interpretation rls: frame "hidden_same se" for se
  by unfold_locales (simp_all add: hidden_same_def)

lemma only_where_map:
  assumes "\<And>row. p (g row) = p row"
  shows "filter (\<lambda>row. \<not> p row) (only_where p rows (map g rows)) = filter (\<lambda>row. \<not> p row) rows"
  using assms by (induction rows) (simp_all add: only_where_def)

lemma only_where_id: "only_where p rows rows = rows"
  by (induction rows) (simp_all add: only_where_def)

lemma hidden_updates:
  "hidden se (visible_update se (update_run run t) tb) = hidden se tb"
  "hidden se (visible_update se (update_status tenant i st t) tb) = hidden se tb"
  "hidden se (visible_update se (decide_approval i ap by_whom nt t) tb) = hidden se tb"
  "hidden se (visible_update se (purge_payloads tenant ts) tb) = hidden se tb"
  by (simp_all add: hidden_def rows_where_def visible_update_def update_run_def update_status_def decide_approval_def
      purge_payloads_def set_run_columns_def only_where_map only_where_id)

lemma hidden_inserts:
  "visible se (r_tenant_id run) \<Longrightarrow> hidden se (insert_run run t tb) = hidden se tb"
  "visible se (ev_tenant_id ev) \<Longrightarrow> hidden se (insert_event ev n t tb) = hidden se tb"
  "visible se (ap_tenant_id row) \<Longrightarrow> hidden se (insert_approval row tb) = hidden se tb"
  "visible se (fx_tenant_id fx) \<Longrightarrow> hidden se (insert_effect fx tb) = hidden se tb"
  "hidden se (upsert_tenant tenant nm settings t tb) = hidden se tb"
  by (simp_all add: hidden_def rows_where_def insert_run_def insert_event_def insert_approval_def insert_effect_def
      upsert_tenant_def)

lemma hidden_sees: "keeps (hidden_same se) (sees se f)"
  unfolding sees_def pg_query_def by (rule rls.keeps_gets)

lemma hidden_query: "keeps (hidden_same se) (pg_query f)"
  unfolding pg_query_def by (rule rls.keeps_gets)

lemma hidden_time: "keeps (hidden_same se) (pg_time E)" "keeps (hidden_same se) (pg_fresh_id E pre)"
  by (auto simp: keeps_def pg_time_def pg_fresh_id_def hidden_same_def)

lemma hidden_sql: "(\<And>tb. hidden se (f tb) = hidden se tb) \<Longrightarrow> keeps (hidden_same se) (pg_sql f)"
  unfolding pg_sql_def by (rule rls.keeps_modify) (simp add: hidden_same_def)

lemma hidden_update: "(\<And>tb. hidden se (visible_update se f tb) = hidden se tb) \<Longrightarrow> keeps (hidden_same se) (updates se f)"
  unfolding updates_def by (rule hidden_sql)

lemma hidden_insert: "(visible se tenant \<Longrightarrow> keeps (hidden_same se) m) \<Longrightarrow> keeps (hidden_same se) (inserts se tenant m)"
  by (simp add: inserts_def rls.keeps_throw)

lemma hidden_transaction: "keeps (hidden_same se) m \<Longrightarrow> keeps (hidden_same se) (pg_transaction m)"
  by (rule keepsI) (auto simp: pg_transaction_def hidden_same_def split: prod.splits sum.splits dest: keepsD)

lemmas hidden_rules = rls.keeps_rules hidden_sees hidden_query hidden_time hidden_insert hidden_transaction

lemma hidden_event: "keeps (hidden_same se) (rls_insert_event se E ev)"
  unfolding rls_insert_event_def
  by (intro hidden_rules rls.keeps_modify) (simp_all add: hidden_same_def hidden_inserts)

lemma hidden_events: "keeps (hidden_same se) (rls_insert_events se E tenant evs)"
  by (induction evs; simp only: rls_insert_events.simps; intro hidden_rules hidden_event; assumption)

lemma hidden_owns: "keeps (hidden_same se) (rls_assert_owns se tenant i)"
  unfolding rls_assert_owns_def by (intro hidden_rules)

lemma hidden_methods:
  "keeps (hidden_same se) (rls_get_effect se tenant key)"
  "keeps (hidden_same se) (rls_record_effect se E tenant key rid osid tool v)"
  "keeps (hidden_same se) (rls_create_approval se E tenant rid sid approvers)"
  "keeps (hidden_same se) (rls_resolve_approval se E tenant aid ok by_whom nt)"
  "keeps (hidden_same se) (rls_latest_approval se pick tenant rid sid)"
  "keeps (hidden_same se) (rls_checkpoint se E run evs)"
  "keeps (hidden_same se) (rls_create_or_get_run se E run)"
  "keeps (hidden_same se) (rls_load_run se tenant rid)"
  "keeps (hidden_same se) (rls_cancel_run se E tenant rid)"
  "keeps (hidden_same se) (rls_purge_event_payloads se tenant ts)"
  "keeps (hidden_same se) (pg_ensure_tenant E tenant nm settings)"
  unfolding rls_get_effect_def rls_record_effect_def rls_create_approval_def rls_resolve_approval_def rls_latest_approval_def
    rls_checkpoint_def rls_create_or_get_run_def rls_load_run_def rls_cancel_run_def rls_purge_event_payloads_def
    rls_load_by_key_def pg_ensure_tenant_def
  by (intro hidden_rules hidden_owns hidden_events hidden_event hidden_update hidden_updates hidden_sql;
      simp add: hidden_inserts)+

interpretation rls_hidden: store_invariant "rls_ops se pick E" "\<lambda>d. hidden se (pg_db d) = H" for se pick E H
  by (unfold_locales; unfold rls_ops_def StoreOps.simps; drule hidden_methods [where se = se, THEN keepsD]; simp add: hidden_same_def)

section \<open>Properties\<close>

lemma tenant_view_hidden:
  assumes "\<not> visible se t" and "hidden se tb' = hidden se tb"
  shows "tenant_view t tb' = tenant_view t tb"
proof -
  have again: "filter (\<lambda>row. f row = t) (filter (\<lambda>row. \<not> visible se (f row)) rows) = filter (\<lambda>row. f row = t) rows"
    for f :: "'r \<Rightarrow> string" and rows
    using assms(1) by (auto intro: filter_cong)
  have "tenant_view t tb = (case hidden se tb of (runs, evs, aps, fxs) \<Rightarrow>
      (filter (\<lambda>row. r_tenant_id (row_run row) = t) runs, filter (\<lambda>row. ev_tenant_id (er_event row) = t) evs,
       filter (\<lambda>row. ap_tenant_id row = t) aps, filter (\<lambda>row. fx_tenant_id row = t) fxs))" for tb
    by (simp add: tenant_view_def hidden_def rows_where_def Let_def again del: filter_filter)
  then show ?thesis using assms(2) by simp
qed

text \<open>C9: the database enforces tenant isolation.  With the policies on, a role they bind and a session of one tenant,
  whatever requests are served, also requests that name other tenants, every run, event, approval and ledger
  entry of another tenant stays as it is.\<close>

theorem row_security_isolates:
  assumes "se_rls se" and "\<not> se_bypass se" and "se_tenant se \<noteq> Some t"
  shows "tenant_view t (pg_db (sy_store (serve_all E (rls_ops se pick E) en qs s))) = tenant_view t (pg_db (sy_store s))"
proof -
  have "\<not> visible se t" using assms by (simp add: visible_def)
  then show ?thesis
    by (rule tenant_view_hidden) (rule rls_hidden.serve_all_inv [OF refl])
qed

definition evil_session :: Session where
  "evil_session = apply_row_level_security \<lparr>se_rls = False, se_bypass = False, se_tenant = Some ''evil''\<rparr>"

theorem row_security_isolates_witness:
  "tenant_view ''acme'' (pg_db (sy_store (serve_all demo_env (rls_ops evil_session default_ties demo_env) (mock_engine None)
      [Cancel ''acme'' ''run_1'', Fire acme build_workflow (invoice 9)]
      (fresh_sys (new_postgres\<lparr>pg_db := sq_db dead_db\<rparr>) demo_registry demo_world new_metrics 0)))) =
    ([\<lparr>row_run = dead_run, row_started_at = 0, row_updated_at = 0\<rparr>], [], [], [posted_row])"
  using row_security_isolates [of evil_session "''acme''" demo_env default_ties "mock_engine None"
      "[Cancel ''acme'' ''run_1'', Fire acme build_workflow (invoice 9)]"
      "fresh_sys (new_postgres\<lparr>pg_db := sq_db dead_db\<rparr>) demo_registry demo_world new_metrics 0"]
  by (simp add: evil_session_def apply_row_level_security_def fresh_sys_def dead_db_def empty_tables_def tenant_view_def demo
      del: serve_all.simps)

text \<open>C10: without a tenant in the session nothing can be fired.  No method of \<open>PostgresStore\<close> sets \<open>bass.tenant_id\<close>; on a
  migrated database, connected as a role the policies bind, every trigger raises \<open>InsufficientPrivilege\<close>, changes no
  table and calls no tool, model or approver.\<close>

theorem bound_role_fires_nothing:
  assumes "se_rls se" and "\<not> se_bypass se" and "se_tenant se = None"
  shows "\<exists>e s'. fire E (rls_ops se pick E) en tenant flow trig s = (Inl e, s') \<and>
    exn_cls e = PyException ''InsufficientPrivilege'' \<and>
    pg_db (sy_store s') = pg_db (sy_store s) \<and> sy_world s' = sy_world s"
proof -
  let ?run = "trigger_run E (sy_ids s) (tn_id tenant) flow trig"
  have "\<not> visible se t" for t using assms by (simp add: visible_def)
  then have op: "op_create_or_get_run (rls_ops se pick E) ?run (sy_store s) =
      (Inl (Exn (PyException ''InsufficientPrivilege'') ''new row violates row-level security policy''),
       (sy_store s)\<lparr>pg_clk := pg_clk (sy_store s) + 1\<rparr>)"
    by (simp add: rls_ops_def rls_create_or_get_run_def inserts_def bindc_apply pg_time_def pg_transaction_def)
  obtain r s' where f: "fire E (rls_ops se pick E) en tenant flow trig s = (r, s')" by fastforce
  then show ?thesis
    by (cases rule: fire_cases) (use op f in auto)
qed

theorem bound_role_fires_nothing_witness:
  "\<exists>e s'. fire demo_env (rls_ops \<lparr>se_rls = True, se_bypass = False, se_tenant = None\<rparr> default_ties demo_env) (mock_engine None) acme
      build_workflow (invoice 9) (fresh_sys new_postgres demo_registry demo_world new_metrics 0) = (Inl e, s') \<and>
    exn_cls e = PyException ''InsufficientPrivilege'' \<and> sy_world s' = demo_world"
  using bound_role_fires_nothing [of "\<lparr>se_rls = True, se_bypass = False, se_tenant = None\<rparr>" demo_env default_ties "mock_engine None" acme
      build_workflow "invoice 9" "fresh_sys new_postgres demo_registry demo_world new_metrics 0"]
  by (auto simp: fresh_sys_def)

end
