(* ===== verification/PyStrings.thy ===== *)
theory PyStrings
  imports Json
begin

text \<open>
  The \<open>str\<close> methods that take texts apart: \<open>s.split(c)\<close>, \<open>s.split(c, 1)\<close> and \<open>s.split()\<close>, with
  the lemmas that they undo joining.
\<close>

section \<open>Splitting\<close>

fun py_split :: "char \<Rightarrow> string \<Rightarrow> string list" where
  "py_split c [] = [[]]"
| "py_split c (x # xs) =
     (if x = c then [] # py_split c xs
      else (case py_split c xs of [] \<Rightarrow> [[x]] | w # ws \<Rightarrow> (x # w) # ws))"

text \<open>The two parts of \<open>s.split(c, 1)\<close> when \<open>c\<close> occurs in \<open>s\<close>.\<close>

definition split1 :: "char \<Rightarrow> string \<Rightarrow> string \<times> string" where
  "split1 c s = (takeWhile (\<lambda>x. x \<noteq> c) s, tl (dropWhile (\<lambda>x. x \<noteq> c) s))"

fun words_from :: "string \<Rightarrow> string \<Rightarrow> string list" where
  "words_from w [] = (if w = [] then [] else [w])"
| "words_from w (c # cs) =
     (if py_space c then (if w = [] then words_from [] cs else w # words_from [] cs)
      else words_from (w @ [c]) cs)"

definition py_words :: "string \<Rightarrow> string list" where
  "py_words s = words_from [] s"

section \<open>Prefixes and case\<close>

definition starts_with :: "string \<Rightarrow> string \<Rightarrow> bool" where
  "starts_with p s \<longleftrightarrow> take (length p) s = p"

text \<open>\<open>s.upper()\<close>.  The upper case of U+00B5 and U+00FF lies above 255; they are left as they are.\<close>

definition upper_char :: "char \<Rightarrow> string" where
  "upper_char c = (let n = of_char c :: nat in
     if (97 \<le> n \<and> n \<le> 122) \<or> (224 \<le> n \<and> n \<le> 254 \<and> n \<noteq> 247) then [char_of (n - 32)]
     else if n = 223 then ''SS'' else [c])"

definition py_upper :: "string \<Rightarrow> string" where
  "py_upper s = concat (map upper_char s)"

section \<open>Splitting undoes joining\<close>

lemma py_split_nonempty [simp]: "py_split c s \<noteq> []" "[] \<noteq> py_split c s"
  by (cases s; simp split: list.splits)+

lemma py_split_none: "c \<notin> set w \<Longrightarrow> py_split c w = [w]"
  by (induction w) auto

lemma py_split_append: "c \<notin> set w \<Longrightarrow> py_split c (w @ c # s) = w # py_split c s"
  by (induction w) auto

lemma py_split_join: "\<forall>w\<in>set ws. c \<notin> set w \<Longrightarrow> ws \<noteq> [] \<Longrightarrow> py_split c (join [c] ws) = ws"
  by (induction "[c]" ws rule: join.induct) (auto simp: py_split_none py_split_append)

lemma split1_append: "c \<notin> set w \<Longrightarrow> split1 c (w @ c # s) = (w, s)"
proof -
  assume c: "c \<notin> set w"
  then have "\<forall>x\<in>set w. x \<noteq> c" by auto
  then show ?thesis
    using takeWhile_append2 [of w "\<lambda>x. x \<noteq> c" "c # s"] dropWhile_append2 [of w "\<lambda>x. x \<noteq> c" "c # s"]
    by (simp add: split1_def)
qed

lemma words_from_word: "\<forall>c\<in>set v. \<not> py_space c \<Longrightarrow> words_from w (v @ s) = words_from (w @ v) s"
  by (induction v arbitrary: w) auto

lemma py_words_join:
  "\<forall>w\<in>set ws. w \<noteq> [] \<and> (\<forall>c\<in>set w. \<not> py_space c) \<Longrightarrow> py_words (join '' '' ws) = ws"
proof (induction "'' ''" ws rule: join.induct)
  case 1
  then show ?case by (simp add: py_words_def)
next
  case (2 x)
  then show ?case using words_from_word [of x "[]" "[]"] by (simp add: py_words_def)
next
  case (3 x y ys)
  have "py_space (CHR '' '')" by (simp add: py_space_def)
  with 3 show ?case using words_from_word [of x "[]" "'' '' @ join '' '' (y # ys)"] by (simp add: py_words_def)
qed

end
