(* ===== verification/JsonLoads.thy ===== *)
theory JsonLoads
  imports PyStrings
begin

text \<open>
  \<open>json.loads\<close> of the standard library, and that it reads back what \<open>json.dumps\<close> wrote.

  The stores keep dictionaries and results as JSON text, and the bearer tokens carry their
  claims as JSON text; the round trip is what lets the model keep the values themselves.  The
  decoder recurses on the nesting of the text; \<open>n\<close> bounds the number of values, elements and
  members it visits, and the length of the text is enough.  A \<open>\u\<close> escape of a code point
  above 255 is outside the model's strings.
\<close>

definition decode_error :: exn where
  "decode_error = Exn ValueError ''JSONDecodeError''"

definition unmodelled_text :: exn where
  "unmodelled_text = Exn (PyException ''UnmodelledText'') ''code point above 255''"

section \<open>Tokens\<close>

definition json_space :: "char \<Rightarrow> bool" where
  "json_space c \<longleftrightarrow> c \<in> {CHR '' '', CHR 0x09, CHR 0x0A, CHR 0x0D}"

definition skip_space :: "string \<Rightarrow> string" where
  "skip_space s = dropWhile json_space s"

definition hex_val :: "char \<Rightarrow> nat option" where
  "hex_val c = (let n = of_char c :: nat in
     if 48 \<le> n \<and> n \<le> 57 then Some (n - 48)
     else if 97 \<le> n \<and> n \<le> 102 then Some (n - 87)
     else if 65 \<le> n \<and> n \<le> 70 then Some (n - 55) else None)"

definition hex4 :: "char \<Rightarrow> char \<Rightarrow> char \<Rightarrow> char \<Rightarrow> nat option" where
  "hex4 a b c d = (case (hex_val a, hex_val b, hex_val c, hex_val d) of
      (Some w, Some x, Some y, Some z) \<Rightarrow> Some (4096 * w + 256 * x + 16 * y + z)
    | _ \<Rightarrow> None)"

definition unescape :: "char \<Rightarrow> char option" where
  "unescape c = map_of [(CHR 0x22, CHR 0x22), (CHR 0x5C, CHR 0x5C), (CHR ''/'', CHR ''/''), (CHR ''b'', CHR 0x08),
     (CHR ''f'', CHR 0x0C), (CHR ''n'', CHR 0x0A), (CHR ''r'', CHR 0x0D), (CHR ''t'', CHR 0x09)] c"

definition cons_char :: "char \<Rightarrow> exn + string \<times> string \<Rightarrow> exn + string \<times> string" where
  "cons_char c r = map_sum id (\<lambda>(s, rest). (c # s, rest)) r"

text \<open>The text after an opening quote, up to the closing one.\<close>

fun scan_string :: "string \<Rightarrow> exn + string \<times> string" where
  "scan_string [] = Inl decode_error"
| "scan_string (c # cs) =
     (if c = CHR 0x22 then Inr ([], cs)
      else if c = CHR 0x5C
      then (case cs of
              [] \<Rightarrow> Inl decode_error
            | e # cs' \<Rightarrow>
                if e = CHR ''u''
                then (case cs' of
                        h1 # h2 # h3 # h4 # rest \<Rightarrow>
                          (case hex4 h1 h2 h3 h4 of
                             None \<Rightarrow> Inl decode_error
                           | Some n \<Rightarrow> if n < 256 then cons_char (char_of n) (scan_string rest) else Inl unmodelled_text)
                      | _ \<Rightarrow> Inl decode_error)
                else (case unescape e of
                        None \<Rightarrow> Inl decode_error
                      | Some x \<Rightarrow> cons_char x (scan_string cs')))
      else if (of_char c :: nat) < 32 then Inl decode_error
      else cons_char c (scan_string cs))"

text \<open>The parts of a number: \<open>-?(0|[1-9]\d*)\<close>, \<open>(\.\d+)?\<close> and \<open>([eE][-+]?\d+)?\<close>.\<close>

definition scan_int :: "string \<Rightarrow> (string \<times> string) option" where
  "scan_int s =
     (let (sign, s1) = (case s of c # cs \<Rightarrow> if c = CHR ''-'' then (''-'', cs) else ([], s) | [] \<Rightarrow> ([], [])) in
      case s1 of
        [] \<Rightarrow> None
      | c # cs \<Rightarrow>
          if c = CHR ''0'' then Some (sign @ ''0'', cs)
          else if is_digit c then Some (sign @ takeWhile is_digit s1, dropWhile is_digit s1)
          else None)"

definition scan_frac :: "string \<Rightarrow> string \<times> string" where
  "scan_frac s = (case s of
      [] \<Rightarrow> ([], s)
    | c # cs \<Rightarrow> if c = CHR ''.'' \<and> takeWhile is_digit cs \<noteq> []
                then (c # takeWhile is_digit cs, dropWhile is_digit cs) else ([], s))"

definition scan_exp :: "string \<Rightarrow> string \<times> string" where
  "scan_exp s = (case s of
      [] \<Rightarrow> ([], s)
    | c # cs \<Rightarrow>
        if c = CHR ''e'' \<or> c = CHR ''E''
        then (let (sign, ds) = (case cs of d # ds \<Rightarrow> if d = CHR ''-'' \<or> d = CHR ''+'' then ([d], ds) else ([], cs) | [] \<Rightarrow> ([], [])) in
              if takeWhile is_digit ds \<noteq> [] then (c # sign @ takeWhile is_digit ds, dropWhile is_digit ds) else ([], s))
        else ([], s))"

definition scan_number :: "string \<Rightarrow> (pyval \<times> string) option" where
  "scan_number s = (case scan_int s of
      None \<Rightarrow> None
    | Some (i, s1) \<Rightarrow>
        (case scan_frac s1 of (f, s2) \<Rightarrow>
          (case scan_exp s2 of (e, s3) \<Rightarrow>
             if f = [] \<and> e = [] then map_option (\<lambda>v. (PInt v, s1)) (int_body i)
             else map_option (\<lambda>v. (PFloat v, s3)) (float_body (i @ f @ e)))))"

definition starts :: "string \<Rightarrow> string \<Rightarrow> bool" where
  "starts p s \<longleftrightarrow> take (length p) s = p"

definition scan_atom :: "string \<Rightarrow> exn + pyval \<times> string" where
  "scan_atom s =
     (if starts ''null'' s then Inr (PNone, drop 4 s)
      else if starts ''true'' s then Inr (PBool True, drop 4 s)
      else if starts ''false'' s then Inr (PBool False, drop 5 s)
      else (case scan_number s of
              Some r \<Rightarrow> Inr r
            | None \<Rightarrow>
                if starts ''NaN'' s then Inr (PFloat NaN, drop 3 s)
                else if starts ''Infinity'' s then Inr (PFloat PosInf, drop 8 s)
                else if starts ''-Infinity'' s then Inr (PFloat NegInf, drop 9 s)
                else Inl decode_error))"

section \<open>Values\<close>

fun scan_value :: "nat \<Rightarrow> string \<Rightarrow> exn + pyval \<times> string"
  and scan_elems :: "nat \<Rightarrow> string \<Rightarrow> exn + pyval list \<times> string"
  and scan_members :: "nat \<Rightarrow> string \<Rightarrow> exn + pydict \<times> string" where
  "scan_value 0 s = Inl decode_error"
| "scan_value (Suc n) s = (case s of
      [] \<Rightarrow> Inl decode_error
    | c # cs \<Rightarrow>
        if c = CHR 0x22 then bind_sum (scan_string cs) (\<lambda>(t, rest). Inr (PStr t, rest))
        else if c = CHR ''{''
        then (case skip_space cs of
                [] \<Rightarrow> Inl decode_error
              | d # ds \<Rightarrow> if d = CHR ''}'' then Inr (PDict [], ds)
                          else bind_sum (scan_members n (d # ds)) (\<lambda>(items, rest).
                                 Inr (PDict (foldl (\<lambda>dict (k, v). AList.update k v dict) [] items), rest)))
        else if c = CHR ''[''
        then (case skip_space cs of
                [] \<Rightarrow> Inl decode_error
              | d # ds \<Rightarrow> if d = CHR '']'' then Inr (PList [], ds)
                          else bind_sum (scan_elems n (d # ds)) (\<lambda>(vs, rest). Inr (PList vs, rest)))
        else scan_atom s)"
| "scan_elems 0 s = Inl decode_error"
| "scan_elems (Suc n) s =
     bind_sum (scan_value n s) (\<lambda>(v, s1).
       case skip_space s1 of
         [] \<Rightarrow> Inl decode_error
       | c # cs \<Rightarrow>
           if c = CHR '']'' then Inr ([v], cs)
           else if c = CHR '','' then bind_sum (scan_elems n (skip_space cs)) (\<lambda>(vs, rest). Inr (v # vs, rest))
           else Inl decode_error)"
| "scan_members 0 s = Inl decode_error"
| "scan_members (Suc n) s = (case s of
      [] \<Rightarrow> Inl decode_error
    | q # s0 \<Rightarrow>
        if q \<noteq> CHR 0x22 then Inl decode_error
        else bind_sum (scan_string s0) (\<lambda>(k, s1).
          case skip_space s1 of
            [] \<Rightarrow> Inl decode_error
          | c # s2 \<Rightarrow>
              if c \<noteq> CHR '':'' then Inl decode_error
              else bind_sum (scan_value n (skip_space s2)) (\<lambda>(v, s3).
                case skip_space s3 of
                  [] \<Rightarrow> Inl decode_error
                | d # s4 \<Rightarrow>
                    if d = CHR ''}'' then Inr ([(k, v)], s4)
                    else if d = CHR '','' then bind_sum (scan_members n (skip_space s4)) (\<lambda>(items, rest). Inr ((k, v) # items, rest))
                    else Inl decode_error)))"

definition json_loads :: "string \<Rightarrow> exn + pyval" where
  "json_loads s =
     bind_sum (scan_value (3 * length s + 2) (skip_space s)) (\<lambda>(v, rest).
       if skip_space rest = [] then Inr v else Inl decode_error)"

section \<open>Strings read back\<close>

lemma hex_val_digit: "d < 16 \<Longrightarrow> hex_val (hex_digit d) = Some d"
  by (auto simp: hex_val_def hex_digit_def Let_def)

lemma hex4_byte: "n < 256 \<Longrightarrow> hex4 (CHR ''0'') (CHR ''0'') (hex_digit (n div 16)) (hex_digit (n mod 16)) = Some n"
proof -
  assume n: "n < 256"
  have "hex_val (CHR ''0'') = Some 0" by (simp add: hex_val_def)
  with n hex_val_digit [of "n div 16"] hex_val_digit [of "n mod 16"] show ?thesis by (simp add: hex4_def)
qed

lemma cons_char_Inr [simp]: "cons_char c (Inr (s, rest)) = Inr (c # s, rest)"
  by (simp add: cons_char_def)

lemma scan_json_char: "scan_string (json_char c @ s) = cons_char c (scan_string s)"
proof -
  let ?n = "of_char c :: nat"
  have c: "c = char_of ?n" and n: "?n < 256" by simp_all
  consider "?n \<in> {34, 92, 10, 13, 9, 12, 8}" | "32 \<le> ?n" "?n < 127" "?n \<notin> {34, 92}"
    | "?n < 32 \<or> 127 \<le> ?n" "?n \<notin> {10, 13, 9, 12, 8}" by fastforce
  then show ?thesis
  proof cases
    case 1
    then have "of_char c \<in> (of_char :: char \<Rightarrow> nat) ` {CHR 0x22, CHR 0x5C, CHR 0x0A, CHR 0x0D, CHR 0x09, CHR 0x0C, CHR 0x08}"
      by simp
    then have "c \<in> {CHR 0x22, CHR 0x5C, CHR 0x0A, CHR 0x0D, CHR 0x09, CHR 0x0C, CHR 0x08}"
      by (simp only: image_iff of_char_eq_iff) auto
    then show ?thesis by (auto simp: json_char_def unescape_def)
  next
    case 2
    then have "c \<noteq> CHR 0x22" "c \<noteq> CHR 0x5C" by auto
    with 2 show ?thesis by (simp add: json_char_def Let_def)
  next
    case 3
    then have "json_char c = [CHR 0x5C, CHR ''u'', CHR ''0'', CHR ''0'', hex_digit (?n div 16), hex_digit (?n mod 16)]"
      by (auto simp: json_char_def Let_def)
    with hex4_byte [OF n] n show ?thesis by simp
  qed
qed

lemma scan_json_string: "scan_string (concat (map json_char s) @ CHR 0x22 # rest) = Inr (s, rest)"
  by (induction s) (simp_all add: scan_json_char)

section \<open>Numbers read back\<close>

text \<open>What may follow a number without being read as part of it.\<close>

definition ends_number :: "string \<Rightarrow> bool" where
  "ends_number rest \<longleftrightarrow> (case rest of [] \<Rightarrow> True | c # cs \<Rightarrow> \<not> is_digit c \<and> c \<noteq> CHR ''.'' \<and> c \<noteq> CHR ''e'' \<and> c \<noteq> CHR ''E'')"

lemma ends_number_simps [simp]:
  "ends_number []" "ends_number (CHR '','' # s)" "ends_number (CHR '']'' # s)" "ends_number (CHR ''}'' # s)"
  by (simp_all add: ends_number_def is_digit_def)

lemma nat_str_head: "0 < n \<Longrightarrow> hd (nat_str n) \<noteq> CHR ''0''"
proof (induction n rule: nat_str.induct)
  case (1 n)
  show ?case
  proof (cases "n < 10")
    case True
    have "digit_char n \<noteq> digit_char 0" using "1.prems" True digit_char_inj by simp
    moreover have "digit_char 0 = CHR ''0''" by (simp add: digit_char_def char_of_eq_iff)
    ultimately show ?thesis using True by (simp add: nat_str.simps [of n])
  next
    case False
    with 1 show ?thesis by (simp add: nat_str.simps [of n])
  qed
qed

lemma nat_str_zero: "nat_str 0 = ''0''"
  by (simp add: nat_str.simps digit_char_def char_of_eq_iff)

lemma digits_then_rest:
  "ends_number rest \<Longrightarrow> takeWhile is_digit (nat_str n @ rest) = nat_str n \<and> dropWhile is_digit (nat_str n @ rest) = rest"
  using nat_str_digits [of n]
  by (cases rest) (simp_all add: ends_number_def takeWhile_append2 dropWhile_append2)

lemma scan_int_nat:
  assumes "ends_number rest"
  shows "scan_int (nat_str n @ rest) = Some (nat_str n, rest)" "scan_int (CHR ''-'' # nat_str n @ rest) = Some (CHR ''-'' # nat_str n, rest)"
proof -
  obtain c cs where c: "nat_str n = c # cs" by (cases "nat_str n") auto
  then have d: "is_digit c" "c \<noteq> CHR ''-''" using nat_str_free [of c n] is_digit_not_special [of c] by auto
  show "scan_int (nat_str n @ rest) = Some (nat_str n, rest)"
    and "scan_int (CHR ''-'' # nat_str n @ rest) = Some (CHR ''-'' # nat_str n, rest)"
    using c d digits_then_rest [OF assms, of n] nat_str_head [of n] nat_str_zero
    by (cases "n = 0"; simp add: scan_int_def)+
qed

lemma scan_number_int:
  assumes "ends_number rest"
  shows "scan_number (int_str i @ rest) = Some (PInt i, rest)"
proof -
  have "scan_frac rest = ([], rest)" "scan_exp rest = ([], rest)"
    using assms by (cases rest; simp add: ends_number_def scan_frac_def scan_exp_def)+
  moreover have "scan_int (int_str i @ rest) = Some (int_str i, rest)"
    using scan_int_nat [OF assms] by (simp add: int_str_def)
  moreover have "int_body (int_str i) = Some i"
  proof (cases "i < 0")
    case True
    then show ?thesis by (simp add: int_str_def digits_val_nat_str)
  next
    case False
    then obtain c cs where c: "nat_str (nat i) = c # cs" by (cases "nat_str (nat i)") auto
    with False nat_str_free [of c "nat i"] is_digit_not_special [of c] digits_val_nat_str [of False "nat i"]
    show ?thesis by (simp add: int_str_def)
  qed
  ultimately show ?thesis by (simp add: scan_number_def)
qed

lemma int_str_first: "\<exists>c cs. int_str i = c # cs \<and> (is_digit c \<or> c = CHR ''-'')"
  using nat_str_free [of "hd (nat_str (nat i))" "nat i"] by (cases "i < 0"; cases "nat_str (nat i)") (auto simp: int_str_def)

text \<open>A number that is read to its end is read the same when something follows that cannot be part of it.\<close>

lemma digits_append:
  assumes "ends_number rest"
  shows "takeWhile is_digit (cs @ rest) = takeWhile is_digit cs" "dropWhile is_digit (cs @ rest) = dropWhile is_digit cs @ rest"
  using assms by (induction cs; cases rest; simp add: ends_number_def)+

lemma scan_int_append:
  assumes "ends_number rest" and "scan_int s = Some (i, s1)"
  shows "scan_int (s @ rest) = Some (i, s1 @ rest)"
proof (cases s)
  case (Cons c cs)
  with assms(2) show ?thesis
    by (cases cs) (auto simp: scan_int_def digits_append [OF assms(1)] digits_append [OF assms(1), of "[]", simplified] split: if_splits)
qed (use assms(2) in \<open>simp add: scan_int_def\<close>)

lemma scan_frac_append:
  assumes "ends_number rest" and "scan_frac s = (f, s1)"
  shows "scan_frac (s @ rest) = (f, s1 @ rest)"
proof (cases s)
  case Nil
  with assms show ?thesis by (cases rest) (simp_all add: scan_frac_def ends_number_def)
next
  case (Cons c cs)
  with assms(2) show ?thesis by (simp add: scan_frac_def digits_append [OF assms(1)] split: if_splits)
qed

lemma scan_exp_append:
  assumes "ends_number rest" and "scan_exp s = (e, [])"
  shows "scan_exp (s @ rest) = (e, rest)"
proof (cases s)
  case Nil
  with assms show ?thesis by (cases rest) (simp_all add: scan_exp_def ends_number_def)
next
  case (Cons c cs)
  with assms(2) show ?thesis
    by (cases cs) (auto simp: scan_exp_def digits_append [OF assms(1)] Let_def split: if_splits)
qed

lemma scan_number_append:
  assumes "ends_number rest" and "scan_number s = Some (PFloat v, [])"
  shows "scan_number (s @ rest) = Some (PFloat v, rest)"
proof -
  obtain i s1 f s2 e where n: "scan_int s = Some (i, s1)" "scan_frac s1 = (f, s2)" "scan_exp s2 = (e, [])"
    "\<not> (f = [] \<and> e = [])" "float_body (i @ f @ e) = Some v"
    using assms(2) by (auto simp: scan_number_def split: option.splits prod.splits if_splits)
  then show ?thesis
    using scan_int_append [OF assms(1) n(1)] scan_frac_append [OF assms(1) n(2)] scan_exp_append [OF assms(1) n(3)]
    by (auto simp: scan_number_def)
qed

text \<open>The texts of an amount and of a delay.\<close>

lemmas scan_number_defs = scan_number_def scan_int_def scan_frac_def scan_exp_def py_number_defs

lemma amount_text: "scan_number ''8200.0'' = Some (PFloat (Fin 8200), [])"
  by (simp add: scan_number_defs)

lemma delay_text: "scan_number ''0.5'' = Some (PFloat (Fin (1 / 2)), [])"
  by (simp add: scan_number_defs)

text \<open>The characters of a number.\<close>

definition number_char :: "char \<Rightarrow> bool" where
  "number_char c \<longleftrightarrow> is_digit c \<or> c \<in> {CHR ''-'', CHR ''+'', CHR ''.'', CHR ''e'', CHR ''E''}"

lemma zero_is_digit [simp]: "is_digit (CHR ''0'')"
  by (simp add: is_digit_def)

lemma scan_int_chars:
  "scan_int s = Some (i, s1) \<Longrightarrow> s = i @ s1 \<and> list_all number_char i \<and> i \<noteq> [] \<and> (is_digit (hd i) \<or> hd i = CHR ''-'')"
  by (auto simp: scan_int_def list_all_iff number_char_def split: list.splits if_splits prod.splits dest: set_takeWhileD)

lemma scan_frac_chars: "scan_frac s = (f, s1) \<Longrightarrow> s = f @ s1 \<and> list_all number_char f"
  by (auto simp: scan_frac_def list_all_iff number_char_def split: list.splits if_splits dest: set_takeWhileD)

lemma scan_exp_chars: "scan_exp s = (e, s1) \<Longrightarrow> s = e @ s1 \<and> list_all number_char e"
  by (auto simp: scan_exp_def list_all_iff number_char_def Let_def split: list.splits if_splits prod.splits dest: set_takeWhileD)

lemma scan_number_chars:
  assumes "scan_number s = Some (PFloat v, [])"
  shows "list_all number_char s" "s \<noteq> []" "is_digit (hd s) \<or> hd s = CHR ''-''"
proof -
  obtain i s1 f s2 e where n: "scan_int s = Some (i, s1)" "scan_frac s1 = (f, s2)" "scan_exp s2 = (e, [])"
    using assms by (auto simp: scan_number_def split: option.splits prod.splits if_splits)
  then show "list_all number_char s" "s \<noteq> []" "is_digit (hd s) \<or> hd s = CHR ''-''"
    using scan_int_chars [OF n(1)] scan_frac_chars [OF n(2)] scan_exp_chars [OF n(3)] by auto
qed

section \<open>Values read back\<close>

text \<open>
  Values whose JSON text denotes them: dictionaries have distinct keys, and the text \<open>fs q\<close> that
  the environment gives a finite float \<open>q\<close> (the parameter for \<open>float.__repr__\<close>) is a decimal number with that
  value, which Python documents as \<open>float(repr(x)) == x\<close>.
\<close>

fun storable :: "(rat \<Rightarrow> string) \<Rightarrow> pyval \<Rightarrow> bool" where
  "storable fs (PFloat f) = (case f of Fin q \<Rightarrow> scan_number (fs q) = Some (PFloat (Fin q), []) | _ \<Rightarrow> True)"
| "storable fs (PList vs) = (\<forall>v\<in>set vs. storable fs v)"
| "storable fs (PDict d) = (distinct (map fst d) \<and> (\<forall>kv\<in>set d. storable fs (snd kv)))"
| "storable fs _ = True"

lemma skip_space_cons [simp]: "\<not> json_space c \<Longrightarrow> skip_space (c # s) = c # s"
  by (simp add: skip_space_def)

lemma skip_space_pad: "\<forall>c\<in>set w. json_space c \<Longrightarrow> s \<noteq> [] \<Longrightarrow> \<not> json_space (hd s) \<Longrightarrow> skip_space (w @ s) = s"
  by (cases s) (simp_all add: skip_space_def dropWhile_append2)

lemma punctuation_no_space [simp]:
  "\<not> json_space (CHR '','')" "\<not> json_space (CHR '']'')" "\<not> json_space (CHR ''}'')" "\<not> json_space (CHR '':'')"
  "\<not> json_space (CHR 0x22)" "\<not> json_space (CHR ''-'')" "is_digit c \<Longrightarrow> \<not> json_space c"
  by (auto simp: json_space_def is_digit_def)

text \<open>The text of a value starts with a character that is not white space.\<close>

lemma dumps_first:
  assumes "storable fs v"
  shows "\<exists>c cs. json_dumps fs isep ksep False v = c # cs \<and> \<not> json_space c \<and> c \<noteq> CHR '']'' \<and> c \<noteq> CHR ''}''"
proof (cases v)
  case (PInt i)
  then show ?thesis using int_str_first [of i] by (auto simp: is_digit_def json_space_def)
next
  case (PFloat f)
  then show ?thesis
  proof (cases f)
    case (Fin q)
    then have "fs q \<noteq> []" "is_digit (hd (fs q)) \<or> hd (fs q) = CHR ''-''"
      using assms PFloat scan_number_chars [of "fs q" "Fin q"] by simp_all
    with PFloat Fin show ?thesis by (cases "fs q") (auto simp: json_float_def is_digit_def json_space_def)
  qed (auto simp: json_float_def json_space_def)
qed (auto simp: json_string_def json_space_def Let_def)

lemma scan_atom_dumps:
  assumes "storable fs v" "ends_number rest" "\<And>vs. v \<noteq> PList vs" "\<And>d. v \<noteq> PDict d" "\<And>s. v \<noteq> PStr s"
  shows "scan_value (Suc n) (json_dumps fs isep ksep False v @ rest) = Inr (v, rest)"
proof (cases v)
  case (PInt i)
  obtain c cs where c: "int_str i = c # cs" "is_digit c \<or> c = CHR ''-''" using int_str_first by blast
  then have "c \<notin> {CHR 0x22, CHR ''{'', CHR ''['', CHR ''n'', CHR ''t'', CHR ''f''}" by (auto simp: is_digit_def)
  with PInt c scan_number_int [OF assms(2), of i] show ?thesis by (auto simp: scan_atom_def starts_def)
next
  case (PFloat f)
  then show ?thesis
  proof (cases f)
    case (Fin q)
    then have q: "scan_number (fs q) = Some (PFloat (Fin q), [])" using assms(1) PFloat by simp
    from scan_number_chars [OF q] obtain c cs where c: "fs q = c # cs" "is_digit c \<or> c = CHR ''-''"
      by (cases "fs q") auto
    then have "c \<notin> {CHR 0x22, CHR ''{'', CHR ''['', CHR ''n'', CHR ''t'', CHR ''f''}" by (auto simp: is_digit_def)
    with PFloat Fin c scan_number_append [OF assms(2) q] show ?thesis
      by (auto simp: json_float_def scan_atom_def starts_def)
  qed (use assms in \<open>auto simp: json_float_def scan_atom_def starts_def scan_number_def scan_int_def is_digit_def\<close>)
qed (use assms in \<open>auto simp: scan_atom_def starts_def\<close>)

text \<open>The separators: a comma and a colon, perhaps followed by white space.\<close>

locale separators =
  fixes isep ksep :: string and w1 w2 :: string
  assumes isep: "isep = CHR '','' # w1" and ksep: "ksep = CHR '':'' # w2"
    and w1: "\<forall>c\<in>set w1. json_space c" and w2: "\<forall>c\<in>set w2. json_space c"
begin

abbreviation dumps :: "(rat \<Rightarrow> string) \<Rightarrow> pyval \<Rightarrow> string" where
  "dumps fs v \<equiv> json_dumps fs isep ksep False v"

definition reads_back :: "(rat \<Rightarrow> string) \<Rightarrow> pyval \<Rightarrow> bool" where
  "reads_back fs v \<longleftrightarrow> (\<forall>n rest. size v < n \<longrightarrow> ends_number rest \<longrightarrow> scan_value n (dumps fs v @ rest) = Inr (v, rest))"

lemma skip_pad_dumps:
  "storable fs v \<Longrightarrow> \<forall>c\<in>set w. json_space c \<Longrightarrow> skip_space (w @ dumps fs v @ s) = dumps fs v @ s"
  using dumps_first [of fs v isep ksep] by (intro skip_space_pad) auto

lemma ends_isep: "ends_number (isep @ s)"
  by (simp add: isep)

lemma elems_read_back:
  "\<forall>v\<in>set vs. storable fs v \<and> reads_back fs v \<Longrightarrow> vs \<noteq> [] \<Longrightarrow> size_list size vs < n \<Longrightarrow>
     scan_elems n (join isep (map (dumps fs) vs) @ CHR '']'' # rest) = Inr (vs, rest)"
proof (induction vs arbitrary: n)
  case (Cons v vs)
  then obtain m where n: "n = Suc m" "size v < m" by (cases n) auto
  show ?case
  proof (cases vs)
    case Nil
    with Cons.prems n have "scan_value m (dumps fs v @ CHR '']'' # rest) = Inr (v, CHR '']'' # rest)"
      by (simp add: reads_back_def)
    with n Nil show ?thesis by simp
  next
    case us: (Cons u us)
    let ?tail = "join isep (map (dumps fs) vs) @ CHR '']'' # rest"
    have first: "?tail = dumps fs u @ drop (length (dumps fs u)) ?tail"
      using us by (cases us) (simp_all add: isep)
    have "scan_value m (dumps fs v @ isep @ ?tail) = Inr (v, isep @ ?tail)"
      using Cons.prems(1) n by (simp add: reads_back_def ends_isep)
    moreover have "skip_space (w1 @ ?tail) = ?tail"
      using skip_pad_dumps [of fs u w1] w1 us Cons.prems(1) first by (metis list.set_intros(1,2))
    moreover have "scan_elems m ?tail = Inr (vs, rest)"
      using Cons.IH [of m] Cons.prems n us by simp
    ultimately show ?thesis using n us by (simp add: isep)
  qed
qed simp

definition member_text :: "(rat \<Rightarrow> string) \<Rightarrow> string \<times> pyval \<Rightarrow> string" where
  "member_text fs kv = json_string (fst kv) @ ksep @ dumps fs (snd kv)"

lemma scan_member:
  assumes "storable fs v" "reads_back fs v" "size v < n" "ends_number rest"
  shows "scan_string (tl (member_text fs (k, v) @ rest)) = Inr (k, ksep @ dumps fs v @ rest)"
    "scan_value n (skip_space (w2 @ dumps fs v @ rest)) = Inr (v, rest)"
proof -
  show "scan_string (tl (member_text fs (k, v) @ rest)) = Inr (k, ksep @ dumps fs v @ rest)"
    using scan_json_string [of k "ksep @ dumps fs v @ rest"] by (simp add: member_text_def json_string_def)
  show "scan_value n (skip_space (w2 @ dumps fs v @ rest)) = Inr (v, rest)"
    using assms skip_pad_dumps [OF assms(1) w2] by (simp add: reads_back_def)
qed

lemma member_text_first: "member_text fs kv @ s = CHR 0x22 # tl (member_text fs kv @ s)"
  by (simp add: member_text_def json_string_def)

lemma members_read_back:
  "\<forall>kv\<in>set d. storable fs (snd kv) \<and> reads_back fs (snd kv) \<Longrightarrow> d \<noteq> [] \<Longrightarrow> size_list (\<lambda>kv. size (snd kv)) d < n \<Longrightarrow>
     scan_members n (join isep (map (member_text fs) d) @ CHR ''}'' # rest) = Inr (d, rest)"
proof (induction d arbitrary: n)
  case (Cons kv d)
  obtain k v where kv: "kv = (k, v)" by (cases kv)
  obtain m where n: "n = Suc m" "size v < m" using Cons.prems kv by (cases n) auto
  have v: "storable fs v" "reads_back fs v" using Cons.prems(1) kv by auto
  have step: "scan_members n (member_text fs kv @ s) =
      (case skip_space s of [] \<Rightarrow> Inl decode_error
       | x # s4 \<Rightarrow> if x = CHR ''}'' then Inr ([(k, v)], s4)
          else if x = CHR '','' then bind_sum (scan_members m (skip_space s4)) (\<lambda>(items, rest). Inr ((k, v) # items, rest))
          else Inl decode_error)" if "ends_number s" for s
    using scan_member(1) [OF v n(2) that, of k] scan_member(2) [OF v n(2) that] n(1) by (subst member_text_first) (simp add: kv ksep)
  show ?case
  proof (cases d)
    case Nil
    then show ?thesis using step [of "CHR ''}'' # rest"] by (simp add: kv)
  next
    case us: (Cons u us)
    let ?tail = "join isep (map (member_text fs) d) @ CHR ''}'' # rest"
    have "?tail \<noteq> []" "hd ?tail = CHR 0x22"
      using us by (cases us; simp add: member_text_def json_string_def)+
    then have "skip_space (w1 @ ?tail) = ?tail" using w1 by (intro skip_space_pad) simp_all
    moreover have "scan_members m ?tail = Inr (d, rest)"
      using Cons.IH [of m] Cons.prems n us by simp
    ultimately show ?thesis using step [of "isep @ ?tail", OF ends_isep] us by (simp add: kv isep)
  qed
qed simp

lemma update_absent: "k \<notin> fst ` set al \<Longrightarrow> AList.update k v al = al @ [(k, v)]"
  by (induction al) auto

lemma foldl_update_distinct:
  "distinct (map fst (acc @ d)) \<Longrightarrow> foldl (\<lambda>dict (k, v). AList.update k v dict) acc d = acc @ d"
proof (induction d arbitrary: acc)
  case (Cons kv d)
  obtain k v where kv: "kv = (k, v)" by (cases kv)
  have "AList.update k v acc = acc @ [(k, v)]"
    using Cons.prems kv by (intro update_absent) auto
  with Cons kv show ?case by simp
qed simp

lemma atom_reads_back:
  "storable fs v \<Longrightarrow> (\<And>vs. v \<noteq> PList vs) \<Longrightarrow> (\<And>d. v \<noteq> PDict d) \<Longrightarrow> (\<And>s. v \<noteq> PStr s) \<Longrightarrow> reads_back fs v"
  using scan_atom_dumps [of fs v _ _ isep ksep] by (auto simp: reads_back_def elim!: less_natE)

lemma value_reads_back: "storable fs v \<Longrightarrow> reads_back fs v"
proof (induction v)
  case (PList vs)
  then have vs: "\<forall>v\<in>set vs. storable fs v \<and> reads_back fs v" by simp
  show ?case
    unfolding reads_back_def
  proof (intro allI impI)
    fix n rest assume n: "size (PList vs) < n"
    then obtain m where m: "n = Suc m" "size_list size vs < m" by (cases n) auto
    show "scan_value n (dumps fs (PList vs) @ rest) = Inr (PList vs, rest)"
    proof (cases vs)
      case Nil
      with m show ?thesis by simp
    next
      case us: (Cons u us)
      let ?t = "join isep (map (dumps fs) vs) @ CHR '']'' # rest"
      obtain c cs where c: "dumps fs u = c # cs" "\<not> json_space c" "c \<noteq> CHR '']''"
        using dumps_first [of fs u isep ksep] vs us by auto
      then obtain ts where t: "?t = c # ts" using us by (cases us) auto
      have "scan_elems m ?t = Inr (vs, rest)" using elems_read_back [OF vs] us m by simp
      with t c m show ?thesis by simp
    qed
  qed
next
  case (PDict d)
  then have d: "\<forall>kv\<in>set d. storable fs (snd kv) \<and> reads_back fs (snd kv)" by (auto simp: snds.simps)
  show ?case
    unfolding reads_back_def
  proof (intro allI impI)
    fix n rest assume n: "size (PDict d) < n"
    have "size_list (\<lambda>kv. size (snd kv)) d \<le> size_list (size_prod (\<lambda>_. 0) size) d"
      by (rule size_list_pointwise) (simp add: size_prod_simp)
    with n obtain m where m: "n = Suc m" "size_list (\<lambda>kv. size (snd kv)) d < m" by (cases n) auto
    have printed: "dumps fs (PDict d) = CHR ''{'' # join isep (map (member_text fs) d) @ ''}''"
      by (simp add: member_text_def [abs_def] Let_def comp_def split_beta)
    show "scan_value n (dumps fs (PDict d) @ rest) = Inr (PDict d, rest)"
    proof (cases d)
      case Nil
      with m printed show ?thesis by simp
    next
      case us: (Cons u us)
      let ?t = "join isep (map (member_text fs) d) @ CHR ''}'' # rest"
      obtain ts where t: "?t = CHR 0x22 # ts"
        using us by (cases us) (auto simp: member_text_def json_string_def)
      have "scan_members m ?t = Inr (d, rest)" using members_read_back [OF d] us m by simp
      with t printed m foldl_update_distinct [of "[]" d] PDict.prems show ?thesis by simp
    qed
  qed
next
  case (PStr s)
  show ?case
    unfolding reads_back_def
  proof (intro allI impI)
    fix n rest assume "size (PStr s) < n"
    then show "scan_value n (dumps fs (PStr s) @ rest) = Inr (PStr s, rest)"
      using scan_json_string [of s rest] by (cases n) (simp_all add: json_string_def)
  qed
qed (auto intro: atom_reads_back)

end

section \<open>The bound is enough\<close>

lemma skip_space_length: "length (skip_space s) \<le> length s"
  by (simp add: skip_space_def length_dropWhile_le)

lemma scan_string_length: "scan_string s = Inr (x, rest) \<Longrightarrow> length rest < length s"
proof (induction s arbitrary: x rest rule: scan_string.induct)
  case (2 c cs)
  have cons: "\<exists>y. r = Inr (y, rest)" if "cons_char a r = Inr (x, rest)" for a r
    using that by (cases r) (auto simp: cons_char_def)
  from 2 show ?case
    by (auto split: if_splits list.splits option.splits dest!: cons) fastforce+
qed simp

lemma scan_int_length: "scan_int s = Some (x, rest) \<Longrightarrow> length rest < length s"
proof -
  have "length (dropWhile is_digit cs) \<le> length cs" for cs by (rule length_dropWhile_le)
  then show "scan_int s = Some (x, rest) \<Longrightarrow> ?thesis"
    by (auto simp: scan_int_def le_imp_less_Suc less_SucI split: list.splits if_splits prod.splits)
qed

lemma scan_frac_length: "scan_frac s = (x, rest) \<Longrightarrow> length rest \<le> length s"
  using length_dropWhile_le [of is_digit "tl s"] by (auto simp: scan_frac_def split: list.splits if_splits)

lemma scan_exp_length: "scan_exp s = (x, rest) \<Longrightarrow> length rest \<le> length s"
proof -
  have "length (dropWhile is_digit cs) \<le> length cs" for cs by (rule length_dropWhile_le)
  then show "scan_exp s = (x, rest) \<Longrightarrow> ?thesis"
    by (auto simp: scan_exp_def Let_def le_SucI split: list.splits if_splits prod.splits)
qed

lemma scan_number_length: "scan_number s = Some (v, rest) \<Longrightarrow> length rest < length s"
  by (auto simp: scan_number_def split: option.splits prod.splits if_splits
      dest!: scan_int_length scan_frac_length scan_exp_length)

lemma starts_length: "starts p s \<Longrightarrow> length p \<le> length s"
  by (metis starts_def length_take min.cobounded1)

lemma scan_atom_length: "scan_atom s = Inr (v, rest) \<Longrightarrow> length rest < length s"
  by (auto simp: scan_atom_def split: if_splits option.splits dest!: starts_length scan_number_length)

lemma skip_space_shorter: "skip_space s = c # cs \<Longrightarrow> length cs < length s"
  using skip_space_length [of s] by simp

lemma scan_value_length:
  assumes "\<And>s vs rest. scan_elems n s = Inr (vs, rest) \<Longrightarrow> length rest < length s"
    and "\<And>s d rest. scan_members n s = Inr (d, rest) \<Longrightarrow> length rest < length s"
    and "scan_value (Suc n) s = Inr (v, rest)"
  shows "length rest < length s"
proof (cases s)
  case (Cons c cs)
  consider t where "scan_string cs = Inr (t, rest)" | "scan_atom s = Inr (v, rest)" | d where "skip_space cs = d # rest"
    | d ds items where "skip_space cs = d # ds" "scan_members n (d # ds) = Inr (items, rest)"
    | d ds vs where "skip_space cs = d # ds" "scan_elems n (d # ds) = Inr (vs, rest)"
    using assms(3) Cons by (auto simp: bind_sum_Inr split: if_splits list.splits)
  then show ?thesis
  proof cases
    case 1
    then show ?thesis using scan_string_length Cons by fastforce
  next
    case 2
    then show ?thesis by (rule scan_atom_length)
  next
    case 3
    then show ?thesis using skip_space_shorter Cons by fastforce
  next
    case 4
    then show ?thesis using assms(2) [OF 4(2)] skip_space_shorter [OF 4(1)] Cons by simp
  next
    case 5
    then show ?thesis using assms(1) [OF 5(2)] skip_space_shorter [OF 5(1)] Cons by simp
  qed
qed (use assms(3) in simp)

lemma scan_elems_length:
  assumes "\<And>s v rest. scan_value n s = Inr (v, rest) \<Longrightarrow> length rest < length s"
    and "\<And>s vs rest. scan_elems n s = Inr (vs, rest) \<Longrightarrow> length rest < length s"
    and "scan_elems (Suc n) s = Inr (vs, rest)"
  shows "length rest < length s"
proof -
  obtain v s1 where v1: "scan_value n s = Inr (v, s1)" using assms(3) by (auto simp: bind_sum_Inr)
  then obtain c cs where c: "skip_space s1 = c # cs" using assms(3) by (cases "skip_space s1") simp_all
  note v = v1 c
  have r: "rest = cs \<or> (\<exists>us. scan_elems n (skip_space cs) = Inr (us, rest))"
    using assms(3) v by (auto simp: bind_sum_Inr split: if_splits)
  have "length rest \<le> length cs"
    using r assms(2) [of "skip_space cs"] skip_space_length [of cs] by fastforce
  with assms(1) [OF v(1)] skip_space_shorter [OF v(2)] show ?thesis by simp
qed

lemma scan_members_length:
  assumes "\<And>s v rest. scan_value n s = Inr (v, rest) \<Longrightarrow> length rest < length s"
    and "\<And>s d rest. scan_members n s = Inr (d, rest) \<Longrightarrow> length rest < length s"
    and "scan_members (Suc n) s = Inr (items, rest)"
  shows "length rest < length s"
proof -
  obtain s0 where s0: "s = CHR 0x22 # s0" using assms(3) by (cases s) (auto split: if_splits)
  then obtain k s1 where k: "scan_string s0 = Inr (k, s1)" using assms(3) by (auto simp: bind_sum_Inr)
  obtain s2 where s2: "skip_space s1 = CHR '':'' # s2"
    using assms(3) s0 k by (cases "skip_space s1") (auto split: if_splits)
  obtain v s3 where v: "scan_value n (skip_space s2) = Inr (v, s3)"
    using assms(3) s0 k s2 by (auto simp: bind_sum_Inr)
  obtain d s4 where s4: "skip_space s3 = d # s4"
    using assms(3) s0 k s2 v by (cases "skip_space s3") simp_all
  have r: "rest = s4 \<or> (\<exists>us. scan_members n (skip_space s4) = Inr (us, rest))"
    using assms(3) s0 k s2 v s4 by (auto simp: bind_sum_Inr split: if_splits)
  note s = s0 k s2 v s4
  have "length rest \<le> length s4"
    using r assms(2) [of "skip_space s4"] skip_space_length [of s4] by fastforce
  also have "\<dots> < length s3" by (rule skip_space_shorter [OF s(5)])
  also have "\<dots> < length s0"
    using assms(1) [OF s(4)] skip_space_length [of s2] skip_space_shorter [OF s(3)] scan_string_length [OF s(2)] by simp
  finally show ?thesis using s(1) by simp
qed

lemma scan_length:
  "(\<forall>s v rest. scan_value n s = Inr (v, rest) \<longrightarrow> length rest < length s) \<and>
   (\<forall>s vs rest. scan_elems n s = Inr (vs, rest) \<longrightarrow> length rest < length s) \<and>
   (\<forall>s d rest. scan_members n s = Inr (d, rest) \<longrightarrow> length rest < length s)"
proof (induction n)
  case (Suc n)
  then show ?case using scan_value_length [of n] scan_elems_length [of n] scan_members_length [of n] by blast
qed simp

declare scan_value.simps [simp del] scan_elems.simps [simp del] scan_members.simps [simp del]

lemma scan_value_more:
  assumes "\<And>s. 2 * length s + 1 < n \<Longrightarrow> scan_elems n s = scan_elems (Suc n) s"
    and "\<And>s. 2 * length s + 1 < n \<Longrightarrow> scan_members n s = scan_members (Suc n) s"
    and "2 * length s < Suc n"
  shows "scan_value (Suc n) s = scan_value (Suc (Suc n)) s"
proof (cases s)
  case (Cons c cs)
  have "2 * length (d # ds) + 1 < n" if "skip_space cs = d # ds" for d ds
    using skip_space_length [of cs] that assms(3) Cons by simp
  with assms(1,2) have
    "skip_space cs = d # ds \<Longrightarrow> scan_elems n (d # ds) = scan_elems (Suc n) (d # ds)"
    "skip_space cs = d # ds \<Longrightarrow> scan_members n (d # ds) = scan_members (Suc n) (d # ds)" for d ds by blast+
  then show ?thesis using Cons by (simp only: scan_value.simps list.case split: list.split) auto
qed (simp add: scan_value.simps)

lemma scan_elems_more:
  assumes "\<And>s. 2 * length s < n \<Longrightarrow> scan_value n s = scan_value (Suc n) s"
    and "\<And>s. 2 * length s + 1 < n \<Longrightarrow> scan_elems n s = scan_elems (Suc n) s"
    and "2 * length s + 1 < Suc n"
  shows "scan_elems (Suc n) s = scan_elems (Suc (Suc n)) s"
proof -
  have tail: "scan_elems n (skip_space cs) = scan_elems (Suc n) (skip_space cs)"
    if "scan_value (Suc n) s = Inr (v, s1)" "skip_space s1 = c # cs" for v s1 c cs
    using that scan_length [of "Suc n"] skip_space_shorter [OF that(2)] skip_space_length [of cs] assms(3)
    by (intro assms(2)) fastforce
  have "scan_value n s = scan_value (Suc n) s" using assms(1,3) by simp
  then show ?thesis
    unfolding scan_elems.simps(2) [of n s] scan_elems.simps(2) [of "Suc n" s] by (auto intro!: bind_sum_cong simp: tail split: list.split)
qed

lemma scan_members_more:
  assumes "\<And>s. 2 * length s < n \<Longrightarrow> scan_value n s = scan_value (Suc n) s"
    and "\<And>s. 2 * length s + 1 < n \<Longrightarrow> scan_members n s = scan_members (Suc n) s"
    and "2 * length s + 1 < Suc n"
  shows "scan_members (Suc n) s = scan_members (Suc (Suc n)) s"
proof (cases s)
  case (Cons q s0)
  have val: "scan_value n (skip_space s2) = scan_value (Suc n) (skip_space s2)" "length s2 < length s"
    if "scan_string s0 = Inr (k, s1)" "skip_space s1 = c # s2" for k s1 c s2
    using scan_string_length [OF that(1)] skip_space_shorter [OF that(2)] skip_space_length [of s2] assms(3) Cons
    by (auto intro: assms(1))
  have tail: "scan_members n (skip_space s4) = scan_members (Suc n) (skip_space s4)"
    if "scan_string s0 = Inr (k, s1)" "skip_space s1 = c # s2" "scan_value (Suc n) (skip_space s2) = Inr (v, s3)"
      "skip_space s3 = d # s4" for k s1 c s2 v s3 d s4
  proof -
    have "length s3 < length (skip_space s2)" using scan_length [of "Suc n"] that(3) by blast
    with val(2) [OF that(1,2)] skip_space_length [of s2] skip_space_shorter [OF that(4)] skip_space_length [of s4] assms(3)
    show ?thesis by (intro assms(2)) simp
  qed
  show ?thesis
    unfolding scan_members.simps(2) [of n s] scan_members.simps(2) [of "Suc n" s]
    by (auto intro!: bind_sum_cong simp: Cons val tail split: list.split)
qed (simp add: scan_members.simps)

lemma scan_more:
  "(\<forall>s. 2 * length s < n \<longrightarrow> scan_value n s = scan_value (Suc n) s) \<and>
   (\<forall>s. 2 * length s + 1 < n \<longrightarrow> scan_elems n s = scan_elems (Suc n) s) \<and>
   (\<forall>s. 2 * length s + 1 < n \<longrightarrow> scan_members n s = scan_members (Suc n) s)"
proof (induction n)
  case (Suc n)
  then show ?case using scan_value_more [of n] scan_elems_more [of n] scan_members_more [of n] by blast
qed simp

text \<open>A larger bound gives the same result.\<close>

lemma scan_value_enough: "2 * length s < n \<Longrightarrow> n \<le> m \<Longrightarrow> scan_value m s = scan_value n s"
proof (induction m)
  case (Suc m)
  then show ?case using scan_more [of m] by (cases "n = Suc m") auto
qed simp

context separators
begin

lemma loads_dumps:
  assumes "storable fs v"
  shows "json_loads (dumps fs v) = Inr v"
proof -
  let ?s = "dumps fs v" and ?n = "3 * length (dumps fs v) + 2"
  have s: "skip_space ?s = ?s" using skip_pad_dumps [OF assms, of "[]" "[]"] by simp
  have "scan_value (max ?n (Suc (size v))) ?s = Inr (v, [])"
    using value_reads_back [OF assms] unfolding reads_back_def
    by (metis append_Nil2 ends_number_simps(1) less_max_iff_disj lessI)
  with scan_value_enough [of ?s ?n "max ?n (Suc (size v))"] have "scan_value ?n ?s = Inr (v, [])" by simp
  with s show ?thesis by (simp add: json_loads_def skip_space_def)
qed

end

interpretation compact: separators "'',''" "'':''" "[]" "[]"
  by unfold_locales simp_all

interpretation spaced: separators "'', ''" "'': ''" "'' ''" "'' ''"
  by unfold_locales (simp_all add: json_space_def)

end
