(* ===== verification/Logging.thy ===== *)
theory Logging
  imports Observability JsonLoads
begin

text \<open>
  The logging half of \<open>observability.py\<close> and \<open>tracing.py\<close>.

  The state is what the standard library's \<open>logging\<close> keeps for the logger \<open>bass\<close>: its level, the
  formatter of its handler if \<open>configure_logging\<close> was called, the trace id of the context, and the
  lines written to standard error.  Loggers below \<open>bass\<close> have no level of their own.
\<close>

section \<open>Levels\<close>

text \<open>\<open>logging._nameToLevel\<close>.\<close>

definition level_of_name :: "string \<rightharpoonup> int" where
  "level_of_name = map_of [(''CRITICAL'', 50), (''FATAL'', 50), (''ERROR'', 40), (''WARN'', 30), (''WARNING'', 30),
     (''INFO'', 20), (''DEBUG'', 10), (''NOTSET'', 0)]"

text \<open>The methods of \<open>BoundLogger\<close>.\<close>

datatype severity = Debug | Info | Warning | Error

fun level_no :: "severity \<Rightarrow> int" where
  "level_no Debug = 10"
| "level_no Info = 20"
| "level_no Warning = 30"
| "level_no Error = 40"

fun level_name :: "severity \<Rightarrow> string" where
  "level_name Debug = ''DEBUG''"
| "level_name Info = ''INFO''"
| "level_name Warning = ''WARNING''"
| "level_name Error = ''ERROR''"

section \<open>The logger \<open>bass\<close>\<close>

record Logging =
  lg_level :: int
  lg_handler :: "bool option" \<comment> \<open>the formatter: \<open>Some True\<close> for JSON, \<open>Some False\<close> for plain text\<close>
  lg_trace_id :: string
  lg_stderr :: "string list"

definition new_logging :: Logging where
  "new_logging = \<lparr>lg_level = 0, lg_handler = None, lg_trace_id = ''-'', lg_stderr = []\<rparr>"

definition set_trace_id :: "string \<Rightarrow> Logging \<Rightarrow> Logging" where
  "set_trace_id t st = st\<lparr>lg_trace_id := t\<rparr>"

text \<open>\<open>setLevel\<close> raises before anything is changed.\<close>

definition configure_logging :: "string \<Rightarrow> bool \<Rightarrow> (exn, Logging, unit) comp" where
  "configure_logging level as_json = (\<lambda>st. case level_of_name level of
      None \<Rightarrow> (Inl (Exn ValueError (''Unknown level: '' @ repr_str level)), st)
    | Some n \<Rightarrow> (Inr (), st\<lparr>lg_level := n, lg_handler := Some as_json\<rparr>))"

text \<open>\<open>getEffectiveLevel\<close>: without a level of its own a logger has the level of the root logger, \<open>WARNING\<close>.\<close>

definition effective_level :: "Logging \<Rightarrow> int" where
  "effective_level st = (if lg_level st = 0 then 30 else lg_level st)"

definition plain_line :: "LogRecord \<Rightarrow> string" where
  "plain_line record = lr_level record @ '' '' @ lr_logger record @ '' '' @ lr_message record"

text \<open>What the handlers write for a record.  Without one, the handler of last resort writes the bare message of
  warnings and errors.\<close>

definition handled :: "env \<Rightarrow> Logging \<Rightarrow> severity \<Rightarrow> LogRecord \<Rightarrow> string list" where
  "handled E st sev record = (case lg_handler st of
      Some True \<Rightarrow> [format_record E (lg_trace_id st) record]
    | Some False \<Rightarrow> [plain_line record]
    | None \<Rightarrow> if level_no sev < 30 then [] else [lr_message record])"

text \<open>\<open>get_logger(name)\<close>: the name of the logger behind a \<open>BoundLogger\<close>.\<close>

definition get_logger :: "string \<Rightarrow> string" where
  "get_logger name = ''bass.'' @ name"

text \<open>\<open>BoundLogger._log\<close> behind \<open>debug\<close>, \<open>info\<close>, \<open>warning\<close> and \<open>error\<close>.  A field named as a parameter of these
  methods does not reach them.\<close>

definition bound_log ::
  "env \<Rightarrow> string \<Rightarrow> string \<Rightarrow> severity \<Rightarrow> string \<Rightarrow> pydict \<Rightarrow> (exn, Logging, unit) comp" where
  "bound_log E now logger sev msg extra = (\<lambda>st.
     if \<exists>k\<in>set (map fst extra). k \<in> {''self'', ''level'', ''msg''}
     then (Inl (Exn TypeError ''got multiple values for an argument''), st)
     else if level_no sev < effective_level st then (Inr (), st)
     else (Inr (), st\<lparr>lg_stderr := lg_stderr st @ handled E st sev
            \<lparr>lr_time = now, lr_level = level_name sev, lr_logger = logger, lr_message = msg, lr_fields = extra,
             lr_exc = None\<rparr>\<rparr>))"

section \<open>Spans\<close>

text \<open>The attributes \<open>span\<close> sets: the ones that are given, under \<open>bass.\<close>; nothing without OpenTelemetry.\<close>

definition span_attributes :: "bool \<Rightarrow> pydict \<Rightarrow> pydict" where
  "span_attributes have_otel attrs =
     (if have_otel then map (\<lambda>(k, v). (''bass.'' @ k, v)) (filter (\<lambda>(k, v). v \<noteq> PNone) attrs) else [])"

lemma span_attributes_lookup:
  "map_of (span_attributes True attrs) (''bass.'' @ k) = map_of (filter (\<lambda>(k, v). v \<noteq> PNone) attrs) k"
  by (induction attrs) (auto simp: span_attributes_def)

section \<open>The text of a record is one line of ASCII\<close>

definition printable :: "string \<Rightarrow> bool" where
  "printable s \<longleftrightarrow> (\<forall>c\<in>set s. 32 \<le> (of_char c :: nat) \<and> (of_char c :: nat) < 127)"

lemma printable_simps [simp]:
  "printable []" "printable (c # s) \<longleftrightarrow> (32 \<le> (of_char c :: nat) \<and> (of_char c :: nat) < 127) \<and> printable s"
  "printable (s @ t) \<longleftrightarrow> printable s \<and> printable t"
  by (auto simp: printable_def)

lemma printable_hex: "d < 16 \<Longrightarrow> printable [hex_digit d]"
  by (simp add: hex_digit_def)

lemma printable_json_char: "printable (json_char c)"
proof -
  have "(of_char c :: nat) < 256" by simp
  then have "(of_char c :: nat) div 16 < 16" by linarith
  from printable_hex [OF this] printable_hex [of "of_char c mod 16"] show ?thesis
    by (auto simp: json_char_def Let_def)
qed

lemma printable_json_string: "printable (json_string s)"
  by (induction s) (simp_all add: json_string_def printable_json_char)

lemma printable_join: "printable sep \<Longrightarrow> \<forall>x\<in>set xs. printable x \<Longrightarrow> printable (join sep xs)"
  by (induction sep xs rule: join.induct) auto

lemma printable_int_str: "printable (int_str i)"
  using nat_str_digits [of "nat \<bar>i\<bar>"] by (fastforce simp: int_str_def printable_def is_digit_def)

lemma printable_number: "list_all number_char s \<Longrightarrow> printable s"
  by (auto simp: printable_def list_all_iff number_char_def is_digit_def)

lemma printable_dumps:
  assumes "printable isep" and "printable ksep"
  shows "storable fs v \<Longrightarrow> printable (json_dumps fs isep ksep sorted_keys v)"
proof (induction v)
  case (PFloat f)
  then show ?case
    by (cases f) (auto simp: json_float_def intro: printable_number dest: scan_number_chars(1))
next
  case (PList vs)
  then show ?case by (simp add: printable_join assms(1))
next
  case (PDict d)
  then have "printable (json_dumps fs isep ksep sorted_keys v)" if "(k, v) \<in> set d" for k v
    using that by (auto simp: snds.simps)
  then show ?case
    by (auto simp: Let_def printable_json_string assms(2) intro!: printable_join assms(1))
qed (simp_all add: printable_json_string printable_int_str)

section \<open>What a line says\<close>

lemma payload_update:
  "distinct (map fst base) \<Longrightarrow> distinct (map fst (foldl (\<lambda>d (k, v). AList.update k v d) base extra))"
  "k \<notin> fst ` set extra \<Longrightarrow> map_of (foldl (\<lambda>d (k, v). AList.update k v d) base extra) k = map_of base k"
  by (induction extra arbitrary: base) (auto simp: distinct_update split: prod.splits)

lemma payload_storable:
  "\<forall>kv\<in>set base. storable fs (snd kv) \<Longrightarrow> \<forall>kv\<in>set extra. storable fs (snd kv) \<Longrightarrow>
     \<forall>kv\<in>set (foldl (\<lambda>d (k, v). AList.update k v d) base extra). storable fs (snd kv)"
proof (induction extra arbitrary: base)
  case (Cons kv extra)
  obtain k v where kv: "kv = (k, v)" by (cases kv)
  have "\<forall>kv\<in>set (AList.update k v base). storable fs (snd kv)"
    using Cons(2,3) kv by (induction base) auto
  with Cons kv show ?case by simp
qed simp

lemma payload_field:
  "distinct (map fst extra) \<Longrightarrow> (k, v) \<in> set extra \<Longrightarrow> map_of (foldl (\<lambda>d (k, v). AList.update k v d) base extra) k = Some v"
proof (induction extra arbitrary: base)
  case (Cons kv extra)
  then show ?case
    by (cases kv) (auto simp: payload_update(2) update_conv' intro: rev_image_eqI)
qed simp

section \<open>Properties\<close>

text \<open>C38: a log line is one line.  With the JSON formatter, a call of an enabled logger either has a field named as a
  parameter of the method (\<open>self\<close>, \<open>level\<close>, \<open>msg\<close>), which is a \<open>TypeError\<close> and writes nothing, or it writes one line of
  printable ASCII, whatever the message, the trace id and the texts in the fields contain (line breaks and quotes of
  untrusted input included).  \<open>json.loads\<close> reads that line back to an object with that message, that severity, every field
  of the call and, unless a field has that name, the trace id of the run.  The fields are JSON values: dictionaries have
  distinct keys, and the text of a finite float denotes it.\<close>

theorem log_line_is_one_object:
  assumes "lg_handler st = Some True" and "effective_level st \<le> level_no sev"
    and "storable (float_str E) (PDict extra)"
  shows "if \<exists>k\<in>set (map fst extra). k \<in> {''self'', ''level'', ''msg''}
    then \<exists>m. bound_log E now logger sev msg extra st = (Inl (Exn TypeError m), st)
    else \<exists>line d. bound_log E now logger sev msg extra st = (Inr (), st\<lparr>lg_stderr := lg_stderr st @ [line]\<rparr>) \<and>
      printable line \<and> json_loads line = Inr (PDict d) \<and> map_of d ''msg'' = Some (PStr msg) \<and>
      map_of d ''level'' = Some (PStr (level_name sev)) \<and> (\<forall>(k, v)\<in>set extra. map_of d k = Some v) \<and>
      (''trace_id'' \<notin> fst ` set extra \<longrightarrow> map_of d ''trace_id'' = Some (PStr (lg_trace_id st)))"
proof (cases "\<exists>k\<in>set (map fst extra). k \<in> {''self'', ''level'', ''msg''}")
  case True
  then have "bound_log E now logger sev msg extra st = (Inl (Exn TypeError ''got multiple values for an argument''), st)"
    unfolding bound_log_def by (rule if_P)
  with True show ?thesis by (metis (no_types, lifting))
next
  case names: False
  let ?r = "\<lparr>lr_time = now, lr_level = level_name sev, lr_logger = logger, lr_message = msg, lr_fields = extra, lr_exc = None\<rparr>"
  let ?base = "[(''ts'', PStr now), (''level'', PStr (level_name sev)), (''logger'', PStr logger),
     (''trace_id'', PStr (lg_trace_id st)), (''msg'', PStr msg)]"
  let ?line = "format_record E (lg_trace_id st) ?r"
  define d where "d = log_payload (lg_trace_id st) ?r"
  have d: "d = foldl (\<lambda>d (k, v). AList.update k v d) ?base extra" by (simp add: d_def log_payload_def)
  have "\<forall>kv\<in>set d. storable (float_str E) (snd kv)" unfolding d by (rule payload_storable) (use assms(3) in simp_all)
  moreover have "distinct (map fst d)" unfolding d by (rule payload_update(1)) simp
  ultimately have st: "storable (float_str E) (PDict d)" by simp
  then have "json_loads ?line = Inr (PDict d)"
    unfolding format_record_def d_def by (rule spaced.loads_dumps)
  moreover have "printable ?line"
    unfolding format_record_def d_def [symmetric] by (rule printable_dumps [OF _ _ st]) simp_all
  moreover have "bound_log E now logger sev msg extra st = (Inr (), st\<lparr>lg_stderr := lg_stderr st @ [?line]\<rparr>)"
    using assms(1,2) names by (simp add: bound_log_def handled_def)
  moreover have "map_of d k = map_of ?base k" if "k \<notin> fst ` set extra" for k
    unfolding d by (rule payload_update(2) [OF that])
  moreover have "\<forall>(k, v)\<in>set extra. map_of d k = Some v"
    using payload_field [of extra] assms(3) unfolding d by auto
  moreover have "''msg'' \<notin> fst ` set extra" "''level'' \<notin> fst ` set extra" using names by auto
  ultimately show ?thesis unfolding if_not_P [OF names] by (intro exI [of _ ?line] exI [of _ d]) simp
qed

definition json_logging :: Logging where
  "json_logging = snd (configure_logging ''INFO'' True (set_trace_id ''run_1'' new_logging))"

definition half_env :: env where
  "half_env = \<lparr>wall = (\<lambda>n. 0), mono = (\<lambda>n. 0), uuid_hex = (\<lambda>n. ''0''), float_str = (\<lambda>q. ''0.5'')\<rparr>"

text \<open>The warning of \<open>connectors.py\<close> before a retry, whose delay is a float, for a connector whose name has a line
  break and a quote.\<close>

definition retry_fields :: pydict where
  "retry_fields = [(''connector'', PStr [CHR 0x0A, CHR 0x22]), (''attempt'', PInt 1), (''delay_s'', PFloat (Fin (1 / 2)))]"

lemma retry_fields_storable: "storable (float_str half_env) (PDict retry_fields)"
  by (simp add: half_env_def retry_fields_def delay_text)

theorem log_line_is_one_object_witness:
  "\<exists>line d. bound_log half_env ''2026-01-01T00:00:00'' (get_logger ''connectors'') Warning ''connector retry'' retry_fields
      json_logging = (Inr (), json_logging\<lparr>lg_stderr := [line]\<rparr>) \<and>
    printable line \<and> json_loads line = Inr (PDict d) \<and> map_of d ''msg'' = Some (PStr ''connector retry'') \<and>
    map_of d ''delay_s'' = Some (PFloat (Fin (1 / 2))) \<and> map_of d ''trace_id'' = Some (PStr ''run_1'')"
proof -
  have st: "lg_handler json_logging = Some True" "effective_level json_logging = 20" "lg_stderr json_logging = []"
    "lg_trace_id json_logging = ''run_1''"
    by (simp_all add: json_logging_def configure_logging_def level_of_name_def set_trace_id_def new_logging_def effective_level_def)
  have names: "\<not> (\<exists>k\<in>set (map fst retry_fields). k \<in> {''self'', ''level'', ''msg''})" by (simp add: retry_fields_def)
  have "effective_level json_logging \<le> level_no Warning" using st(2) by simp
  from log_line_is_one_object [OF st(1) this retry_fields_storable, of "''2026-01-01T00:00:00''" "get_logger ''connectors''"
      "''connector retry''"] names st(3,4)
  show ?thesis by (auto simp: retry_fields_def)
qed

text \<open>A process that does not call \<open>configure_logging\<close>, as the API server, the runner and the migrations do not, writes
  no informational line and the bare message of a warning, without the fields and the trace id.\<close>

lemma unconfigured_logs_bare:
  assumes "lg_handler st = None" and "lg_level st = 0"
    and "\<forall>k\<in>set (map fst extra). k \<notin> {''self'', ''level'', ''msg''}"
  shows "bound_log E now logger sev msg extra st =
    (Inr (), st\<lparr>lg_stderr := lg_stderr st @ (if sev \<in> {Warning, Error} then [msg] else [])\<rparr>)"
  using assms by (cases sev) (auto simp: bound_log_def handled_def effective_level_def)

end
