(* ===== verification/Cron.thy ===== *)
theory Cron
  imports PyStrings
begin

text \<open>
  The cron matcher of \<open>schedule.py\<close>: \<open>_parse_field\<close> and \<open>cron_matches\<close>, and a reference
  semantics of cron expressions that they implement.  A field of an expression is parsed
  only when the fields before it match, so a later field with an error need not raise.
\<close>

section \<open>Ranges and dates\<close>

text \<open>The values of \<open>range(start, stop, step)\<close>.\<close>

definition range_length :: "int \<Rightarrow> int \<Rightarrow> int \<Rightarrow> nat" where
  "range_length start stop step =
     (if 0 < step then (if start < stop then nat ((stop - start - 1) div step + 1) else 0)
      else (if stop < start then nat ((start - stop - 1) div (- step) + 1) else 0))"

definition py_range :: "int \<Rightarrow> int \<Rightarrow> int \<Rightarrow> exn + int list" where
  "py_range start stop step =
     (if step = 0 then Inl (Exn ValueError ''range() arg 3 must not be zero'')
      else Inr (map (\<lambda>k. start + int k * step) [0..<range_length start stop step]))"

record datetime =
  dt_year :: int
  dt_month :: int
  dt_day :: int
  dt_hour :: int
  dt_minute :: int

definition is_leap :: "int \<Rightarrow> bool" where
  "is_leap y \<longleftrightarrow> y mod 4 = 0 \<and> (y mod 100 \<noteq> 0 \<or> y mod 400 = 0)"

definition days_before_month :: "int \<Rightarrow> int \<Rightarrow> int" where
  "days_before_month y m =
     [0, 31, 59, 90, 120, 151, 181, 212, 243, 273, 304, 334] ! nat (m - 1) + (if 2 < m \<and> is_leap y then 1 else 0)"

text \<open>\<open>toordinal\<close> and \<open>weekday\<close> of the proleptic Gregorian calendar, Monday being 0.\<close>

definition to_ordinal :: "datetime \<Rightarrow> int" where
  "to_ordinal dt = (let y = dt_year dt - 1 in
     y * 365 + y div 4 - y div 100 + y div 400 + days_before_month (dt_year dt) (dt_month dt) + dt_day dt)"

definition weekday :: "datetime \<Rightarrow> int" where
  "weekday dt = (to_ordinal dt + 6) mod 7"

section \<open>The matcher\<close>

definition parse_range :: "int \<Rightarrow> int \<Rightarrow> string \<Rightarrow> exn + int \<times> int" where
  "parse_range lo hi rng =
     (if rng = ''*'' then Inr (lo, hi)
      else if CHR ''-'' \<in> set rng
      then (case split1 (CHR ''-'') rng of (a, b) \<Rightarrow>
             (case py_int a of Inl e \<Rightarrow> Inl e | Inr start \<Rightarrow>
               (case py_int b of Inl e \<Rightarrow> Inl e | Inr stop \<Rightarrow> Inr (start, stop))))
      else (case py_int rng of Inl e \<Rightarrow> Inl e | Inr v \<Rightarrow> Inr (v, v)))"

definition parse_part :: "int \<Rightarrow> int \<Rightarrow> string \<Rightarrow> exn + int list" where
  "parse_part lo hi part =
     (case (if CHR ''/'' \<in> set part
            then (case split1 (CHR ''/'') part of (rng, step_s) \<Rightarrow>
                   (case py_int step_s of Inl e \<Rightarrow> Inl e | Inr step \<Rightarrow> Inr (rng, step)))
            else Inr (part, 1)) of
        Inl e \<Rightarrow> Inl e
      | Inr (rng, step) \<Rightarrow>
          (case parse_range lo hi rng of
             Inl e \<Rightarrow> Inl e
           | Inr (start, stop) \<Rightarrow> py_range start (stop + 1) step))"

fun parse_parts :: "int \<Rightarrow> int \<Rightarrow> string list \<Rightarrow> exn + int set" where
  "parse_parts lo hi [] = Inr {}"
| "parse_parts lo hi (part # parts) =
     (case parse_part lo hi part of
        Inl e \<Rightarrow> Inl e
      | Inr vs \<Rightarrow>
          (case parse_parts lo hi parts of
             Inl e \<Rightarrow> Inl e
           | Inr rest \<Rightarrow> Inr (set (filter (\<lambda>v. lo \<le> v \<and> v \<le> hi) vs) \<union> rest)))"

definition parse_field :: "string \<Rightarrow> int \<Rightarrow> int \<Rightarrow> exn + int set" where
  "parse_field field_expr lo hi = parse_parts lo hi (py_split (CHR '','') field_expr)"

text \<open>\<open>if v not in _parse_field(...): return False\<close>, and else the rest.\<close>

definition guard_field :: "int \<Rightarrow> string \<Rightarrow> int \<Rightarrow> int \<Rightarrow> exn + bool \<Rightarrow> exn + bool" where
  "guard_field v field_expr lo hi rest =
     (case parse_field field_expr lo hi of
        Inl e \<Rightarrow> Inl e
      | Inr vs \<Rightarrow> if v \<in> vs then rest else Inr False)"

definition match_days :: "string \<Rightarrow> string \<Rightarrow> datetime \<Rightarrow> exn + bool" where
  "match_days dom_f dow_f dt =
     (case parse_field dom_f 1 31 of Inl e \<Rightarrow> Inl e | Inr doms \<Rightarrow>
       (case parse_field dow_f 0 6 of Inl e \<Rightarrow> Inl e | Inr dows \<Rightarrow>
          let cron_dow = (weekday dt + 1) mod 7; dom_ok = (dt_day dt \<in> doms); dow_ok = (cron_dow \<in> dows);
              dom_restricted = (py_strip dom_f \<noteq> ''*''); dow_restricted = (py_strip dow_f \<noteq> ''*'') in
          Inr (if dom_restricted \<and> dow_restricted then dom_ok \<or> dow_ok
               else if dom_restricted then dom_ok
               else if dow_restricted then dow_ok
               else True)))"

definition cron_matches :: "string \<Rightarrow> datetime \<Rightarrow> exn + bool" where
  "cron_matches expr dt =
     (case py_words expr of
        [minute, hour, dom_f, month, dow_f] \<Rightarrow>
          guard_field (dt_minute dt) minute 0 59
         (guard_field (dt_hour dt) hour 0 23
         (guard_field (dt_month dt) month 1 12
         (match_days dom_f dow_f dt)))
      | _ \<Rightarrow> Inl (Exn ValueError (''cron expression must have 5 fields: '' @ repr_str expr)))"

section \<open>Reference semantics\<close>

text \<open>A field is a list of items; an item is a range with a step.\<close>

datatype cron_range = Star | Lit nat | Span nat nat

type_synonym cron_item = "cron_range \<times> nat option"

fun show_range :: "cron_range \<Rightarrow> string" where
  "show_range Star = ''*''"
| "show_range (Lit n) = nat_str n"
| "show_range (Span a b) = nat_str a @ ''-'' @ nat_str b"

fun show_item :: "cron_item \<Rightarrow> string" where
  "show_item (r, None) = show_range r"
| "show_item (r, Some n) = show_range r @ ''/'' @ nat_str n"

definition show_field :: "cron_item list \<Rightarrow> string" where
  "show_field items = join '','' (map show_item items)"

fun first_last :: "int \<Rightarrow> int \<Rightarrow> cron_range \<Rightarrow> int \<times> int" where
  "first_last lo hi Star = (lo, hi)"
| "first_last lo hi (Lit n) = (int n, int n)"
| "first_last lo hi (Span a b) = (int a, int b)"

text \<open>Every \<open>n\<close>-th value of the range, counted from its start, that is a value of the field.\<close>

fun item_has :: "int \<Rightarrow> int \<Rightarrow> cron_item \<Rightarrow> int \<Rightarrow> bool" where
  "item_has lo hi (r, step) v =
     (case first_last lo hi r of (start, stop) \<Rightarrow>
        lo \<le> v \<and> v \<le> hi \<and> start \<le> v \<and> v \<le> stop \<and>
        (v - start) mod (case step of None \<Rightarrow> 1 | Some n \<Rightarrow> int n) = 0)"

definition field_has :: "int \<Rightarrow> int \<Rightarrow> cron_item list \<Rightarrow> int \<Rightarrow> bool" where
  "field_has lo hi items v \<longleftrightarrow> (\<exists>it\<in>set items. item_has lo hi it v)"

definition any_day :: "cron_item list \<Rightarrow> bool" where
  "any_day items \<longleftrightarrow> items = [(Star, None)]"

text \<open>The five fields of a schedule; if both day fields are restricted, either may match.\<close>

definition schedule_has ::
  "cron_item list \<Rightarrow> cron_item list \<Rightarrow> cron_item list \<Rightarrow> cron_item list \<Rightarrow> cron_item list \<Rightarrow> datetime \<Rightarrow> bool" where
  "schedule_has mi h dom_f mo dow_f dt \<longleftrightarrow>
     field_has 0 59 mi (dt_minute dt) \<and> field_has 0 23 h (dt_hour dt) \<and> field_has 1 12 mo (dt_month dt) \<and>
     (let dom_ok = field_has 1 31 dom_f (dt_day dt); dow_ok = field_has 0 6 dow_f ((weekday dt + 1) mod 7) in
      if any_day dom_f \<and> any_day dow_f then True
      else if any_day dom_f then dow_ok
      else if any_day dow_f then dom_ok
      else dom_ok \<or> dow_ok)"

definition steps_positive :: "cron_item list \<Rightarrow> bool" where
  "steps_positive items \<longleftrightarrow> items \<noteq> [] \<and> (\<forall>it\<in>set items. snd it \<noteq> Some 0)"

section \<open>Parsing what the reference prints\<close>

lemma nat_str_notin [simp]:
  "CHR ''-'' \<notin> set (nat_str n)" "CHR ''/'' \<notin> set (nat_str n)" "CHR '','' \<notin> set (nat_str n)" "CHR ''*'' \<notin> set (nat_str n)"
  using nat_str_free is_digit_not_special by blast+

lemma nat_str_not_star [simp]: "nat_str n \<noteq> ''*''"
  by (metis list.set_intros(1) nat_str_notin(4))

lemma show_range_free: "CHR ''/'' \<notin> set (show_range r)" "CHR '','' \<notin> set (show_range r)"
  by (cases r; simp)+

lemma not_space: "\<not> py_space (CHR ''*'')" "\<not> py_space (CHR ''-'')" "\<not> py_space (CHR ''/'')" "\<not> py_space (CHR '','')"
    "c \<in> set (nat_str n) \<Longrightarrow> \<not> py_space c"
  using nat_str_free is_digit_not_special by (simp_all add: py_space_def)

lemma parse_range_show: "parse_range lo hi (show_range r) = Inr (first_last lo hi r)"
proof (cases r)
  case (Span a b)
  have "nat_str a @ ''-'' @ nat_str b \<noteq> ''*''" by (cases "nat_str a") auto
  with Span split1_append [of "CHR ''-''" "nat_str a" "nat_str b"] show ?thesis by (simp add: parse_range_def)
qed (simp_all add: parse_range_def)

lemma parse_part_show:
  "parse_part lo hi (show_item (r, step)) =
     (case first_last lo hi r of (start, stop) \<Rightarrow>
        py_range start (stop + 1) (case step of None \<Rightarrow> 1 | Some n \<Rightarrow> int n))"
proof (cases step)
  case None
  then show ?thesis by (simp add: parse_part_def show_range_free parse_range_show split: prod.splits)
next
  case (Some n)
  with split1_append [of "CHR ''/''" "show_range r" "nat_str n"] show_range_free(1) [of r]
  show ?thesis by (simp add: parse_part_def parse_range_show split: prod.splits)
qed

lemma range_values:
  assumes "0 < step"
  shows "set (map (\<lambda>k. start + int k * step) [0..<range_length start (stop + 1) step]) =
    {v. start \<le> v \<and> v \<le> stop \<and> (v - start) mod step = 0}"
proof (intro set_eqI iffI CollectI)
  fix v
  assume "v \<in> set (map (\<lambda>k. start + int k * step) [0..<range_length start (stop + 1) step])"
  then obtain k where k: "v = start + int k * step" "k < range_length start (stop + 1) step" by force
  have "start \<le> stop" using k(2) assms by (simp add: range_length_def split: if_splits)
  with k(2) assms have "int k < (stop - start) div step + 1"
    by (simp add: range_length_def pos_imp_zdiv_nonneg_iff)
  then have "int k * step \<le> (stop - start) div step * step"
    using assms by (intro mult_right_mono) auto
  also have "\<dots> \<le> stop - start"
    using assms by (metis add.commute le_add_same_cancel1 div_mult_mod_eq pos_mod_sign add_le_cancel_left add_increasing2 order_refl)
  finally show "start \<le> v \<and> v \<le> stop \<and> (v - start) mod step = 0"
    using k(1) assms by simp
next
  fix v
  assume "v \<in> {v. start \<le> v \<and> v \<le> stop \<and> (v - start) mod step = 0}"
  then have v: "start \<le> v" "v \<le> stop" "(v - start) mod step = 0" by auto
  let ?k = "(v - start) div step"
  have "v = start + ?k * step" using v(3) by (metis add.commute diff_add_cancel div_mult_mod_eq add_0)
  moreover have "0 \<le> ?k" using v(1) assms by (simp add: pos_imp_zdiv_nonneg_iff)
  moreover have "?k \<le> (stop - start) div step" using v assms by (intro zdiv_mono1) auto
  ultimately have "v = start + int (nat ?k) * step" "nat ?k < range_length start (stop + 1) step"
    using v(1,2) assms by (auto simp: range_length_def)
  then show "v \<in> set (map (\<lambda>k. start + int k * step) [0..<range_length start (stop + 1) step])"
    by force
qed

lemma show_item_free: "CHR '','' \<notin> set (show_item it)" "c \<in> set (show_item it) \<Longrightarrow> \<not> py_space c" "show_item it \<noteq> []"
proof -
  obtain r step where it: "it = (r, step)" by (cases it)
  show "CHR '','' \<notin> set (show_item it)" by (cases step) (simp_all add: it show_range_free)
  have "\<not> py_space c" if "c \<in> set (show_range r)"
    using that not_space by (cases r) auto
  then show "c \<in> set (show_item it) \<Longrightarrow> \<not> py_space c" using not_space by (cases step) (auto simp: it)
  have "show_range r \<noteq> []" by (cases r) simp_all
  then show "show_item it \<noteq> []" by (cases step) (simp_all add: it)
qed

lemma parse_item:
  assumes "snd it \<noteq> Some 0"
  shows "\<exists>vs. parse_part lo hi (show_item it) = Inr vs \<and> set (filter (\<lambda>v. lo \<le> v \<and> v \<le> hi) vs) = {v. item_has lo hi it v}"
proof -
  obtain r step where it: "it = (r, step)" by (cases it)
  obtain start stop where fl: "first_last lo hi r = (start, stop)" by fastforce
  let ?n = "case step of None \<Rightarrow> 1 | Some n \<Rightarrow> int n"
  have n: "0 < ?n" using assms it by (auto split: option.splits)
  have "parse_part lo hi (show_item it) =
      Inr (map (\<lambda>k. start + int k * ?n) [0..<range_length start (stop + 1) ?n])"
    using n parse_part_show [of lo hi r step] by (simp add: it fl py_range_def)
  moreover have "set (filter (\<lambda>v. lo \<le> v \<and> v \<le> hi) (map (\<lambda>k. start + int k * ?n) [0..<range_length start (stop + 1) ?n])) =
      {v. item_has lo hi it v}"
    using range_values [OF n, of start stop] unfolding set_filter by (auto simp: it fl)
  ultimately show ?thesis by blast
qed

lemma parse_parts_show:
  "\<forall>it\<in>set items. snd it \<noteq> Some 0 \<Longrightarrow>
     parse_parts lo hi (map show_item items) = Inr {v. field_has lo hi items v}"
proof (induction items)
  case (Cons it items)
  obtain vs where "parse_part lo hi (show_item it) = Inr vs"
      "set (filter (\<lambda>v. lo \<le> v \<and> v \<le> hi) vs) = {v. item_has lo hi it v}"
    using parse_item [of it lo hi] Cons.prems by fastforce
  with Cons show ?case by (auto simp: field_has_def)
qed (simp add: field_has_def)

lemma parse_field_show:
  assumes "steps_positive items"
  shows "parse_field (show_field items) lo hi = Inr {v. field_has lo hi items v}"
proof -
  have "py_split (CHR '','') (show_field items) = map show_item items"
    unfolding show_field_def using assms show_item_free(1) by (intro py_split_join) (auto simp: steps_positive_def)
  with assms parse_parts_show [of items lo hi] show ?thesis by (simp add: parse_field_def steps_positive_def)
qed

lemma join_chars: "c \<in> set (join sep ws) \<Longrightarrow> c \<in> set sep \<or> (\<exists>w\<in>set ws. c \<in> set w)"
  by (induction sep ws rule: join.induct) auto

lemma show_field_word:
  assumes "steps_positive items"
  shows "show_field items \<noteq> []" "c \<in> set (show_field items) \<Longrightarrow> \<not> py_space c"
proof -
  obtain it its where "items = it # its" using assms by (cases items) (auto simp: steps_positive_def)
  then show "show_field items \<noteq> []" using show_item_free(3) [of it] by (cases its) (simp_all add: show_field_def)
  show "c \<in> set (show_field items) \<Longrightarrow> \<not> py_space c"
    unfolding show_field_def using show_item_free(2) not_space(4) by (auto dest!: join_chars)
qed

lemma show_item_star: "show_item it = ''*'' \<longleftrightarrow> it = (Star, None)"
proof -
  obtain r step where it: "it = (r, step)" by (cases it)
  have two: "xs @ c # s \<noteq> [d]" if "c \<noteq> d" for xs s :: string and c d
    using that by (cases xs) auto
  have "nat_str a @ CHR ''-'' # s \<noteq> ''*''" "show_range r @ CHR ''/'' # s \<noteq> ''*''" for a s
    by (rule two, simp)+
  then show ?thesis by (cases r; cases step) (simp_all add: it)
qed

lemma show_field_star:
  assumes "steps_positive items"
  shows "py_strip (show_field items) = ''*'' \<longleftrightarrow> any_day items"
proof -
  have "py_strip (show_field items) = show_field items"
    using show_field_word(2) [OF assms] by (intro py_strip_id) blast
  moreover have "show_field items = ''*'' \<longleftrightarrow> items = [(Star, None)]"
  proof
    assume star: "show_field items = ''*''"
    then have "py_split (CHR '','') (show_field items) = [''*'']" by simp
    moreover have "py_split (CHR '','') (show_field items) = map show_item items"
      unfolding show_field_def using assms show_item_free(1) by (intro py_split_join) (auto simp: steps_positive_def)
    ultimately show "items = [(Star, None)]" using show_item_star by (auto simp: map_eq_Cons_conv)
  qed (simp add: show_field_def)
  ultimately show ?thesis by (simp add: any_day_def)
qed

lemma cron_matches_shown:
  assumes "steps_positive mi" "steps_positive h" "steps_positive d" "steps_positive mo" "steps_positive w"
  shows "cron_matches (join '' '' [show_field mi, show_field h, show_field d, show_field mo, show_field w]) dt =
    Inr (schedule_has mi h d mo w dt)"
proof -
  have "py_words (join '' '' [show_field mi, show_field h, show_field d, show_field mo, show_field w]) =
      [show_field mi, show_field h, show_field d, show_field mo, show_field w]"
    using assms show_field_word by (intro py_words_join) auto
  moreover have "match_days (show_field d) (show_field w) dt =
      Inr (let dom_ok = field_has 1 31 d (dt_day dt); dow_ok = field_has 0 6 w ((weekday dt + 1) mod 7) in
        if any_day d \<and> any_day w then True else if any_day d then dow_ok else if any_day w then dom_ok
        else dom_ok \<or> dow_ok)"
    using assms by (simp add: match_days_def parse_field_show show_field_star Let_def)
  ultimately show ?thesis
    using assms unfolding cron_matches_def schedule_has_def
    by (simp only: list.case guard_field_def parse_field_show sum.case mem_Collect_eq) auto
qed

section \<open>Properties\<close>

text \<open>C36: the cron matcher implements the reference semantics.  For an expression of five fields
  built of \<open>*\<close>, numbers, ranges, steps and lists of them, \<open>cron_matches\<close> does not raise and
  says whether the minute is one of the schedule, day of month and day of week combined by or
  when both are restricted.\<close>

theorem cron_matches_spec:
  assumes "steps_positive mi" "steps_positive h" "steps_positive d" "steps_positive mo" "steps_positive w"
  shows "cron_matches (join '' '' [show_field mi, show_field h, show_field d, show_field mo, show_field w]) dt =
    Inr (schedule_has mi h d mo w dt)"
  using assms by (rule cron_matches_shown)

theorem cron_matches_spec_witness:
  "cron_matches (join '' '' [show_field [(Star, Some 15)], show_field [(Span 9 17, None)], show_field [(Star, None)],
       show_field [(Star, None)], show_field [(Span 1 5, None)]])
     \<lparr>dt_year = 2024, dt_month = 7, dt_day = 1, dt_hour = 9, dt_minute = 30\<rparr> = Inr True"
  by (subst cron_matches_spec)
    (simp_all add: steps_positive_def schedule_has_def field_has_def any_day_def weekday_def to_ordinal_def
      days_before_month_def is_leap_def)

end
