(* ===== verification/Scheduler.thy ===== *)
theory Scheduler
  imports Cron Triggers
begin

text \<open>
  The scheduler of \<open>schedule.py\<close>: which schedules are due, the trigger event of a firing with
  its key for the minute, and \<open>tick\<close>, over any function that fires a trigger.  The year of
  a date has at least four digits, so that the slot has a fixed width.
\<close>

record Schedule =
  sch_tenant_id :: string
  sch_workflow_name :: string
  sch_cron :: string
  sch_enabled :: bool
  sch_id :: string

definition mk_schedule :: "env \<Rightarrow> nat \<Rightarrow> string \<Rightarrow> string \<Rightarrow> string \<Rightarrow> Schedule" where
  "mk_schedule E n tenant flow cron =
     \<lparr>sch_tenant_id = tenant, sch_workflow_name = flow, sch_cron = cron, sch_enabled = True, sch_id = new_id E n ''sched''\<rparr>"

fun due :: "Schedule list \<Rightarrow> datetime \<Rightarrow> exn + Schedule list" where
  "due [] now = Inr []"
| "due (s # schedules) now =
     (case (if sch_enabled s then cron_matches (sch_cron s) now else Inr False) of
        Inl e \<Rightarrow> Inl e
      | Inr b \<Rightarrow>
          (case due schedules now of
             Inl e \<Rightarrow> Inl e
           | Inr rest \<Rightarrow> Inr (if b then s # rest else rest)))"

text \<open>\<open>now.strftime("%Y-%m-%dT%H:%M")\<close>.\<close>

definition two_digits :: "int \<Rightarrow> string" where
  "two_digits i = pad_left 2 (CHR ''0'') (nat_str (nat i))"

definition slot :: "datetime \<Rightarrow> string" where
  "slot now = nat_str (nat (dt_year now)) @ ''-'' @ two_digits (dt_month now) @ ''-'' @ two_digits (dt_day now) @
     ''T'' @ two_digits (dt_hour now) @ '':'' @ two_digits (dt_minute now)"

definition slot_key :: "string \<Rightarrow> datetime \<Rightarrow> string" where
  "slot_key i now = ''sched:'' @ i @ '':'' @ slot now"

definition schedule_trigger :: "Schedule \<Rightarrow> datetime \<Rightarrow> pydict" where
  "schedule_trigger s now =
     [(''source'', PStr ''schedule''), (''schedule_id'', PStr (sch_id s)), (''fired_for'', PStr (slot now)),
      (''message_id'', PStr (slot_key (sch_id s) now))]"

definition tick :: "Schedule list \<Rightarrow> datetime \<Rightarrow> (Schedule \<Rightarrow> pydict \<Rightarrow> (exn, 's, 'r) comp) \<Rightarrow> (exn, 's, 'r list) comp" where
  "tick schedules now fire_fn =
     bindc (liftE (due schedules now)) (\<lambda>ss. mapc (\<lambda>s. fire_fn s (schedule_trigger s now)) ss)"

text \<open>Firing a schedule with the orchestrator of its tenant and the workflow of its name.\<close>

definition fire_schedule ::
  "env \<Rightarrow> 'd StoreOps \<Rightarrow> 'x engine \<Rightarrow> (string \<Rightarrow> Workflow) \<Rightarrow> Schedule \<Rightarrow> pydict \<Rightarrow> ('d, 'x, Run) eng" where
  "fire_schedule E S en flows s trig =
     fire E S en \<lparr>tn_name = sch_tenant_id s, tn_id = sch_tenant_id s, tn_settings = []\<rparr> (flows (sch_workflow_name s)) trig"

section \<open>Keys of slots\<close>

lemma schedule_key: "derive_idempotency_key E (schedule_trigger s now) = slot_key (sch_id s) now"
  by (simp add: derive_idempotency_key_def schedule_trigger_def dget_def Let_def py_str_def slot_key_def)

lemma nat_str_length: "n < 10 \<Longrightarrow> length (nat_str n) = 1" "10 \<le> n \<Longrightarrow> n < 100 \<Longrightarrow> length (nat_str n) = 2"
  by (simp_all add: nat_str.simps)

lemma year_length: "1000 \<le> y \<Longrightarrow> y < 10000 \<Longrightarrow> length (nat_str (nat y)) = 4"
proof -
  assume y: "1000 \<le> y" "y < 10000"
  let ?n = "nat y"
  have "\<not> ?n < 10" "\<not> ?n div 10 < 10" "\<not> ?n div 10 div 10 < 10" "?n div 10 div 10 div 10 < 10" using y by linarith+
  then show ?thesis
    by (simp add: nat_str.simps [of ?n] nat_str.simps [of "?n div 10"] nat_str.simps [of "?n div 10 div 10"]
        nat_str.simps [of "?n div 10 div 10 div 10"])
qed

lemma two_digits_length: "0 \<le> i \<Longrightarrow> i < 100 \<Longrightarrow> length (two_digits i) = 2"
  using nat_str_length(1,2) [of "nat i"] by (cases "nat i < 10") (auto simp: two_digits_def)

text \<open>A date with a year of four digits.\<close>

definition valid_dt :: "datetime \<Rightarrow> bool" where
  "valid_dt dt \<longleftrightarrow> 1000 \<le> dt_year dt \<and> dt_year dt < 10000 \<and> 1 \<le> dt_month dt \<and> dt_month dt \<le> 12 \<and>
     1 \<le> dt_day dt \<and> dt_day dt \<le> 31 \<and> 0 \<le> dt_hour dt \<and> dt_hour dt < 24 \<and> 0 \<le> dt_minute dt \<and> dt_minute dt < 60"

lemma two_digits_inj:
  assumes "two_digits i = two_digits j" "0 \<le> i" "i < 100" "0 \<le> j" "j < 100"
  shows "i = j"
proof -
  have val: "digits_val 0 False (two_digits k) = Some (nat k)" if "0 \<le> k" "k < 100" for k
  proof (cases "k < 10")
    case True
    have "is_digit (CHR ''0'')" "digit_val (CHR ''0'') = 0" by (simp_all add: is_digit_def digit_val_def)
    with True that nat_str_length(1) [of "nat k"] digits_val_nat_str [of True "nat k"] show ?thesis
      by (simp add: two_digits_def)
  next
    case False
    with that nat_str_length(2) [of "nat k"] digits_val_nat_str [of False "nat k"] show ?thesis
      by (simp add: two_digits_def)
  qed
  from val [of i] val [of j] assms show ?thesis by simp
qed

lemma slot_length: "valid_dt dt \<Longrightarrow> length (slot dt) = 16"
  by (simp add: slot_def valid_dt_def two_digits_length year_length)

lemma slot_inj:
  assumes "slot d = slot d'" "valid_dt d" "valid_dt d'"
  shows "d = d'"
proof -
  have y: "length (nat_str (nat (dt_year d))) = length (nat_str (nat (dt_year d')))"
    using assms(2,3) by (simp add: valid_dt_def year_length)
  have len: "length (two_digits (f d)) = length (two_digits (f d'))" if "f \<in> {dt_month, dt_day, dt_hour, dt_minute}" for f
    using that assms(2,3) by (auto simp: valid_dt_def two_digits_length)
  have "nat_str (nat (dt_year d)) = nat_str (nat (dt_year d'))" "two_digits (dt_month d) = two_digits (dt_month d')"
      "two_digits (dt_day d) = two_digits (dt_day d')" "two_digits (dt_hour d) = two_digits (dt_hour d')"
      "two_digits (dt_minute d) = two_digits (dt_minute d')"
    using assms(1) y len by (simp_all add: slot_def)
  then have "dt_year d = dt_year d'" "dt_month d = dt_month d'" "dt_day d = dt_day d'" "dt_hour d = dt_hour d'"
      "dt_minute d = dt_minute d'"
    using assms(2,3) two_digits_inj nat_str_inj by (force simp: valid_dt_def)+
  then show ?thesis by simp
qed

lemma slot_key_inj:
  assumes "slot_key i d = slot_key i' d'" "valid_dt d" "valid_dt d'"
  shows "i = i' \<and> d = d'"
proof -
  have "length (slot d) = length (slot d')" using slot_length assms(2,3) by simp
  with assms(1) have "i = i' \<and> slot d = slot d'" by (simp add: slot_key_def)
  with slot_inj assms(2,3) show ?thesis by blast
qed

section \<open>A slot is fired once\<close>

text \<open>The run of a schedule's slot exists.\<close>

definition slot_stored :: "tables \<Rightarrow> datetime \<Rightarrow> Schedule \<Rightarrow> bool" where
  "slot_stored tb now s \<longleftrightarrow> run_by_key (sch_tenant_id s) (slot_key (sch_id s) now) tb \<noteq> None"

lemma slot_stored_mono: "set (run_keys tb) \<subseteq> set (run_keys tb') \<Longrightarrow> slot_stored tb now s \<Longrightarrow> slot_stored tb' now s"
  unfolding slot_stored_def run_by_key_iff by blast

context store
begin

lemma fire_keys_grow:
  assumes "fire E S en tenant flow trig s = (r, s')"
  shows "set (run_keys (tabs (sy_store s))) \<subseteq> set (run_keys (tabs (sy_store s')))"
proof -
  have create: "set (run_keys (tabs d)) \<subseteq> set (run_keys (tabs d'))" if "op_create_or_get_run S run d = (rc, d')" for run d rc d'
    using create_or_get_run_law [OF that] by (auto simp: run_keys_def insert_run_def)
  from assms show ?thesis
  proof (cases rule: fire_cases)
    case (started run d s1)
    with create [OF started(1)] resume_run_keys [OF started(2)] show ?thesis by simp
  qed (use create in blast)+
qed

lemma fire_returns_stored:
  assumes "fire_schedule E S en flows x (schedule_trigger x now) s = (Inr run, s')"
  shows "slot_stored (tabs (sy_store s')) now x"
proof -
  have f: "fire E S en \<lparr>tn_name = sch_tenant_id x, tn_id = sch_tenant_id x, tn_settings = []\<rparr> (flows (sch_workflow_name x))
      (schedule_trigger x now) s = (Inr run, s')"
    using assms by (simp add: fire_schedule_def)
  have "op_create_or_get_run S (trigger_run E (sy_ids s) (sch_tenant_id x) (flows (sch_workflow_name x))
      (schedule_trigger x now)) (sy_store s) \<noteq> (Inl e, d)" for e d
    using f by (cases rule: fire_cases) auto
  with fire_stores_key [OF f] show ?thesis by (auto simp: slot_stored_def schedule_key)
qed

lemma tick_stores_slots:
  "mapc (\<lambda>x. fire_schedule E S en flows x (schedule_trigger x now)) ss s = (Inr runs, s') \<Longrightarrow>
     (\<forall>x\<in>set ss. slot_stored (tabs (sy_store s')) now x) \<and>
     set (run_keys (tabs (sy_store s))) \<subseteq> set (run_keys (tabs (sy_store s'))) \<and> length runs = length ss"
proof (induction ss arbitrary: s runs)
  case (Cons x ss)
  then obtain run s1 rest where x: "fire_schedule E S en flows x (schedule_trigger x now) s = (Inr run, s1)"
      and rest: "mapc (\<lambda>x. fire_schedule E S en flows x (schedule_trigger x now)) ss s1 = (Inr rest, s')" "runs = run # rest"
    by (auto simp: bindc_eq_Inr)
  from fire_keys_grow [OF x [unfolded fire_schedule_def]] fire_returns_stored [OF x] Cons.IH [OF rest(1)] rest(2)
  show ?case using slot_stored_mono by fastforce
qed simp

end

lemma tick_again:
  "\<forall>x\<in>set ss. slot_stored (sq_db (sy_store s)) now x \<Longrightarrow>
     \<exists>runs s'. mapc (\<lambda>x. fire_schedule E (sqlite_ops E) en flows x (schedule_trigger x now)) ss s = (Inr runs, s') \<and>
       length runs = length ss \<and> sq_db (sy_store s') = sq_db (sy_store s) \<and> sy_world s' = sy_world s"
proof (induction ss arbitrary: s)
  case (Cons x ss)
  obtain row where "run_by_key (sch_tenant_id x) (slot_key (sch_id x) now) (sq_db (sy_store s)) = Some row"
    using Cons.prems by (auto simp: slot_stored_def)
  then obtain run s1 where x: "fire_schedule E (sqlite_ops E) en flows x (schedule_trigger x now) s = (Inr run, s1)"
      "sq_db (sy_store s1) = sq_db (sy_store s)" "sy_world s1 = sy_world s"
    using fire_duplicate [of "\<lparr>tn_name = sch_tenant_id x, tn_id = sch_tenant_id x, tn_settings = []\<rparr>" E "schedule_trigger x now" s row
        en "flows (sch_workflow_name x)"]
    by (auto simp: fire_schedule_def schedule_key)
  with Cons.IH [of s1] Cons.prems obtain runs s2 where
    "mapc (\<lambda>x. fire_schedule E (sqlite_ops E) en flows x (schedule_trigger x now)) ss s1 = (Inr runs, s2)"
    "length runs = length ss" "sq_db (sy_store s2) = sq_db (sy_store s1)" "sy_world s2 = sy_world s1" by auto
  with x show ?case by (simp add: bindc_apply)
qed simp

section \<open>Properties\<close>

text \<open>C37: a slot is fired once.  After a tick for a minute has returned, another tick for the same
  minute, by this scheduler or by a replica over the same database, returns as many runs, changes
  no table and calls no tool, model or approver.\<close>

theorem tick_once_per_minute:
  assumes "tick schedules now (fire_schedule E (sqlite_ops E) en flows) s = (Inr runs, s1)"
    and "sy_store s2 = sy_store s1"
  shows "\<exists>runs' s3. tick schedules now (fire_schedule E (sqlite_ops E) en' flows') s2 = (Inr runs', s3) \<and>
    length runs' = length runs \<and> sq_db (sy_store s3) = sq_db (sy_store s2) \<and> sy_world s3 = sy_world s2"
proof -
  obtain ss where ss: "due schedules now = Inr ss"
      "mapc (\<lambda>x. fire_schedule E (sqlite_ops E) en flows x (schedule_trigger x now)) ss s = (Inr runs, s1)"
    using assms(1) by (auto simp: tick_def bindc_liftE split: sum.splits)
  have "\<forall>x\<in>set ss. slot_stored (sq_db (sy_store s2)) now x" "length runs = length ss"
    using sqlite.tick_stores_slots [OF ss(2)] assms(2) by auto
  with tick_again [of ss s2 now E en' flows'] ss(1) show ?thesis by (auto simp: tick_def bindc_liftE)
qed

definition nightly :: Schedule where
  "nightly = \<lparr>sch_tenant_id = ''acme'', sch_workflow_name = ''sign-off'',
     sch_cron = join '' '' [show_field [(Lit 0, None)], show_field [(Lit 2, None)], show_field [(Star, None)],
       show_field [(Star, None)], show_field [(Star, None)]], sch_enabled = True, sch_id = ''nightly''\<rparr>"

definition two_am :: datetime where
  "two_am = \<lparr>dt_year = 2024, dt_month = 7, dt_day = 1, dt_hour = 2, dt_minute = 0\<rparr>"

lemma nightly_due: "due [nightly] two_am = Inr [nightly]"
proof -
  have "cron_matches (sch_cron nightly) two_am = Inr (schedule_has [(Lit 0, None)] [(Lit 2, None)] [(Star, None)] [(Star, None)] [(Star, None)] two_am)"
    unfolding nightly_def Schedule.simps by (rule cron_matches_shown) (simp_all add: steps_positive_def)
  then show ?thesis
    by (simp add: nightly_def schedule_has_def field_has_def any_day_def two_am_def)
qed

lemma nightly_fires:
  "\<exists>run. fst (fire_schedule demo_env (sqlite_ops demo_env) (mock_engine (Some True)) (\<lambda>_. sign_off) nightly
     (schedule_trigger nightly two_am) demo_sys) = Inr run"
  by (simp add: fire_schedule_def fire_def register_workflow_def new_run_def on_store_apply
      create_or_get_run_def resume_def set_run_def demo sign_defs demo_sys_def fresh_sys_def trigger_run_def mk_run_def
      run_conflict_def run_row_def run_by_key_def new_sqlite_def empty_tables_def owns_def insert_run_def approval_row_def insert_approval_def
      terminal_def nightly_def)

theorem tick_once_per_minute_witness:
  "\<exists>runs' s3. tick [nightly] two_am (fire_schedule demo_env (sqlite_ops demo_env) (mock_engine (Some True)) (\<lambda>_. sign_off))
       (snd (tick [nightly] two_am (fire_schedule demo_env (sqlite_ops demo_env) (mock_engine (Some True)) (\<lambda>_. sign_off)) demo_sys)) =
       (Inr runs', s3) \<and> length runs' = 1"
proof -
  obtain run where "fst (fire_schedule demo_env (sqlite_ops demo_env) (mock_engine (Some True)) (\<lambda>_. sign_off) nightly
     (schedule_trigger nightly two_am) demo_sys) = Inr run" using nightly_fires by blast
  then have "fst (tick [nightly] two_am (fire_schedule demo_env (sqlite_ops demo_env) (mock_engine (Some True)) (\<lambda>_. sign_off)) demo_sys) = Inr [run]"
    by (auto simp: tick_def nightly_due bindc_liftE bindc_apply simp del: due.simps split: prod.splits sum.splits)
  from tick_once_per_minute [OF outcome_eq [OF this] refl, of "mock_engine (Some True)" "\<lambda>_. sign_off"] show ?thesis by auto
qed

end
