(* ===== verification/RunColumns.thy ===== *)
theory RunColumns
  imports JsonLoads SQLiteStore
begin

text \<open>
  How a \<open>Run\<close> is written to and read from the columns of \<open>runs\<close>: the JSON text of its
  dictionaries and the value of its status.  The tables of the model keep the values; this
  theory shows that reading the columns gives them back.
\<close>

record RunColumns =
  col_id :: string
  col_tenant_id :: string
  col_workflow_id :: string
  col_workflow_version :: int
  col_trigger_json :: string
  col_idempotency_key :: string
  col_status :: string
  col_cursor_step :: "string option"
  col_context_json :: string
  col_cost_usd :: rat
  col_steps_used :: int
  col_result_json :: "string option"

text \<open>The parameters of the \<open>INSERT\<close> of a run and of the \<open>UPDATE\<close> of a checkpoint.\<close>

definition run_columns :: "env \<Rightarrow> Run \<Rightarrow> RunColumns" where
  "run_columns E run =
     \<lparr>col_id = r_id run, col_tenant_id = r_tenant_id run, col_workflow_id = r_workflow_id run,
      col_workflow_version = r_workflow_version run, col_trigger_json = dumps_default E (PDict (r_trigger_event run)),
      col_idempotency_key = r_idempotency_key run, col_status = status_value (r_status run),
      col_cursor_step = r_cursor_step run, col_context_json = dumps_default E (PDict (r_context run)),
      col_cost_usd = r_cost_usd run, col_steps_used = r_steps_used run,
      col_result_json = (if r_result run \<noteq> PNone then Some (dumps_default E (r_result run)) else None)\<rparr>"

text \<open>\<open>RunStatus(v)\<close>.\<close>

definition run_status :: "string \<Rightarrow> exn + RunStatus" where
  "run_status v =
     (case List.find (\<lambda>st. status_value st = v) [PENDING, RUNNING, WAITING_APPROVAL, SUCCEEDED, FAILED, CANCELED] of
        Some st \<Rightarrow> Inr st
      | None \<Rightarrow> Inl (Exn ValueError (repr_str v @ '' is not a valid RunStatus'')))"

text \<open>\<open>json.loads\<close> of a column that holds a dictionary; the two columns are only written from
  dictionaries, any other text is outside the type of \<open>Run\<close>.\<close>

definition loads_dict :: "string \<Rightarrow> exn + pydict" where
  "loads_dict s = bind_sum (json_loads s) (\<lambda>v. case v of PDict d \<Rightarrow> Inr d | _ \<Rightarrow> Inl (Exn TypeError ''not a dictionary''))"

definition columns_to_run :: "RunColumns \<Rightarrow> string \<Rightarrow> exn + Run" where
  "columns_to_run row tenant =
     (if col_tenant_id row \<noteq> tenant then Inl (Exn TenantIsolationError ''run belongs to a different tenant'')
      else bind_sum (loads_dict (col_trigger_json row)) (\<lambda>trig.
           bind_sum (run_status (col_status row)) (\<lambda>st.
           bind_sum (loads_dict (col_context_json row)) (\<lambda>ctx.
           bind_sum (case col_result_json row of
                       None \<Rightarrow> Inr PNone
                     | Some t \<Rightarrow> if t = [] then Inr PNone else json_loads t) (\<lambda>result.
           Inr \<lparr>r_tenant_id = col_tenant_id row, r_workflow_id = col_workflow_id row,
                r_workflow_version = col_workflow_version row, r_trigger_event = trig,
                r_idempotency_key = col_idempotency_key row, r_status = st, r_cursor_step = col_cursor_step row,
                r_context = ctx, r_cost_usd = col_cost_usd row, r_steps_used = col_steps_used row,
                r_result = result, r_id = col_id row\<rparr>)))))"

lemma run_status_value: "run_status (status_value st) = Inr st"
  by (cases st) (simp_all add: run_status_def)

lemma loads_default: "storable (float_str E) v \<Longrightarrow> json_loads (dumps_default E v) = Inr v"
  unfolding dumps_default_def by (rule spaced.loads_dumps)

lemma dumps_default_nonempty: "storable (float_str E) v \<Longrightarrow> dumps_default E v \<noteq> []"
  using dumps_first [of "float_str E" v "'', ''" "'': ''"] by (auto simp: dumps_default_def)

section \<open>Properties\<close>

text \<open>C39: a run survives its columns.  Reading the columns a run was written to gives the run, for
  every status and every trigger, context and result that JSON text carries without loss
  (dictionaries have distinct keys and the text of a finite float denotes it), and its tenant only.\<close>

theorem run_columns_roundtrip:
  assumes "storable (float_str E) (PDict (r_trigger_event run))" "storable (float_str E) (PDict (r_context run))"
    "storable (float_str E) (r_result run)"
  shows "columns_to_run (run_columns E run) tenant = row_to_run \<lparr>row_run = run, row_started_at = t0, row_updated_at = t1\<rparr> tenant"
  using loads_default [OF assms(1)] loads_default [OF assms(2)] loads_default [OF assms(3)] dumps_default_nonempty [OF assms(3)]
  by (simp add: columns_to_run_def run_columns_def row_to_run_def loads_dict_def run_status_value)

definition plain_env :: env where
  "plain_env = \<lparr>wall = of_nat, mono = of_nat, uuid_hex = nat_str, float_str = (\<lambda>q. ''8200.0'')\<rparr>"

lemma plain_amount: "scan_number (float_str plain_env 8200) = Some (PFloat (Fin 8200), [])"
  by (simp add: plain_env_def amount_text)

theorem run_columns_roundtrip_witness:
  "columns_to_run (run_columns plain_env (mk_run ''acme'' ''wf'' 1 [(''id'', PInt 7), (''amount'', PFloat (Fin 8200))] ''7'' None ''run_1'')) ''acme'' =
     Inr (mk_run ''acme'' ''wf'' 1 [(''id'', PInt 7), (''amount'', PFloat (Fin 8200))] ''7'' None ''run_1'')"
  using run_columns_roundtrip [of plain_env "mk_run ''acme'' ''wf'' 1 [(''id'', PInt 7), (''amount'', PFloat (Fin 8200))] ''7'' None ''run_1''" "''acme''" 0 0]
  by (simp add: mk_run_def row_to_run_def plain_amount)

end
