(* ===== verification/Auth.thy ===== *)
theory Auth
  imports JsonLoads Sha256
begin

text \<open>
  \<open>auth.py\<close>: bearer tokens (HS256 JWTs) and the principal they carry.

  Base64 is the standard library's, padding and its tolerance of foreign characters included;
  HMAC-SHA-256 is computed (theory \<open>Sha256\<close>).  Texts are sequences of code points below 256
  and \<open>encode()\<close> is UTF-8; a payload in another encoding or with code points above 255 is
  outside the model.  The claims of a token are JSON values, as \<open>json.loads\<close> gives them, so
  the fields of a principal are values too.
\<close>

section \<open>Text as bytes\<close>

definition utf8_char :: "char \<Rightarrow> byte list" where
  "utf8_char c = (let n = of_char c in if n < 128 then [n] else [192 + n div 64, 128 + n mod 64])"

definition utf8 :: "string \<Rightarrow> byte list" where
  "utf8 s = concat (map utf8_char s)"

fun utf8_decode :: "byte list \<Rightarrow> exn + string" where
  "utf8_decode [] = Inr []"
| "utf8_decode (b # bs) =
     (if b < 128 then map_sum id (Cons (char_of b)) (utf8_decode bs)
      else if b = 194 \<or> b = 195
      then (case bs of
              [] \<Rightarrow> Inl (Exn ValueError ''unexpected end of data'')
            | c # cs \<Rightarrow>
                if 128 \<le> c \<and> c < 192 then map_sum id (Cons (char_of (64 * (b - 192) + (c - 128)))) (utf8_decode cs)
                else Inl (Exn ValueError ''invalid continuation byte''))
      else if 196 \<le> b \<and> b \<le> 244 then Inl unmodelled_text
      else Inl (Exn ValueError ''invalid start byte''))"

section \<open>Base64\<close>

definition b64_char :: "nat \<Rightarrow> char" where
  "b64_char n = char_of (if n < 26 then 65 + n else if n < 52 then 71 + n else if n < 62 then n - 4
     else if n = 62 then 45 else 95)"

text \<open>\<open>base64.urlsafe_b64encode\<close>.\<close>

fun b64_encode :: "byte list \<Rightarrow> string" where
  "b64_encode (a # b # c # bs) =
     [b64_char (a div 4), b64_char (16 * (a mod 4) + b div 16), b64_char (4 * (b mod 16) + c div 64), b64_char (c mod 64)] @
     b64_encode bs"
| "b64_encode [a, b] =
     [b64_char (a div 4), b64_char (16 * (a mod 4) + b div 16), b64_char (4 * (b mod 16)), CHR ''='']"
| "b64_encode [a] = [b64_char (a div 4), b64_char (16 * (a mod 4)), CHR ''='', CHR ''='']"
| "b64_encode [] = []"

definition b64url :: "byte list \<Rightarrow> string" where
  "b64url raw = rev (dropWhile (\<lambda>c. c = CHR ''='') (rev (b64_encode raw)))"

text \<open>The value of a character of either alphabet; other characters are skipped.\<close>

definition b64_val :: "char \<Rightarrow> nat option" where
  "b64_val c = (let n = of_char c :: nat in
     if 65 \<le> n \<and> n \<le> 90 then Some (n - 65)
     else if 97 \<le> n \<and> n \<le> 122 then Some (n - 71)
     else if 48 \<le> n \<and> n \<le> 57 then Some (n + 4)
     else if n = 43 \<or> n = 45 then Some 62
     else if n = 47 \<or> n = 95 then Some 63 else None)"

definition b64_error :: exn where
  "b64_error = Exn ValueError ''Incorrect padding''"

definition cons_byte :: "byte \<Rightarrow> exn + byte list \<Rightarrow> exn + byte list" where
  "cons_byte b r = map_sum id (Cons b) r"

text \<open>\<open>binascii.a2b_base64\<close>: \<open>quad\<close> counts the characters of the current group, \<open>pads\<close> the
  padding seen in it and \<open>left\<close> holds the bits not yet written.\<close>

fun a2b :: "nat \<Rightarrow> nat \<Rightarrow> nat \<Rightarrow> string \<Rightarrow> exn + byte list" where
  "a2b quad pads left [] = (if quad \<noteq> 0 then Inl b64_error else Inr [])"
| "a2b quad pads left (c # cs) =
     (if c = CHR ''=''
      then (if quad \<ge> 2 then (if quad + (pads + 1) \<ge> 4 then Inr [] else a2b quad (pads + 1) left cs)
            else a2b quad pads left cs)
      else (case b64_val c of
              None \<Rightarrow> a2b quad pads left cs
            | Some v \<Rightarrow>
                if quad = 0 then a2b 1 0 v cs
                else if quad = 1 then cons_byte (4 * left + v div 16) (a2b 2 0 (v mod 16) cs)
                else if quad = 2 then cons_byte (16 * left + v div 4) (a2b 3 0 (v mod 4) cs)
                else cons_byte (64 * left + v) (a2b 0 0 0 cs)))"

definition b64url_decode :: "string \<Rightarrow> exn + byte list" where
  "b64url_decode seg =
     (let padded = seg @ replicate (nat (- int (length seg) mod 4)) (CHR ''='') in
      if \<exists>c\<in>set padded. 128 \<le> (of_char c :: nat)
      then Inl (Exn ValueError ''string argument should contain only ASCII characters'')
      else a2b 0 0 0 padded)"

section \<open>Tokens\<close>

definition ROLES :: "string list" where
  "ROLES = [''owner'', ''admin'', ''builder'', ''approver'', ''viewer'']"

record Principal =
  p_tenant_id :: pyval
  p_subject :: pyval
  p_roles :: "pyval list"

definition has_any :: "Principal \<Rightarrow> string list \<Rightarrow> bool" where
  "has_any p roles \<longleftrightarrow> (\<exists>r\<in>set roles. PStr r \<in> set (p_roles p))"

definition sign :: "string \<Rightarrow> string \<Rightarrow> string" where
  "sign secret signing_input = b64url (hmac_sha256 (utf8 secret) (utf8 signing_input))"

definition token_header :: pyval where
  "token_header = PDict [(''alg'', PStr ''HS256''), (''typ'', PStr ''JWT'')]"

definition token_claims :: "string \<Rightarrow> string \<Rightarrow> string list \<Rightarrow> int \<Rightarrow> int \<Rightarrow> pyval" where
  "token_claims tenant subject roles now ttl =
     PDict [(''sub'', PStr subject), (''tenant_id'', PStr tenant), (''roles'', PList (map PStr roles)),
            (''iat'', PInt now), (''exp'', PInt (now + ttl))]"

definition encode_segment :: "env \<Rightarrow> pyval \<Rightarrow> string" where
  "encode_segment E v = b64url (utf8 (json_dumps (float_str E) '','' '':'' False v))"

text \<open>\<open>mint_token\<close> at the time \<open>t\<close>; \<open>int(t)\<close> rounds towards zero.\<close>

definition mint_token :: "env \<Rightarrow> rat \<Rightarrow> string \<Rightarrow> string \<Rightarrow> string \<Rightarrow> string list \<Rightarrow> int \<Rightarrow> string" where
  "mint_token E t secret tenant subject roles ttl =
     (let now = (if 0 \<le> t then \<lfloor>t\<rfloor> else \<lceil>t\<rceil>);
          header = encode_segment E token_header;
          payload = encode_segment E (token_claims tenant subject roles now ttl);
          signing_input = header @ ''.'' @ payload
      in signing_input @ ''.'' @ sign secret signing_input)"

text \<open>\<open>list(v)\<close>.\<close>

fun py_list :: "pyval \<Rightarrow> exn + pyval list" where
  "py_list (PList vs) = Inr vs"
| "py_list (PStr s) = Inr (map (\<lambda>c. PStr [c]) s)"
| "py_list (PDict d) = Inr (map (PStr \<circ> fst) d)"
| "py_list _ = Inl (Exn TypeError ''object is not iterable'')"

text \<open>\<open>f < t\<close> for a float and a time.\<close>

fun float_lt :: "pyfloat \<Rightarrow> rat \<Rightarrow> bool" where
  "float_lt (Fin q) t = (q < t)"
| "float_lt PosInf t = False"
| "float_lt NegInf t = True"
| "float_lt NaN t = False"

text \<open>\<open>except ValueError\<close> around the reading of the payload.\<close>

definition read_payload :: "string \<Rightarrow> exn + pyval" where
  "read_payload seg =
     (case bind_sum (b64url_decode seg) (\<lambda>bs. bind_sum (utf8_decode bs) json_loads) of
        Inl e \<Rightarrow> if exn_cls e = ValueError then Inl (Exn AuthError ''unreadable token payload'') else Inl e
      | Inr v \<Rightarrow> Inr v)"

definition principal_of :: "rat \<Rightarrow> pyval \<Rightarrow> exn + Principal" where
  "principal_of t claims = (case claims of
      PDict d \<Rightarrow>
        bind_sum (py_float (dget d ''exp'' (PInt 0))) (\<lambda>expiry.
        if float_lt expiry t then Inl (Exn AuthError ''token expired'')
        else (let tenant = dget d ''tenant_id'' PNone; subject = dget d ''sub'' PNone in
              if \<not> truthy tenant \<or> \<not> truthy subject then Inl (Exn AuthError ''token missing tenant_id/sub'')
              else bind_sum (py_list (dget d ''roles'' (PList []))) (\<lambda>roles.
                   Inr \<lparr>p_tenant_id = tenant, p_subject = subject, p_roles = roles\<rparr>)))
    | _ \<Rightarrow> Inl (Exn (PyException ''AttributeError'') ''object has no attribute get''))"

text \<open>\<open>decode_token\<close> at the time \<open>t\<close>.  \<open>hmac.compare_digest\<close> refuses text that is not ASCII.\<close>

definition decode_token :: "rat \<Rightarrow> string \<Rightarrow> string \<Rightarrow> exn + Principal" where
  "decode_token t secret token =
     (case py_split (CHR ''.'') token of
        [header_b64, payload_b64, sig] \<Rightarrow>
          if \<exists>c\<in>set sig. 128 \<le> (of_char c :: nat)
          then Inl (Exn TypeError ''comparing strings with non-ASCII characters is not supported'')
          else if sign secret (header_b64 @ ''.'' @ payload_b64) \<noteq> sig then Inl (Exn AuthError ''bad signature'')
          else bind_sum (read_payload payload_b64) (principal_of t)
      | _ \<Rightarrow> Inl (Exn AuthError ''malformed token''))"

section \<open>Text and Base64 read back\<close>

lemma utf8_decode_char: "utf8_decode (utf8_char c @ bs) = map_sum id (Cons c) (utf8_decode bs)"
proof -
  let ?n = "of_char c :: nat"
  have n: "?n < 256" by simp
  show ?thesis
  proof (cases "?n < 128")
    case True
    then show ?thesis by (simp add: utf8_char_def)
  next
    case False
    with n have d: "?n div 64 = 2 \<or> ?n div 64 = 3" by linarith
    have "64 * (?n div 64) + ?n mod 64 = ?n" by simp
    with False d show ?thesis by (auto simp: utf8_char_def Let_def)
  qed
qed

lemma utf8_roundtrip: "utf8_decode (utf8 s) = Inr s"
  by (induction s) (simp_all add: utf8_def utf8_decode_char)

lemma utf8_bytes: "b \<in> set (utf8 s) \<Longrightarrow> b < 256"
proof -
  have "b < 256" if "b \<in> set (utf8_char c)" for c
  proof -
    have "(of_char c :: nat) < 256" by simp
    then have "of_char c div 64 < (4 :: nat)" by (simp add: less_mult_imp_div_less)
    with that show ?thesis by (auto simp: utf8_char_def Let_def split: if_splits)
  qed
  then show "b \<in> set (utf8 s) \<Longrightarrow> b < 256" by (auto simp: utf8_def)
qed

lemma b64_char_facts:
  assumes "n < 64"
  shows "b64_char n \<noteq> CHR ''=''" "b64_char n \<noteq> CHR ''.''" "b64_val (b64_char n) = Some n" "(of_char (b64_char n) :: nat) < 128"
proof -
  have v: "(of_char (b64_char n) :: nat) = (if n < 26 then 65 + n else if n < 52 then 71 + n else if n < 62 then n - 4
     else if n = 62 then 45 else 95)"
    using assms by (auto simp: b64_char_def)
  then show "b64_val (b64_char n) = Some n" using assms by (auto simp: b64_val_def Let_def)
  show "(of_char (b64_char n) :: nat) < 128" using v assms by auto
  have "of_char (b64_char n) \<noteq> (of_char (CHR ''='') :: nat)" "of_char (b64_char n) \<noteq> (of_char (CHR ''.'') :: nat)"
    using v assms by auto
  then show "b64_char n \<noteq> CHR ''=''" "b64_char n \<noteq> CHR ''.''" by auto
qed

lemma cons_byte_Inr [simp]: "cons_byte b (Inr bs) = Inr (b # bs)"
  by (simp add: cons_byte_def)

lemma b64_digits:
  "a < 256 \<Longrightarrow> a div 4 < (64::nat)" "b < 256 \<Longrightarrow> 16 * (a mod 4) + b div 16 < (64::nat)"
  "c < 256 \<Longrightarrow> 4 * (b mod 16) + c div 64 < (64::nat)" "16 * (a mod 4) < (64::nat)" "4 * (b mod 16) < (64::nat)" "c mod 64 < (64::nat)"
  by auto

lemma a2b_encode: "\<forall>b\<in>set bs. b < 256 \<Longrightarrow> a2b 0 0 0 (b64_encode bs) = Inr bs"
proof (induction bs rule: b64_encode.induct)
  case (1 a b c bs)
  then have "a < 256" "b < 256" "c < 256" by auto
  with 1 show ?case by (simp add: b64_char_facts b64_digits)
next
  case (2 a b)
  then have "a < 256" "b < 256" by auto
  then show ?case by (simp add: b64_char_facts b64_digits)
next
  case (3 a)
  then have "a < 256" by auto
  then show ?case by (simp add: b64_char_facts b64_digits)
qed simp

lemma b64_encode_shape:
  "\<forall>b\<in>set bs. b < 256 \<Longrightarrow> \<exists>xs m. b64_encode bs = xs @ replicate m (CHR ''='') \<and> m \<le> 2 \<and> 4 dvd length xs + m \<and>
     (\<forall>c\<in>set xs. c \<noteq> CHR ''='' \<and> c \<noteq> CHR ''.'' \<and> (of_char c :: nat) < 128)"
proof (induction bs rule: b64_encode.induct)
  case (1 a b c bs)
  then have abc: "a < 256" "b < 256" "c < 256" by auto
  from 1 obtain xs m where xs: "b64_encode bs = xs @ replicate m (CHR ''='')" "m \<le> 2" "4 dvd length xs + m"
      "\<forall>c\<in>set xs. c \<noteq> CHR ''='' \<and> c \<noteq> CHR ''.'' \<and> (of_char c :: nat) < 128" by auto
  let ?q = "[b64_char (a div 4), b64_char (16 * (a mod 4) + b div 16), b64_char (4 * (b mod 16) + c div 64), b64_char (c mod 64)]"
  have "4 dvd length (?q @ xs) + m" using xs(3) by simp presburger
  with xs abc show ?case
    by (intro exI [of _ "?q @ xs"] exI [of _ m]) (auto simp: b64_char_facts b64_digits)
next
  case (2 a b)
  then have "a < 256" "b < 256" by auto
  then show ?case
    by (intro exI [of _ "[b64_char (a div 4), b64_char (16 * (a mod 4) + b div 16), b64_char (4 * (b mod 16))]"] exI [of _ 1])
      (auto simp: b64_char_facts b64_digits, presburger)
next
  case (3 a)
  then have "a < 256" by auto
  then show ?case
    by (intro exI [of _ "[b64_char (a div 4), b64_char (16 * (a mod 4))]"] exI [of _ 2])
      (auto simp: b64_char_facts b64_digits numeral_2_eq_2, presburger)
next
  case 4
  then show ?case by (intro exI [of _ "[]"] exI [of _ 0]) simp
qed

lemma b64url_shape:
  assumes "\<forall>b\<in>set bs. b < 256"
  obtains m where "b64_encode bs = b64url bs @ replicate m (CHR ''='')" "m = nat (- int (length (b64url bs)) mod 4)"
    "\<forall>c\<in>set (b64url bs). c \<noteq> CHR ''='' \<and> c \<noteq> CHR ''.'' \<and> (of_char c :: nat) < 128"
proof -
  obtain xs m where xs: "b64_encode bs = xs @ replicate m (CHR ''='')" "m \<le> 2" "4 dvd length xs + m"
      "\<forall>c\<in>set xs. c \<noteq> CHR ''='' \<and> c \<noteq> CHR ''.'' \<and> (of_char c :: nat) < 128"
    using b64_encode_shape [OF assms] by blast
  have "dropWhile (\<lambda>c. c = CHR ''='') (rev xs) = rev xs" using xs(4) by (intro dropWhile_none) auto
  moreover have "dropWhile (\<lambda>c. c = CHR ''='') (replicate m (CHR ''='') @ ys) = dropWhile (\<lambda>c. c = CHR ''='') ys" for ys
    by (induction m) simp_all
  ultimately have "b64url bs = xs" by (simp add: b64url_def xs(1))
  moreover have "int m = - int (length xs) mod 4"
    using xs(2,3) by (simp add: zmod_zminus1_eq_if) presburger
  ultimately show ?thesis using that [of m] xs by simp
qed

lemma b64url_roundtrip:
  assumes "\<forall>b\<in>set bs. b < 256"
  shows "b64url_decode (b64url bs) = Inr bs"
proof -
  from b64url_shape [OF assms] obtain m where m: "b64_encode bs = b64url bs @ replicate m (CHR ''='')"
      "m = nat (- int (length (b64url bs)) mod 4)" "\<forall>c\<in>set (b64url bs). (of_char c :: nat) < 128" by metis
  then have "\<not> (\<exists>c\<in>set (b64url bs @ replicate m (CHR ''='')). 128 \<le> (of_char c :: nat))" by auto
  with m a2b_encode [OF assms] show ?thesis by (simp add: b64url_decode_def Let_def)
qed

section \<open>Tokens read back\<close>

lemma join_split: "join [c] (py_split c s) = s"
proof (induction s)
  case (Cons x s)
  obtain w ws where ws: "py_split c s = w # ws" by (cases "py_split c s") simp_all
  with Cons show ?case by (cases ws) auto
qed simp

lemma segment_shape: "\<forall>c\<in>set (encode_segment E v). c \<noteq> CHR ''.'' \<and> (of_char c :: nat) < 128"
  unfolding encode_segment_def using b64url_shape [of "utf8 (json_dumps (float_str E) '','' '':'' False v)"] utf8_bytes by metis

lemma read_segment: "storable (float_str E) v \<Longrightarrow> read_payload (encode_segment E v) = Inr v"
  using b64url_roundtrip [of "utf8 (json_dumps (float_str E) '','' '':'' False v)"] utf8_bytes
    compact.loads_dumps [of "float_str E" v]
  by (simp add: read_payload_def encode_segment_def utf8_roundtrip)

lemma sha256_bytes: "b \<in> set (sha256 bs) \<Longrightarrow> b < 256"
proof -
  have "b < 256" if "b \<in> set (bytes_of_word x)" for x
  proof -
    have "unat x < 2 ^ 32" using unsigned_less [of x] by simp
    then have "unat x div 16777216 < 256" by (simp add: less_mult_imp_div_less)
    with that show ?thesis by (auto simp: bytes_of_word_def Let_def)
  qed
  then show "b \<in> set (sha256 bs) \<Longrightarrow> b < 256" by (auto simp: sha256_def Let_def)
qed

lemma sign_shape: "\<forall>c\<in>set (sign secret s). c \<noteq> CHR ''.'' \<and> (of_char c :: nat) < 128"
proof -
  have "\<forall>b\<in>set (hmac_sha256 (utf8 secret) (utf8 s)). b < 256" using sha256_bytes by (auto simp: hmac_sha256_def Let_def)
  then show ?thesis unfolding sign_def using b64url_shape by metis
qed

lemma decode_signed:
  assumes "CHR ''.'' \<notin> set h" "CHR ''.'' \<notin> set pl"
  shows "decode_token t secret (h @ ''.'' @ pl @ ''.'' @ sign secret (h @ ''.'' @ pl)) = bind_sum (read_payload pl) (principal_of t)"
proof -
  define s where "s = sign secret (h @ ''.'' @ pl)"
  have "\<forall>c\<in>set s. c \<noteq> CHR ''.'' \<and> (of_char c :: nat) < 128" unfolding s_def by (rule sign_shape)
  then have s: "CHR ''.'' \<notin> set s" "\<not> (\<exists>c\<in>set s. 128 \<le> (of_char c :: nat))"
    by (blast, meson not_less)
  have split: "py_split (CHR ''.'') (h @ ''.'' @ pl @ ''.'' @ s) = [h, pl, s]"
    using py_split_append [OF assms(1), of "pl @ ''.'' @ s"] py_split_append [OF assms(2), of s] py_split_none [OF s(1)]
    by (simp only: append.simps append_assoc)
  have "sign secret (h @ ''.'' @ pl) = s" by (simp only: s_def)
  then show ?thesis
    unfolding s_def [symmetric] decode_token_def split list.case using s(2) by (simp only: if_False simp_thms)
qed

lemma minted:
  "0 \<le> t \<Longrightarrow> mint_token E t secret tenant subject roles ttl =
     (let h = encode_segment E token_header; pl = encode_segment E (token_claims tenant subject roles \<lfloor>t\<rfloor> ttl)
      in h @ ''.'' @ pl @ ''.'' @ sign secret (h @ ''.'' @ pl))"
  unfolding mint_token_def Let_def by simp

lemma minted_accepted:
  assumes "tenant \<noteq> []" "subject \<noteq> []" and "0 \<le> t" and "t' \<le> of_int (\<lfloor>t\<rfloor> + ttl)"
  shows "decode_token t' secret (mint_token E t secret tenant subject roles ttl) =
    Inr \<lparr>p_tenant_id = PStr tenant, p_subject = PStr subject, p_roles = map PStr roles\<rparr>"
proof -
  let ?claims = "token_claims tenant subject roles \<lfloor>t\<rfloor> ttl"
  have "storable (float_str E) ?claims" by (simp add: token_claims_def)
  from read_segment [OF this] have "read_payload (encode_segment E ?claims) = Inr ?claims" .
  moreover have "principal_of t' ?claims = Inr \<lparr>p_tenant_id = PStr tenant, p_subject = PStr subject, p_roles = map PStr roles\<rparr>"
    using assms by (simp add: principal_of_def token_claims_def dget_def Let_def)
  moreover have "CHR ''.'' \<notin> set (encode_segment E v)" for v using segment_shape by blast
  ultimately show ?thesis
    unfolding minted [OF assms(3)] Let_def by (subst decode_signed) simp_all
qed

definition demo_token_env :: env where
  "demo_token_env = \<lparr>wall = of_nat, mono = of_nat, uuid_hex = nat_str, float_str = (\<lambda>q. [])\<rparr>"

definition demo_token :: string where
  "demo_token = mint_token demo_token_env 1000 ''s3cret'' ''acme'' ''ana'' [''approver''] 3600"

section \<open>Properties\<close>

text \<open>C29: a minted token is accepted as who it was minted for.  Until it expires, decoding a token
  with the secret it was minted with gives its tenant, its subject and its roles.\<close>

theorem token_roundtrip:
  assumes "tenant \<noteq> []" "subject \<noteq> []" and "0 \<le> t" and "t' \<le> of_int (\<lfloor>t\<rfloor> + ttl)"
  shows "decode_token t' secret (mint_token E t secret tenant subject roles ttl) =
    Inr \<lparr>p_tenant_id = PStr tenant, p_subject = PStr subject, p_roles = map PStr roles\<rparr>"
  using assms by (rule minted_accepted)

theorem token_roundtrip_witness:
  "decode_token 4000 ''s3cret'' demo_token = Inr \<lparr>p_tenant_id = PStr ''acme'', p_subject = PStr ''ana'', p_roles = [PStr ''approver'']\<rparr>"
  unfolding demo_token_def by (subst token_roundtrip) simp_all

text \<open>C28: only signed, unexpired tokens are accepted.  A token that \<open>decode_token\<close> accepts consists
  of a header, a payload and the HMAC of the two under the secret; the payload is a JSON
  dictionary whose expiry is not before the time of the request, and whose tenant and subject,
  which the principal carries, are not empty.\<close>

theorem accepted_token_is_signed:
  assumes "decode_token t secret token = Inr p"
  shows "\<exists>header payload claims expiry. token = header @ ''.'' @ payload @ ''.'' @ sign secret (header @ ''.'' @ payload) \<and>
    read_payload payload = Inr (PDict claims) \<and> py_float (dget claims ''exp'' (PInt 0)) = Inr expiry \<and> \<not> float_lt expiry t \<and>
    p_tenant_id p = dget claims ''tenant_id'' PNone \<and> p_subject p = dget claims ''sub'' PNone \<and>
    truthy (p_tenant_id p) \<and> truthy (p_subject p)"
proof -
  obtain h pl s where parts: "py_split (CHR ''.'') token = [h, pl, s]"
    using assms by (auto simp: decode_token_def split: list.splits)
  then have tok: "token = h @ ''.'' @ pl @ ''.'' @ s" using join_split [of "CHR ''.''" token] by simp
  have s: "s = sign secret (h @ ''.'' @ pl)" and rd: "bind_sum (read_payload pl) (principal_of t) = Inr p"
    using assms parts by (auto simp: decode_token_def split: if_splits)
  then obtain v where v: "read_payload pl = Inr v" "principal_of t v = Inr p" by (auto simp: bind_sum_Inr)
  then obtain claims where c: "v = PDict claims" by (auto simp: principal_of_def split: pyval.splits)
  with v have "\<exists>expiry. py_float (dget claims ''exp'' (PInt 0)) = Inr expiry \<and> \<not> float_lt expiry t \<and>
      p_tenant_id p = dget claims ''tenant_id'' PNone \<and> p_subject p = dget claims ''sub'' PNone \<and>
      truthy (p_tenant_id p) \<and> truthy (p_subject p)"
    by (auto simp: principal_of_def bind_sum_Inr Let_def split: if_splits)
  with tok s v c show ?thesis by blast
qed

theorem accepted_token_is_signed_witness:
  "\<exists>header payload. demo_token = header @ ''.'' @ payload @ ''.'' @ sign ''s3cret'' (header @ ''.'' @ payload)"
proof -
  have "decode_token 4000 ''s3cret'' demo_token =
      Inr \<lparr>p_tenant_id = PStr ''acme'', p_subject = PStr ''ana'', p_roles = map PStr [''approver'']\<rparr>"
    unfolding demo_token_def by (rule minted_accepted) simp_all
  from accepted_token_is_signed [OF this] show ?thesis by blast
qed

end
