(* ===== verification/Api.thy ===== *)
theory Api
  imports Triggers Isolation RateLimit Auth
begin

text \<open>
  \<open>api.py\<close>: the service the HTTP layer calls, and the endpoints of the application.

  The state is the process (\<open>sys\<close>), the rate limiter, how often its clock was read, and the
  two workflow tables of the service.  FastAPI is not part of the sources: an endpoint is the
  function it decorates, run after its dependencies; \<open>HTTPException\<close> is an error value with
  the status and detail, any other exception is left to the framework.  A principal's tenant
  and subject and the note of a decision are text, as minted tokens and the console give them.
\<close>

record ('d, 'x) api =
  as_sys :: "('d, 'x) sys"
  as_limiter :: InMemoryRateLimiter
  as_clk :: nat
  as_by_id :: "string \<rightharpoonup> Workflow"
  as_by_name :: "string \<rightharpoonup> Workflow"

type_synonym ('d, 'x, 'a) svc = "(exn, ('d, 'x) api, 'a) comp"

definition on_sys :: "('d, 'x, 'a) eng \<Rightarrow> ('d, 'x, 'a) svc" where
  "on_sys m = zoom as_sys (\<lambda>s a. a\<lparr>as_sys := s\<rparr>) m"

section \<open>The service\<close>

definition new_service :: "('d, 'x) sys \<Rightarrow> InMemoryRateLimiter \<Rightarrow> ('d, 'x) api" where
  "new_service s rl = \<lparr>as_sys = s, as_limiter = rl, as_clk = 0, as_by_id = Map.empty, as_by_name = Map.empty\<rparr>"

definition api_register_workflow :: "Workflow \<Rightarrow> ('d, 'x, unit) svc" where
  "api_register_workflow flow = modify (\<lambda>a. a\<lparr>as_by_id := (as_by_id a)(wf_id flow \<mapsto> flow), as_by_name := (as_by_name a)(wf_name flow \<mapsto> flow)\<rparr>)"

text \<open>\<open>_engine()\<close>: a fresh engine with an empty buffer; approvals are asynchronous.\<close>

definition api_engine :: "'x engine \<Rightarrow> 'x engine" where
  "api_engine en = en\<lparr>en_approval_fn := None\<rparr>"

definition fresh_engine :: "('d, 'x, unit) eng" where
  "fresh_engine = modify (\<lambda>s. s\<lparr>sy_buffer := []\<rparr>)"

definition safe_resume :: "env \<Rightarrow> 'd StoreOps \<Rightarrow> 'x engine \<Rightarrow> Workflow \<Rightarrow> ('d, 'x, Run) eng" where
  "safe_resume E S en flow =
     handle (resume E S (api_engine en) flow) (\<lambda>e.
       if is_a BassError e
       then bindc (gets sy_run) (\<lambda>run.
            bindc (on_store (op_load_run S (r_tenant_id run) (r_id run))) (\<lambda>reloaded.
            ret (case reloaded of None \<Rightarrow> run | Some r \<Rightarrow> r)))
       else throw e)"

definition rate_limited :: "env \<Rightarrow> string \<Rightarrow> ('d, 'x, unit) svc" where
  "rate_limited E tenant = (\<lambda>a.
     case limiter_allow tenant (wall E (as_clk a)) (as_limiter a) of (ok, rl) \<Rightarrow>
       (if ok then Inr () else Inl (Exn RateLimited tenant), a\<lparr>as_limiter := rl, as_clk := as_clk a + 1\<rparr>))"

text \<open>A trigger that is no dictionary has no \<open>get\<close>.\<close>

definition trigger_dict :: "pyval \<Rightarrow> exn + pydict" where
  "trigger_dict v = (case v of PDict d \<Rightarrow> Inr d | _ \<Rightarrow> Inl (Exn (PyException ''AttributeError'') ''object has no attribute get''))"

definition start_run :: "env \<Rightarrow> 'd StoreOps \<Rightarrow> 'x engine \<Rightarrow> string \<Rightarrow> Workflow \<Rightarrow> pyval \<Rightarrow> ('d, 'x, Run) eng" where
  "start_run E S en tenant flow trigger =
     seqc (on_store (op_ensure_tenant S tenant tenant []))
    (bindc (liftE (trigger_dict trigger)) (\<lambda>trig.
     bindc (new_run E tenant flow trig) (\<lambda>run0.
     seqc fresh_engine
    (bindc (on_store (op_create_or_get_run S run0)) (\<lambda>(run, created).
     if created
     then seqc (set_run run)
         (seqc (emit ''trigger_fired'' [(''workflow'', PStr (wf_name flow)), (''event'', PDict trig)] None 0 ''system'')
               (safe_resume E S en flow))
     else ret run)))))"

definition api_fire :: "env \<Rightarrow> 'd StoreOps \<Rightarrow> 'x engine \<Rightarrow> string \<Rightarrow> string \<Rightarrow> pyval \<Rightarrow> ('d, 'x, Run) svc" where
  "api_fire E S en tenant flow_name trig =
     bindc (gets (\<lambda>a. as_by_name a flow_name)) (\<lambda>found.
     case found of
       None \<Rightarrow> throw (Exn KeyError (repr_str flow_name))
     | Some flow \<Rightarrow> seqc (rate_limited E tenant) (on_sys (start_run E S en tenant flow trig)))"

definition api_get_run :: "'d StoreOps \<Rightarrow> string \<Rightarrow> string \<Rightarrow> ('d, 'x, Run option) svc" where
  "api_get_run S tenant rid = on_sys (on_store (op_load_run S tenant rid))"

definition api_trace :: "'d StoreOps \<Rightarrow> string \<Rightarrow> string \<Rightarrow> ('d, 'x, Event list) svc" where
  "api_trace S tenant rid = on_sys (on_store (op_list_events S tenant rid))"

definition api_cancel :: "'d StoreOps \<Rightarrow> string \<Rightarrow> string \<Rightarrow> ('d, 'x, Run) svc" where
  "api_cancel S tenant rid = on_sys (
     seqc (on_store (op_cancel_run S tenant rid))
    (bindc (on_store (op_load_run S tenant rid)) (\<lambda>run. case run of
       None \<Rightarrow> throw (Exn KeyError (repr_str rid))
     | Some r \<Rightarrow> ret r)))"

definition api_resolve_approval ::
  "env \<Rightarrow> 'd StoreOps \<Rightarrow> 'x engine \<Rightarrow> string \<Rightarrow> string \<Rightarrow> string \<Rightarrow> bool \<Rightarrow> string \<Rightarrow> string \<Rightarrow> ('d, 'x, Run) svc" where
  "api_resolve_approval E S en tenant rid aid approved decided_by nt =
     bindc (on_sys (on_store (op_load_run S tenant rid))) (\<lambda>loaded. case loaded of
       None \<Rightarrow> throw (Exn KeyError (repr_str rid))
     | Some run \<Rightarrow>
         seqc (on_sys (on_store (op_resolve_approval S tenant aid approved decided_by nt)))
        (bindc (gets (\<lambda>a. as_by_id a (r_workflow_id run))) (\<lambda>found. case found of
           None \<Rightarrow> throw (Exn KeyError (repr_str (r_workflow_id run)))
         | Some flow \<Rightarrow> on_sys (seqc fresh_engine (seqc (set_run run) (safe_resume E S en flow))))))"

section \<open>Views\<close>

definition run_view :: "Run \<Rightarrow> pyval" where
  "run_view run = PDict [(''run_id'', PStr (r_id run)), (''status'', PStr (status_value (r_status run))),
     (''cost_usd'', PFloat (Fin (r_cost_usd run))), (''result'', r_result run)]"

definition event_view :: "Event \<Rightarrow> pyval" where
  "event_view ev = PDict [(''seq'', PInt (ev_seq ev)), (''type'', PStr (ev_type ev)),
     (''step_id'', case ev_step_id ev of None \<Rightarrow> PNone | Some i \<Rightarrow> PStr i), (''payload'', PDict (ev_payload ev))]"

section \<open>Endpoints\<close>

datatype api_exn = HTTPException int string | Uncaught exn

type_synonym ('d, 'x, 'a) endpoint = "(api_exn, ('d, 'x) api, 'a) comp"

text \<open>A service call in \<open>try\<close>, with the \<open>except\<close> clauses that turn exceptions into responses.\<close>

definition serving :: "(exn \<Rightarrow> (int \<times> string) option) \<Rightarrow> ('d, 'x, 'a) svc \<Rightarrow> ('d, 'x, 'a) endpoint" where
  "serving clauses m = (\<lambda>a. case m a of
      (Inr x, a') \<Rightarrow> (Inr x, a')
    | (Inl e, a') \<Rightarrow> (Inl (case clauses e of None \<Rightarrow> Uncaught e | Some (code, detail) \<Rightarrow> HTTPException code detail), a'))"

definition not_found :: "exn_class set \<Rightarrow> exn \<Rightarrow> (int \<times> string) option" where
  "not_found cs e = (if exn_cls e \<in> cs then Some (404, ''not found'') else None)"

definition principal :: "rat \<Rightarrow> string \<Rightarrow> string \<Rightarrow> api_exn + Principal" where
  "principal t secret authorization =
     (if \<not> starts ''Bearer '' authorization then Inl (HTTPException 401 ''missing bearer token'')
      else (case decode_token t secret (drop 7 authorization) of
              Inr p \<Rightarrow> Inr p
            | Inl e \<Rightarrow> if is_a AuthError e then Inl (HTTPException 401 (exn_str e)) else Inl (Uncaught e)))"

definition require :: "string list \<Rightarrow> api_exn + Principal \<Rightarrow> api_exn + Principal" where
  "require roles r = (case r of
      Inl e \<Rightarrow> Inl e
    | Inr p \<Rightarrow>
        if roles \<noteq> [] \<and> \<not> has_any p roles
        then Inl (HTTPException 403 (''requires one of roles: '' @ py_repr (\<lambda>q. []) (PList (map PStr roles))))
        else Inr p)"

definition text_of :: "pyval \<Rightarrow> api_exn + string" where
  "text_of v = (case v of PStr s \<Rightarrow> Inr s | _ \<Rightarrow> Inl (Uncaught (Exn TypeError ''not text'')))"

datatype http_request =
    PostRun string pydict \<comment> \<open>\<open>POST /v1/workflows/{name}/runs\<close>\<close>
  | ListRuns string int \<comment> \<open>\<open>GET /v1/runs\<close>\<close>
  | GetRun string \<comment> \<open>\<open>GET /v1/runs/{run_id}\<close>\<close>
  | GetTrace string \<comment> \<open>\<open>GET /v1/runs/{run_id}/trace\<close>\<close>
  | PostCancel string \<comment> \<open>\<open>POST /v1/runs/{run_id}/cancel\<close>\<close>
  | PostDecision string string pydict \<comment> \<open>\<open>POST /v1/runs/{run_id}/approvals/{approval_id}\<close>\<close>
  | GetMetrics \<comment> \<open>\<open>GET /metrics\<close>\<close>

fun roles_for :: "http_request \<Rightarrow> string list" where
  "roles_for (PostRun nm body) = [''owner'', ''admin'', ''builder'']"
| "roles_for (PostCancel rid) = [''owner'', ''admin'', ''builder'']"
| "roles_for (PostDecision rid aid body) = [''owner'', ''admin'', ''approver'']"
| "roles_for _ = []"

fun endpoint :: "env \<Rightarrow> 'd StoreOps \<Rightarrow> 'x engine \<Rightarrow> string \<Rightarrow> string \<Rightarrow> http_request \<Rightarrow> ('d, 'x, pyval) endpoint" where
  "endpoint E S en tenant subject (PostRun nm body) =
     bindc (serving (\<lambda>e. if exn_cls e = KeyError then Some (404, ''unknown workflow'')
                         else if exn_cls e = RateLimited then Some (429, ''rate limit exceeded'') else None)
              (api_fire E S en tenant nm (dget body ''trigger'' (PDict [])))) (\<lambda>run. ret (run_view run))"
| "endpoint E S en tenant subject (ListRuns status limit) =
     bindc (serving (\<lambda>e. None) (on_sys (on_store (op_list_runs S tenant (min (max limit 1) 200)
              (if status = [] then None else Some status))))) (\<lambda>runs.
     ret (PDict [(''runs'', PList (map run_view runs))]))"
| "endpoint E S en tenant subject (GetRun rid) =
     bindc (serving (not_found {TenantIsolationError}) (api_get_run S tenant rid)) (\<lambda>run. case run of
       None \<Rightarrow> throw (HTTPException 404 ''not found'')
     | Some r \<Rightarrow> ret (run_view r))"
| "endpoint E S en tenant subject (GetTrace rid) =
     bindc (serving (not_found {TenantIsolationError}) (api_trace S tenant rid)) (\<lambda>events.
     ret (PDict [(''events'', PList (map event_view events))]))"
| "endpoint E S en tenant subject (PostCancel rid) =
     bindc (serving (not_found {KeyError, TenantIsolationError}) (api_cancel S tenant rid)) (\<lambda>run. ret (run_view run))"
| "endpoint E S en tenant subject (PostDecision rid aid body) =
     bindc (liftE (text_of (dget body ''note'' (PStr [])))) (\<lambda>nt.
     bindc (serving (not_found {KeyError, TenantIsolationError})
              (api_resolve_approval E S en tenant rid aid (truthy (dget body ''approved'' (PBool False))) subject nt)) (\<lambda>run.
     ret (run_view run)))"
| "endpoint E S en tenant subject GetMetrics = gets (\<lambda>a. snapshot E (sy_metrics (as_sys a)))"

text \<open>A request: the bearer token, the role check, and the endpoint under the principal's tenant.\<close>

definition app :: "env \<Rightarrow> 'd StoreOps \<Rightarrow> 'x engine \<Rightarrow> rat \<Rightarrow> string \<Rightarrow> string \<Rightarrow> http_request \<Rightarrow> ('d, 'x, pyval) endpoint" where
  "app E S en t secret authorization req =
     bindc (liftE (require (roles_for req) (principal t secret authorization))) (\<lambda>p.
     bindc (liftE (text_of (p_tenant_id p))) (\<lambda>tenant.
     bindc (liftE (text_of (p_subject p))) (\<lambda>subject.
     endpoint E S en tenant subject req)))"

definition health :: pyval where
  "health = PDict [(''status'', PStr ''ok'')]"

definition ready :: "bool \<Rightarrow> api_exn + pyval" where
  "ready ping = (if ping then Inr (PDict [(''status'', PStr ''ready'')]) else Inl (HTTPException 503 ''store unavailable''))"

section \<open>What a request may change\<close>

definition api_tabs :: "('d \<Rightarrow> tables) \<Rightarrow> ('d, 'x) api \<Rightarrow> tables" where
  "api_tabs tabs a = tabs (sy_store (as_sys a))"

definition only_tenant :: "('d \<Rightarrow> tables) \<Rightarrow> string \<Rightarrow> ('d, 'x) api \<Rightarrow> ('d, 'x) api \<Rightarrow> bool" where
  "only_tenant tabs tenant a a' \<longleftrightarrow> others_same tenant (api_tabs tabs a) (api_tabs tabs a')"

interpretation only_tenant: frame "only_tenant tabs tenant" for tabs tenant
  by unfold_locales (auto simp: only_tenant_def intro: others_same_trans)

lemma serving_keeps: "keeps R m \<Longrightarrow> keeps R (serving clauses m)"
  by (auto simp: keeps_def serving_def split: prod.splits sum.splits) (metis snd_conv)+

lemma on_sys_keeps:
  "(\<And>s r s'. m s = (r, s') \<Longrightarrow> others_same tenant (tabs (sy_store s)) (tabs (sy_store s'))) \<Longrightarrow> keeps (only_tenant tabs tenant) (on_sys m)"
  by (rule keepsI) (auto simp: on_sys_def zoom_def only_tenant_def api_tabs_def split: prod.splits)

context store
begin

lemma safe_resume_others:
  assumes "safe_resume E S en flow s = (r, s')"
  shows "others_same (r_tenant_id (sy_run s)) (tabs (sy_store s)) (tabs (sy_store s'))"
proof -
  obtain r1 s1 where res: "resume E S (api_engine en) flow s = (r1, s1)" by fastforce
  have "tabs (sy_store s') = tabs (sy_store s1)"
    using assms res load_run_law
    by (auto simp: safe_resume_def handle_def bindc_apply on_store_apply split: sum.splits prod.splits if_splits)
  with resume_others [OF res] show ?thesis by simp
qed

lemma start_run_others:
  assumes "start_run E S en tenant flow trigger s = (r, s')"
  shows "others_same tenant (tabs (sy_store s)) (tabs (sy_store s'))"
proof -
  obtain r1 d1 where t: "op_ensure_tenant S tenant tenant [] (sy_store s) = (r1, d1)" by fastforce
  have others1: "others_same tenant (tabs (sy_store s)) (tabs d1)"
    using ensure_tenant_law [OF t] others_upsert by auto
  show ?thesis
  proof (cases "r1 = Inr () \<and> (\<exists>trig. trigger_dict trigger = Inr trig)")
    case False
    with assms t others1 show ?thesis
      by (cases r1; cases "trigger_dict trigger") (auto simp: start_run_def bindc_apply on_store_apply)
  next
    case True
    then obtain trig where trig: "r1 = Inr ()" "trigger_dict trigger = Inr trig" by blast
    let ?run0 = "trigger_run E (sy_ids s) tenant flow trig"
    obtain r2 d2 where c: "op_create_or_get_run S ?run0 d1 = (r2, d2)" by fastforce
    have others2: "others_same tenant (tabs d1) (tabs d2)" using others_create [OF c] by simp
    show ?thesis
    proof (cases "\<exists>run. r2 = Inr (run, True)")
      case False
      with assms t trig c others1 others2 show ?thesis
        by (cases r2) (auto simp: start_run_def bindc_apply on_store_apply new_run_def fresh_engine_def
            intro: others_same_trans split: prod.splits if_splits)
    next
      case True
      then obtain run where run: "r2 = Inr (run, True)" by blast
      with c have own: "r_tenant_id run = tenant" using create_run_tenant [of ?run0 d1 run True d2] by simp
      from assms t trig c run obtain s1 where "safe_resume E S en flow s1 = (r, s')" "sy_run s1 = run" "sy_store s1 = d2"
        by (auto simp: start_run_def bindc_apply [of "on_store _"] on_store_apply seq_new_run fresh_engine_def set_run_def seq_emit
            bindc_liftE)
      with safe_resume_others own others1 others2 show ?thesis by (metis others_same_trans)
    qed
  qed
qed

lemma cancel_others:
  "seqc (on_store (op_cancel_run S tenant rid)) (bindc (on_store (op_load_run S tenant rid)) (\<lambda>run. case run of
       None \<Rightarrow> throw (Exn KeyError (repr_str rid)) | Some r \<Rightarrow> ret r)) s = (r, s') \<Longrightarrow>
     others_same tenant (tabs (sy_store s)) (tabs (sy_store s'))"
  by (auto simp: bindc_apply on_store_apply split: prod.splits sum.splits option.splits dest!: load_run_law intro: others_cancel)

lemma rate_limited_keeps: "keeps (only_tenant tabs tenant) (rate_limited E tenant')"
  by (auto simp: keeps_def rate_limited_def only_tenant_def api_tabs_def split: prod.splits)

lemma load_then_keeps:
  assumes "\<And>run. r_tenant_id run = tenant \<Longrightarrow> keeps (only_tenant tabs tenant) (f (Some run))" and "keeps (only_tenant tabs tenant) (f None)"
  shows "keeps (only_tenant tabs tenant) (bindc (on_sys (on_store (op_load_run S tenant rid))) f)"
proof (rule keepsI)
  fix a r a'
  assume run: "bindc (on_sys (on_store (op_load_run S tenant rid))) f a = (r, a')"
  obtain x d where l: "op_load_run S tenant rid (sy_store (as_sys a)) = (x, d)" by fastforce
  let ?a = "a\<lparr>as_sys := (as_sys a)\<lparr>sy_store := d\<rparr>\<rparr>"
  have same: "only_tenant tabs tenant a ?a"
    using others_ops(3) [OF l] by (simp add: only_tenant_def api_tabs_def)
  show "only_tenant tabs tenant a a'"
  proof (cases x)
    case (Inl e)
    with run l same show ?thesis by (simp add: bindc_def on_sys_def zoom_def on_store_apply)
  next
    case (Inr found)
    with run l have "f found ?a = (r, a')" by (simp add: bindc_def on_sys_def zoom_def on_store_apply)
    moreover have "keeps (only_tenant tabs tenant) (f found)"
      using assms load_run_tenant [of tenant rid "sy_store (as_sys a)"] l Inr by (cases found) auto
    ultimately have "only_tenant tabs tenant ?a a'" by (rule keepsD [rotated])
    with same show ?thesis by (rule only_tenant.frame_trans)
  qed
qed

lemma resume_loaded_others:
  "r_tenant_id run = tenant \<Longrightarrow> seqc fresh_engine (seqc (set_run run) (safe_resume E S en flow)) s = (r, s') \<Longrightarrow>
     others_same tenant (tabs (sy_store s)) (tabs (sy_store s'))"
  using safe_resume_others [of E en flow "s\<lparr>sy_buffer := [], sy_run := run\<rparr>" r s'] by (simp add: fresh_engine_def set_run_def)

lemmas tenant_rules = only_tenant.keeps_rules serving_keeps rate_limited_keeps

lemma fire_keeps_others: "keeps (only_tenant tabs tenant) (api_fire E S en tenant nm trigger)"
  unfolding api_fire_def by (intro tenant_rules on_sys_keeps start_run_others; assumption)

lemma cancel_keeps_others: "keeps (only_tenant tabs tenant) (api_cancel S tenant rid)"
  unfolding api_cancel_def by (rule on_sys_keeps) (rule cancel_others)

lemma resolve_keeps_others: "keeps (only_tenant tabs tenant) (api_resolve_approval E S en tenant rid aid ok by_whom nt)"
proof -
  have "keeps (only_tenant tabs tenant) (on_sys (on_store (op_resolve_approval S tenant aid ok by_whom nt)))"
    by (rule on_sys_keeps) (auto simp: on_store_apply split: prod.splits intro: others_ops(5))
  moreover have "keeps (only_tenant tabs tenant) (on_sys (seqc fresh_engine (seqc (set_run run) (safe_resume E S en flow))))"
    if "r_tenant_id run = tenant" for run flow
    by (rule on_sys_keeps) (rule resume_loaded_others [OF that])
  ultimately show ?thesis
    unfolding api_resolve_approval_def
    by (intro load_then_keeps) (simp_all only: option.case, (intro tenant_rules; assumption?; simp?)+)
qed

lemma endpoint_others:
  assumes "roles_for req \<noteq> []"
  shows "keeps (only_tenant tabs tenant) (endpoint E S en tenant subject req)"
  using assms
  by (cases req; simp only: endpoint.simps roles_for.simps)
    (auto intro!: tenant_rules fire_keeps_others cancel_keeps_others resolve_keeps_others)

end

lemma serving_state: "(\<And>r a'. m a = (r, a') \<Longrightarrow> a' = a) \<Longrightarrow> serving clauses m a = (r, a') \<Longrightarrow> a' = a"
  by (auto simp: serving_def split: prod.splits sum.splits)

lemma list_runs_state: "list_runs tenant limit status d = (r, d') \<Longrightarrow> d' = d"
proof -
  have "mapc (\<lambda>row. liftE (row_to_run row tenant)) rows d = (r, d') \<Longrightarrow> d' = d" for rows and r :: "exn + Run list"
    by (induction rows arbitrary: r) (auto simp: bindc_apply split: sum.splits prod.splits)
  then show "list_runs tenant limit status d = (r, d') \<Longrightarrow> d' = d" by (auto simp: list_runs_def query_def split: if_splits)
qed

lemma reads_state:
  "load_run tenant rid d = (rr, d') \<Longrightarrow> d' = d" "list_events tenant rid d = (re, d') \<Longrightarrow> d' = d"
  by (auto simp: load_run_def list_events_def assert_owns_eq query_def bindc_apply bindc_liftE split: option.splits if_splits sum.splits)

lemma get_requests_read_only:
  assumes "roles_for req = []" and "endpoint E (sqlite_ops E) en tenant subject req a = (r, a')"
  shows "a' = a"
proof -
  have same: "on_sys (on_store m) b = (q, b') \<Longrightarrow> b' = b" if "\<And>d q d'. m d = (q, d') \<Longrightarrow> d' = d" for m b q b'
    using that by (fastforce simp: on_sys_def zoom_def on_store_apply split: prod.splits)
  show ?thesis
    using assms same [OF list_runs_state] same [OF reads_state(1)] same [OF reads_state(2)]
    by (cases req) (auto simp: bindc_apply api_get_run_def api_trace_def split: prod.splits sum.splits option.splits
        dest!: serving_state [rotated])
qed

lemma app_cases:
  assumes "app E S en t secret auth req a = (r, a')"
  obtains (refused) "a' = a"
  | (served) p tenant subject where "decode_token t secret (drop 7 auth) = Inr p" "p_tenant_id p = PStr tenant"
      "p_subject p = PStr subject" "roles_for req \<noteq> [] \<Longrightarrow> has_any p (roles_for req)"
      "endpoint E S en tenant subject req a = (r, a')"
proof (cases "require (roles_for req) (principal t secret auth)")
  case (Inl e)
  with assms refused show ?thesis by (simp add: app_def bindc_liftE)
next
  case (Inr p)
  then have p: "decode_token t secret (drop 7 auth) = Inr p" "roles_for req \<noteq> [] \<Longrightarrow> has_any p (roles_for req)"
    by (auto simp: require_def principal_def split: sum.splits if_splits)
  show ?thesis
  proof (cases "\<exists>tenant subject. p_tenant_id p = PStr tenant \<and> p_subject p = PStr subject")
    case True
    then obtain tenant subject where ts: "p_tenant_id p = PStr tenant" "p_subject p = PStr subject" by blast
    with assms Inr have "endpoint E S en tenant subject req a = (r, a')"
      by (simp add: app_def bindc_liftE text_of_def)
    with served p ts show ?thesis by blast
  next
    case False
    with assms Inr refused show ?thesis
      by (auto simp: app_def bindc_liftE text_of_def split: pyval.splits)
  qed
qed

section \<open>Properties\<close>

text \<open>C11: authentication, roles and tenants guard every change.  When a request over HTTP changes
  anything of a tenant's runs, events, approvals or ledger, then its token was accepted for that
  tenant and carries one of the roles the endpoint requires; requests that only read require no
  role and change nothing.\<close>

theorem api_guards_tenants:
  assumes "app E (sqlite_ops E) en t secret auth req a = (r, a')"
    and "approval_ids_distinct (sq_db (sy_store (as_sys a)))"
    and "tenant_view x (sq_db (sy_store (as_sys a'))) \<noteq> tenant_view x (sq_db (sy_store (as_sys a)))"
  shows "\<exists>p. decode_token t secret (drop 7 auth) = Inr p \<and> p_tenant_id p = PStr x \<and> has_any p (roles_for req)"
  using assms(1)
proof (cases rule: app_cases)
  case refused
  with assms(3) show ?thesis by simp
next
  case (served p tenant subject)
  show ?thesis
  proof (cases "roles_for req = []")
    case True
    with get_requests_read_only served(5) assms(3) show ?thesis by fastforce
  next
    case False
    from keepsD [OF sqlite.endpoint_others [OF False] served(5)] assms(2)
    have "x \<noteq> tenant \<Longrightarrow> tenant_view x (sq_db (sy_store (as_sys a'))) = tenant_view x (sq_db (sy_store (as_sys a)))"
      by (simp add: only_tenant_def api_tabs_def others_same_def)
    with assms(3) served False show ?thesis by blast
  qed
qed

text \<open>A service over the database of the example, and the request to cancel its run.\<close>

definition demo_api :: "(SQLiteStore, accounting) api" where
  "demo_api = new_service (demo_at dead_db) (new_limiter 1000 60)"

definition canceler_token :: string where
  "canceler_token = mint_token demo_token_env 1000 ''s3cret'' ''acme'' ''ana'' [''admin''] 3600"

lemma canceler_accepted:
  "decode_token 2000 ''s3cret'' (drop 7 (''Bearer '' @ canceler_token)) =
     Inr \<lparr>p_tenant_id = PStr ''acme'', p_subject = PStr ''ana'', p_roles = [PStr ''admin'']\<rparr>"
  using minted_accepted [of "''acme''" "''ana''" 1000 2000 3600 "''s3cret''" demo_token_env "[''admin'']"]
  by (simp add: canceler_token_def)

lemma canceler_cancels:
  "\<exists>r a'. app demo_env (sqlite_ops demo_env) (mock_engine None) 2000 ''s3cret'' (''Bearer '' @ canceler_token) (PostCancel ''run_1'') demo_api = (r, a') \<and>
     tenant_view ''acme'' (sq_db (sy_store (as_sys a'))) \<noteq> tenant_view ''acme'' (sq_db dead_db)"
proof (cases rule: cancel_run_cases [of "''run_1''" dead_db demo_env "''acme''"])
  case (canceled row)
  have "principal 2000 ''s3cret'' (''Bearer '' @ canceler_token) =
      Inr \<lparr>p_tenant_id = PStr ''acme'', p_subject = PStr ''ana'', p_roles = [PStr ''admin'']\<rparr>"
    using canceler_accepted by (simp add: principal_def starts_def)
  moreover have "tb_events (sq_db dead_db) = []" by (simp add: dead_db_def new_sqlite_def empty_tables_def)
  ultimately show ?thesis
    using canceled by (auto simp: app_def bindc_liftE require_def has_any_def text_of_def serving_def bindc_apply
        api_cancel_def on_sys_def zoom_def on_store_apply demo_api_def new_service_def demo tenant_view_def
        load_run_def query_def run_row_update_status row_to_run_def split: prod.splits sum.splits)
qed (auto simp: demo terminal_def)

theorem api_guards_tenants_witness:
  "\<exists>p. decode_token 2000 ''s3cret'' (drop 7 (''Bearer '' @ canceler_token)) = Inr p \<and> p_tenant_id p = PStr ''acme'' \<and>
     has_any p (roles_for (PostCancel ''run_1''))"
proof -
  obtain r a' where "app demo_env (sqlite_ops demo_env) (mock_engine None) 2000 ''s3cret'' (''Bearer '' @ canceler_token)
        (PostCancel ''run_1'') demo_api = (r, a')"
      "tenant_view ''acme'' (sq_db (sy_store (as_sys a'))) \<noteq> tenant_view ''acme'' (sq_db dead_db)"
    using canceler_cancels by blast
  then show ?thesis
    using api_guards_tenants [of demo_env "mock_engine None" 2000 "''s3cret''" "''Bearer '' @ canceler_token" "PostCancel ''run_1''"
        demo_api r a' "''acme''"]
    by (simp add: demo_api_def new_service_def demo approval_ids_distinct_def) (simp add: dead_db_def new_sqlite_def empty_tables_def)
qed

text \<open>C30: the rate limit comes before any work.  When the limiter refuses the tenant's next
  request, firing a known workflow is answered with status 429, and the store, the tools and
  everything else of the process are as before.\<close>

theorem rate_limit_before_work:
  assumes "decode_token t secret token = Inr p" "p_tenant_id p = PStr tenant" "p_subject p = PStr subject"
    and "has_any p [''owner'', ''admin'', ''builder'']"
    and "as_by_name a nm = Some flow" and "\<not> fst (limiter_allow tenant (wall E (as_clk a)) (as_limiter a))"
  shows "\<exists>a'. app E S en t secret (''Bearer '' @ token) (PostRun nm body) a = (Inl (HTTPException 429 ''rate limit exceeded''), a') \<and>
    as_sys a' = as_sys a"
proof -
  have "principal t secret (''Bearer '' @ token) = Inr p" using assms(1) by (simp add: principal_def starts_def)
  with assms show ?thesis
    by (auto simp: app_def bindc_liftE require_def text_of_def bindc_apply serving_def api_fire_def rate_limited_def
        split: prod.splits)
qed

theorem rate_limit_before_work_witness:
  "\<exists>a'. app demo_env (sqlite_ops demo_env) (mock_engine None) 2000 ''s3cret'' (''Bearer '' @ canceler_token) (PostRun ''invoice-triage'' [])
       (demo_api\<lparr>as_by_name := [''invoice-triage'' \<mapsto> build_workflow], as_limiter := new_limiter 0 60\<rparr>) =
       (Inl (HTTPException 429 ''rate limit exceeded''), a') \<and> as_sys a' = as_sys demo_api"
  using rate_limit_before_work [of 2000 "''s3cret''" canceler_token "\<lparr>p_tenant_id = PStr ''acme'', p_subject = PStr ''ana'', p_roles = [PStr ''admin'']\<rparr>"
      "''acme''" "''ana''" "demo_api\<lparr>as_by_name := [''invoice-triage'' \<mapsto> build_workflow], as_limiter := new_limiter 0 60\<rparr>"
      "''invoice-triage''" build_workflow demo_env "sqlite_ops demo_env" "mock_engine None" "[]"] canceler_accepted
  by (simp add: has_any_def limiter_allow_def new_limiter_def count_of_def Let_def)

text \<open>An engine error that is not a failed step is hidden.  \<open>_safe_resume\<close> expects that a run
  whose driving raised is marked failed; a workflow whose start step does not exist raises
  \<open>WorkflowError\<close>, and the caller gets the run back as \<open>pending\<close>, as it stays in the database.\<close>

theorem broken_workflow_stays_pending:
  assumes "as_by_name a nm = Some flow" and "wf_steps flow (wf_start flow) = None"
    and "fst (limiter_allow tenant (wall E (as_clk a)) (as_limiter a))"
    and "run_row (new_id E (sy_ids (as_sys a)) ''run'') (sq_db (sy_store (as_sys a))) = None"
    and "run_by_key tenant (derive_idempotency_key E trig) (sq_db (sy_store (as_sys a))) = None"
  shows "\<exists>run a'. api_fire E (sqlite_ops E) en tenant nm (PDict trig) a = (Inr run, a') \<and> r_status run = PENDING \<and>
    load_run tenant (r_id run) (sy_store (as_sys a')) = (Inr (Some run), sy_store (as_sys a'))"
proof -
  let ?d = "sy_store (as_sys a)"
  define d1 where "d1 = snd (ensure_tenant E tenant tenant [] ?d)"
  have d1: "ensure_tenant E tenant tenant [] ?d = (Inr (), d1)" "tb_runs (sq_db d1) = tb_runs (sq_db ?d)"
    by (simp_all add: d1_def ensure_tenant_def sq_defs)
  define run where "run = trigger_run E (sy_ids (as_sys a)) tenant flow trig"
  have fresh: "run_row (r_id run) (sq_db d1) = None" "run_by_key (r_tenant_id run) (r_idempotency_key run) (sq_db d1) = None"
    using assms(4,5) d1(2) by (simp_all add: run_def run_row_def run_by_key_def)
  define d2 where "d2 = d1\<lparr>sq_clk := sq_clk d1 + 1, sq_db := insert_run run (wall E (sq_clk d1)) (sq_db d1)\<rparr>"
  have c: "create_or_get_run E run d1 = (Inr (run, True), d2)"
    using fresh by (cases rule: create_or_get_run_cases [of run d1 E]) (auto simp: d2_def)
  have sel: "r_tenant_id run = tenant" "r_status run = PENDING" "r_cursor_step run = Some (wf_start flow)" "r_result run = PNone"
    by (simp_all add: run_def trigger_run_def mk_run_def)
  then have "run\<lparr>r_result := PNone\<rparr> = run" by (cases run) simp
  then have ld: "load_run tenant (r_id run) d2 = (Inr (Some run), d2)"
    using fresh(1) sel by (simp add: load_run_def query_def d2_def run_row_insert_run bindc_liftE row_to_run_def)
  show ?thesis
    using assms(1,2,3) d1(1) c ld sel
    by (auto simp: api_fire_def bindc_apply rate_limited_def on_sys_def zoom_def start_run_def on_store_apply trigger_dict_def
        new_run_def run_def [symmetric] fresh_engine_def set_run_def emit_def safe_resume_def handle_def resume_def set_status_def
        terminal_def drive_step_def is_a_def split: prod.splits)
qed

theorem broken_workflow_stays_pending_witness:
  "\<exists>run a'. api_fire demo_env (sqlite_ops demo_env) (mock_engine None) ''acme'' ''broken'' (PDict [(''id'', PInt 7)])
       ((new_service demo_sys (new_limiter 10 60))\<lparr>as_by_name := [''broken'' \<mapsto> build_workflow\<lparr>wf_start := ''nowhere''\<rparr>]\<rparr>) = (Inr run, a') \<and>
     r_status run = PENDING"
  using broken_workflow_stays_pending [of "(new_service demo_sys (new_limiter 10 60))\<lparr>as_by_name := [''broken'' \<mapsto> build_workflow\<lparr>wf_start := ''nowhere''\<rparr>]\<rparr>"
      "''broken''" "build_workflow\<lparr>wf_start := ''nowhere''\<rparr>" "''acme''" demo_env "[(''id'', PInt 7)]" "mock_engine None"]
  by (auto simp: new_service_def demo_sys_def fresh_sys_def build_workflow_def run_row_def run_by_key_def new_sqlite_def empty_tables_def
      limiter_allow_def new_limiter_def count_of_def Let_def)

text \<open>A signature that is not ASCII is not refused but raises \<open>TypeError\<close>.\<close>

lemma non_ascii_signature_uncaught:
  "principal t secret (''Bearer '' @ ''a.b.'' @ [CHR 0xE9]) =
     Inl (Uncaught (Exn TypeError ''comparing strings with non-ASCII characters is not supported''))"
  by (simp add: principal_def starts_def decode_token_def is_a_def)

end
