(* ===== verification/Config.thy ===== *)
theory Config
  imports PyStrings
begin

text \<open>
  \<open>config.py\<close> and \<open>secrets.py\<close>: settings and secrets from the process environment, a map from
  names to texts, and the choice of the store (\<open>open_store\<close> of \<open>store.py\<close>).
\<close>

type_synonym environ = "string \<rightharpoonup> string"

section \<open>Settings\<close>

text \<open>\<open>int(raw)\<close> and \<open>float(raw)\<close> raise \<open>ValueError\<close> on a text that is no number.\<close>

definition cfg_int :: "environ \<Rightarrow> string \<Rightarrow> int \<Rightarrow> exn + int" where
  "cfg_int os nm dflt = (case os nm of
      None \<Rightarrow> Inr dflt
    | Some raw \<Rightarrow> (case py_int raw of
        Inr i \<Rightarrow> Inr i
      | Inl e \<Rightarrow> if exn_cls e = ValueError then Inl (Exn ConfigError (nm @ '' must be an integer, got '' @ repr_str raw)) else Inl e))"

definition cfg_float :: "environ \<Rightarrow> string \<Rightarrow> pyfloat \<Rightarrow> exn + pyfloat" where
  "cfg_float os nm dflt = (case os nm of
      None \<Rightarrow> Inr dflt
    | Some raw \<Rightarrow> (case py_float (PStr raw) of
        Inr f \<Rightarrow> Inr f
      | Inl e \<Rightarrow> if exn_cls e = ValueError then Inl (Exn ConfigError (nm @ '' must be a number, got '' @ repr_str raw)) else Inl e))"

record Config =
  db_path :: string
  default_budget_usd :: pyfloat
  default_max_steps :: int
  connector_timeout_s :: pyfloat
  connector_max_retries :: int
  connector_breaker_threshold :: int
  connector_breaker_reset_s :: pyfloat
  log_level :: string
  log_json :: bool

definition default_config :: Config where
  "default_config =
     \<lparr>db_path = ''bass.db'', default_budget_usd = Fin 1, default_max_steps = 50, connector_timeout_s = Fin 10,
      connector_max_retries = 3, connector_breaker_threshold = 5, connector_breaker_reset_s = Fin 30,
      log_level = ''INFO'', log_json = True\<rparr>"

definition env_get :: "environ \<Rightarrow> string \<Rightarrow> string \<Rightarrow> string" where
  "env_get os nm dflt = (case os nm of None \<Rightarrow> dflt | Some v \<Rightarrow> v)"

definition from_env :: "environ \<Rightarrow> exn + Config" where
  "from_env os =
     bind_sum (cfg_float os ''BASS_DEFAULT_BUDGET_USD'' (default_budget_usd default_config)) (\<lambda>budget.
     bind_sum (cfg_int os ''BASS_DEFAULT_MAX_STEPS'' (default_max_steps default_config)) (\<lambda>steps.
     bind_sum (cfg_float os ''BASS_CONNECTOR_TIMEOUT_S'' (connector_timeout_s default_config)) (\<lambda>timeout.
     bind_sum (cfg_int os ''BASS_CONNECTOR_MAX_RETRIES'' (connector_max_retries default_config)) (\<lambda>retries.
     bind_sum (cfg_int os ''BASS_CONNECTOR_BREAKER_THRESHOLD'' (connector_breaker_threshold default_config)) (\<lambda>threshold.
     bind_sum (cfg_float os ''BASS_CONNECTOR_BREAKER_RESET_S'' (connector_breaker_reset_s default_config)) (\<lambda>reset.
     Inr \<lparr>db_path = env_get os ''BASS_DB_PATH'' (db_path default_config), default_budget_usd = budget,
       default_max_steps = steps, connector_timeout_s = timeout, connector_max_retries = retries,
       connector_breaker_threshold = threshold, connector_breaker_reset_s = reset,
       log_level = env_get os ''BASS_LOG_LEVEL'' (log_level default_config),
       log_json = (env_get os ''BASS_LOG_JSON'' ''1'' \<noteq> ''0'')\<rparr>))))))"

section \<open>Secrets\<close>

definition secret_key :: "string \<Rightarrow> string" where
  "secret_key ref = ''BASS_SECRET_'' @ py_upper ref"

definition env_secret :: "environ \<Rightarrow> string \<Rightarrow> exn + string" where
  "env_secret os ref = (case os (secret_key ref) of
      None \<Rightarrow> Inl (Exn ConfigError (''secret '' @ repr_str ref @ '' not configured ('' @ secret_key ref @ '' unset)''))
    | Some v \<Rightarrow> Inr v)"

definition static_secret :: "environ \<Rightarrow> string \<Rightarrow> exn + string" where
  "static_secret values ref = (case values ref of
      None \<Rightarrow> Inl (Exn ConfigError (''secret '' @ repr_str ref @ '' not configured''))
    | Some v \<Rightarrow> Inr v)"

text \<open>What a connector may rely on: a provider answers with the configured value or raises
  \<open>ConfigError\<close>; it never makes a value up.  \<open>slot_of\<close> is where it looks.\<close>

locale secrets_provider =
  fixes get :: "environ \<Rightarrow> string \<Rightarrow> exn + string" and slot_of :: "string \<Rightarrow> string"
  assumes get_some: "vals (slot_of ref) = Some v \<Longrightarrow> get vals ref = Inr v"
    and get_none: "vals (slot_of ref) = None \<Longrightarrow> \<exists>m. get vals ref = Inl (Exn ConfigError m)"
begin

lemma get_iff: "get vals ref = Inr v \<longleftrightarrow> vals (slot_of ref) = Some v"
  using get_some [of vals ref] get_none [of vals ref] by (cases "vals (slot_of ref)") auto

lemma get_error: "get vals ref = Inl e \<Longrightarrow> is_a ConfigError e \<and> vals (slot_of ref) = None"
  using get_some [of vals ref] get_none [of vals ref] by (cases "vals (slot_of ref)") (auto simp: is_a_def)

end

interpretation env_secrets: secrets_provider env_secret secret_key
  by unfold_locales (simp_all add: env_secret_def)

interpretation static_secrets: secrets_provider static_secret id
  by unfold_locales (simp_all add: static_secret_def)

section \<open>The store a URL selects\<close>

datatype store_kind = PostgresStoreAt string | SQLiteStoreAt string

definition open_store :: "string \<Rightarrow> store_kind" where
  "open_store url = (if starts_with ''postgres://'' url \<or> starts_with ''postgresql://'' url then PostgresStoreAt url else SQLiteStoreAt url)"

section \<open>Properties\<close>

lemma py_int_error: "py_int raw = Inl e \<Longrightarrow> exn_cls e = ValueError"
  by (auto simp: py_int_def split: option.splits)

lemma py_float_text_error: "py_float (PStr raw) = Inl e \<Longrightarrow> exn_cls e = ValueError"
  by (auto split: option.splits)

text \<open>The numeric variables with the test their text has to pass.\<close>

definition numeric_settings :: "(string \<times> (string \<Rightarrow> bool)) list" where
  "numeric_settings =
     (let is_int = (\<lambda>raw. \<exists>i. py_int raw = Inr i); is_float = (\<lambda>raw. \<exists>f. py_float (PStr raw) = Inr f) in
      [(''BASS_DEFAULT_BUDGET_USD'', is_float), (''BASS_DEFAULT_MAX_STEPS'', is_int), (''BASS_CONNECTOR_TIMEOUT_S'', is_float),
       (''BASS_CONNECTOR_MAX_RETRIES'', is_int), (''BASS_CONNECTOR_BREAKER_THRESHOLD'', is_int),
       (''BASS_CONNECTOR_BREAKER_RESET_S'', is_float)])"

lemma cfg_int_error:
  "cfg_int os nm dflt = Inl e \<longleftrightarrow> (\<exists>raw. os nm = Some raw \<and> (\<nexists>i. py_int raw = Inr i) \<and>
     e = Exn ConfigError (nm @ '' must be an integer, got '' @ repr_str raw))"
  using py_int_error by (auto simp: cfg_int_def split: option.splits sum.splits)

lemma cfg_float_error:
  "cfg_float os nm dflt = Inl e \<longleftrightarrow> (\<exists>raw. os nm = Some raw \<and> (\<nexists>f. py_float (PStr raw) = Inr f) \<and>
     e = Exn ConfigError (nm @ '' must be a number, got '' @ repr_str raw))"
  using py_float_text_error by (auto simp: cfg_float_def simp del: py_float.simps split: option.splits sum.splits)

lemma cfg_int_ok: "cfg_int os nm dflt = Inr i \<Longrightarrow> os nm = Some raw \<Longrightarrow> \<exists>i. py_int raw = Inr i"
  by (auto simp: cfg_int_def split: sum.splits if_splits)

lemma cfg_float_ok: "cfg_float os nm dflt = Inr f \<Longrightarrow> os nm = Some raw \<Longrightarrow> \<exists>f. py_float (PStr raw) = Inr f"
  by (auto simp: cfg_float_def simp del: py_float.simps split: sum.splits if_splits)

text \<open>Configuration fails early and in one way.  Reading the environment raises exactly when one of the six numeric
  variables is set to a text that is not a number; the exception is a \<open>ConfigError\<close> whose message starts with the name
  of such a variable.  An empty environment gives the defaults.\<close>

theorem from_env_errors:
  "((\<exists>e. from_env os = Inl e) \<longleftrightarrow> (\<exists>(nm, ok)\<in>set numeric_settings. \<exists>raw. os nm = Some raw \<and> \<not> ok raw)) \<and>
   (\<forall>e. from_env os = Inl e \<longrightarrow> (\<exists>(nm, ok)\<in>set numeric_settings. \<exists>raw msg. os nm = Some raw \<and> \<not> ok raw \<and> e = Exn ConfigError (nm @ msg))) \<and>
   from_env Map.empty = Inr default_config"
proof (intro conjI allI impI)
  have err: "\<exists>(nm, ok)\<in>set numeric_settings. \<exists>raw msg. os nm = Some raw \<and> \<not> ok raw \<and> e = Exn ConfigError (nm @ msg)"
    if "from_env os = Inl e" for e
    using that unfolding from_env_def bind_sum_Inl cfg_int_error cfg_float_error numeric_settings_def Let_def
    by (simp only: Inr_not_Inl list.set bex_simps insert_iff simp_thms ex_simps prod.case) blast
  then show "\<exists>(nm, ok)\<in>set numeric_settings. \<exists>raw msg. os nm = Some raw \<and> \<not> ok raw \<and> e = Exn ConfigError (nm @ msg)"
    if "from_env os = Inl e" for e using that by blast
  have "\<not> (\<exists>(nm, ok)\<in>set numeric_settings. \<exists>raw. os nm = Some raw \<and> \<not> ok raw)" if "from_env os = Inr cfg" for cfg
    using that unfolding from_env_def bind_sum_Inr numeric_settings_def Let_def
    by (simp only: list.set bex_simps simp_thms prod.case) (blast dest: cfg_int_ok cfg_float_ok)
  then show "(\<exists>e. from_env os = Inl e) \<longleftrightarrow> (\<exists>(nm, ok)\<in>set numeric_settings. \<exists>raw. os nm = Some raw \<and> \<not> ok raw)"
    using err by (cases "from_env os") blast+
  show "from_env Map.empty = Inr default_config"
    by (simp add: from_env_def cfg_int_def cfg_float_def env_get_def default_config_def)
qed

definition bad_env :: environ where
  "bad_env = [''BASS_DEFAULT_MAX_STEPS'' \<mapsto> ''many'']"

lemma bad_env_value: "bad_env ''BASS_DEFAULT_MAX_STEPS'' = Some ''many''"
  unfolding bad_env_def by (rule fun_upd_same)

lemma bad_env_only: "bad_env nm = Some raw \<Longrightarrow> nm = ''BASS_DEFAULT_MAX_STEPS''"
  unfolding bad_env_def by (metis fun_upd_apply option.distinct(1))

lemma max_steps_setting: "(''BASS_DEFAULT_MAX_STEPS'', \<lambda>raw. \<exists>i. py_int raw = Inr i) \<in> set numeric_settings"
  unfolding numeric_settings_def Let_def by (rule list.set_intros(2), rule list.set_intros(1))

lemma many_is_no_int: "\<not> (\<exists>i. py_int ''many'' = Inr i)"
proof -
  have "(case py_int ''many'' of Inl e \<Rightarrow> True | Inr i \<Rightarrow> False)" by code_simp
  then show ?thesis by (auto split: sum.splits)
qed

theorem from_env_errors_witness:
  "\<exists>msg. from_env bad_env = Inl (Exn ConfigError (''BASS_DEFAULT_MAX_STEPS'' @ msg))"
proof -
  have "\<exists>(nm, ok)\<in>set numeric_settings. \<exists>raw. bad_env nm = Some raw \<and> \<not> ok raw"
    by (rule bexI [OF _ max_steps_setting], simp only: prod.case, rule exI, rule conjI, rule bad_env_value, rule many_is_no_int)
  with from_env_errors [of bad_env] obtain e where e: "from_env bad_env = Inl e" by blast
  with from_env_errors [of bad_env] obtain nm raw msg where "bad_env nm = Some raw" "e = Exn ConfigError (nm @ msg)" by blast
  then show ?thesis using e bad_env_only [of nm raw] by simp
qed

end
