(* ===== verification/Deployment.thy ===== *)
theory Deployment
  imports Api Config Ledger
begin

text \<open>
  The processes as the factories wire them from the environment: the API server
  (\<open>api.build_default_app\<close>), the system runner (\<open>runner.build_from_env\<close>), and the activity and
  workflow of \<open>temporal_adapter.py\<close>.  Which store a process opens is its \<open>store_kind\<close>; the
  state of the store itself is the argument of the operations.
\<close>

text \<open>\<open>os.environ.get(a) or dflt\<close>.\<close>

definition env_or :: "environ \<Rightarrow> string \<Rightarrow> string \<Rightarrow> string" where
  "env_or os nm dflt = (case os nm of Some v \<Rightarrow> if v = [] then dflt else v | None \<Rightarrow> dflt)"

record ApiProcess =
  ap_store :: store_kind
  ap_secret :: string
  ap_registry :: "accounting ToolRegistry"
  ap_engine :: "accounting engine"
  ap_limiter :: InMemoryRateLimiter
  ap_workflows :: "Workflow list"

definition build_default_app :: "environ \<Rightarrow> exn + ApiProcess" where
  "build_default_app os =
     (let secret = env_or os ''BASS_JWT_SECRET'' [] in
      if secret = [] then Inl (Exn BassError ''BASS_JWT_SECRET must be set to run the API'')
      else let db = open_store (env_or os ''BASS_DB_URL'' (env_get os ''BASS_DB_PATH'' ''bass.db'')) in
        bind_sum (py_int (env_get os ''BASS_RATE_LIMIT_PER_MIN'' ''1000'')) (\<lambda>limit.
        bind_sum default_registry (\<lambda>reg.
        Inr \<lparr>ap_store = db, ap_secret = secret, ap_registry = reg, ap_engine = mock_engine None,
             ap_limiter = new_limiter limit 60, ap_workflows = [build_workflow]\<rparr>)))"

record SystemRunner =
  sr_store :: store_kind
  sr_registry :: "accounting ToolRegistry"
  sr_engine :: "accounting engine"
  sr_workflows :: "string \<rightharpoonup> Workflow"

definition build_from_env :: "environ \<Rightarrow> exn + SystemRunner \<times> Workflow" where
  "build_from_env os =
     (let db = open_store (env_get os ''BASS_DB_PATH'' ''bass.db'') in
      bind_sum default_registry (\<lambda>reg.
      Inr (\<lparr>sr_store = db, sr_registry = reg, sr_engine = mock_engine None,
            sr_workflows = [wf_id build_workflow \<mapsto> build_workflow]\<rparr>, build_workflow)))"

text \<open>\<open>resume_run_activity\<close>: the runner of the environment resumes the run, the result is the value
  of its status.  Temporal calls it, at most three times.\<close>

definition resume_run_activity ::
  "env \<Rightarrow> 'd StoreOps \<Rightarrow> environ \<Rightarrow> string \<Rightarrow> string \<Rightarrow> ('d, accounting, string) eng" where
  "resume_run_activity E S os tenant rid =
     bindc (liftE (build_from_env os)) (\<lambda>(runner, flow).
     bindc (runner_resume E S (sr_engine runner) (sr_workflows runner) tenant rid) (\<lambda>run.
     ret (status_value (r_status run))))"

text \<open>\<open>BassRunWorkflow.run\<close>: the activity with a timeout of 60 seconds and at most three attempts.  What
  \<open>workflow.execute_activity\<close> does is a parameter; \<open>only_attempts\<close> is what is relied on: apart from attempts of
  the activity it leaves the process, the store and the world alone.\<close>

definition bass_run_workflow ::
  "(('d, accounting, string) eng \<Rightarrow> rat \<Rightarrow> nat \<Rightarrow> ('d, accounting, string) eng) \<Rightarrow>
   env \<Rightarrow> 'd StoreOps \<Rightarrow> environ \<Rightarrow> string \<Rightarrow> string \<Rightarrow> ('d, accounting, string) eng" where
  "bass_run_workflow execute_activity E S os tenant rid =
     execute_activity (resume_run_activity E S os tenant rid) 60 3"

definition only_attempts :: "(('d, 'x, 'a) eng \<Rightarrow> rat \<Rightarrow> nat \<Rightarrow> ('d, 'x, 'a) eng) \<Rightarrow> bool" where
  "only_attempts ex \<longleftrightarrow> (\<forall>R act t n. frame R \<longrightarrow> keeps R act \<longrightarrow> keeps R (ex act t n))"

text \<open>Attempts one after the other until one returns.\<close>

fun attempts :: "nat \<Rightarrow> ('d, 'x, 'a) eng \<Rightarrow> ('d, 'x, 'a) eng" where
  "attempts 0 act = throw (Exn (PyException ''ActivityError'') [])"
| "attempts (Suc n) act = handle act (\<lambda>e. if n = 0 then throw e else attempts n act)"

lemma attempts_keep: "frame R \<Longrightarrow> keeps R act \<Longrightarrow> keeps R (attempts n act)"
  by (induction n) (auto intro: frame.keeps_rules)

lemma attempts_only: "only_attempts (\<lambda>act t n. attempts n act)"
  by (simp add: only_attempts_def attempts_keep)

section \<open>Temporal's retries\<close>

text \<open>However often Temporal attempts the activity, and wherever the worker dies, every call of a mutating tool that only
  workflow steps reach has a key for which the ledger had no result when the workflow started.\<close>

lemma temporal_retries_act_once:
  assumes "only_attempts ex"
  shows "keeps (once_rel (sq_db \<circ> fst \<circ> fst) (mock_engine None))
    (bass_run_workflow ex E (crash_ops (shared_ops (sqlite_ops E))) os tenant rid)"
proof -
  have "keeps (once_rel (sq_db \<circ> fst \<circ> fst) (mock_engine None))
      (resume_run_activity E (crash_ops (shared_ops (sqlite_ops E))) os tenant rid)"
  proof (cases "build_from_env os")
    case (Inl e)
    then show ?thesis by (simp add: resume_run_activity_def keeps_def bindc_apply once.frame_refl)
  next
    case (Inr x)
    then have "sr_engine (fst x) = mock_engine None"
      by (auto simp: build_from_env_def bind_sum_def split: sum.splits)
    with cluster.once_runner_resume [of "mock_engine None" E E "sr_workflows (fst x)" tenant rid]
    have "keeps (once_rel (sq_db \<circ> fst \<circ> fst) (mock_engine None))
        (bindc (runner_resume E (crash_ops (shared_ops (sqlite_ops E))) (sr_engine (fst x)) (sr_workflows (fst x)) tenant rid)
          (\<lambda>run. ret (status_value (r_status run))))"
      by (intro once.keeps_rules) simp
    then show ?thesis using Inr by (simp add: resume_run_activity_def keeps_def bindc_apply split_beta)
  qed
  with assms show ?thesis
    unfolding bass_run_workflow_def only_attempts_def using once_frame by blast
qed

lemmas temporal_attempts_act_once = temporal_retries_act_once [OF attempts_only]

section \<open>Where the processes meet\<close>

text \<open>The runner reads \<open>BASS_DB_PATH\<close> only.  In the environment of the deployment files, where the
  database is \<open>BASS_DB_URL\<close>, the server works on PostgreSQL and the runner opens a SQLite file.\<close>

lemma runner_ignores_db_url:
  assumes "os ''BASS_DB_URL'' = Some url" and "starts_with ''postgresql://'' url"
    and "build_default_app os = Inr server" and "build_from_env os = Inr (runner, flow)"
    and "\<not> starts_with ''postgres://'' (env_get os ''BASS_DB_PATH'' ''bass.db'')"
    and "\<not> starts_with ''postgresql://'' (env_get os ''BASS_DB_PATH'' ''bass.db'')"
  shows "ap_store server = PostgresStoreAt url \<and> sr_store runner = SQLiteStoreAt (env_get os ''BASS_DB_PATH'' ''bass.db'')"
proof -
  have "url \<noteq> []" using assms(2) by (auto simp: starts_with_def)
  then have "env_or os ''BASS_DB_URL'' (env_get os ''BASS_DB_PATH'' ''bass.db'') = url"
    using assms(1) unfolding env_or_def by (simp only: option.case if_False)
  then show ?thesis
    using assms(2-6) unfolding build_default_app_def build_from_env_def Let_def
    by (auto simp only: open_store_def bind_sum_Inr sum.inject prod.inject if_True if_False simp_thms
        ApiProcess.select_convs SystemRunner.select_convs split: if_splits)
qed

end
