(* ===== verification/Migrate.thy ===== *)
theory Migrate
  imports PyStrings
begin

text \<open>
  \<open>migrate.py\<close>: ordered schema migrations with a ledger.

  The database is a parameter: \<open>exec\<close> runs a script of statements on a schema \<open>'db\<close> and gives
  the schema after the statements that succeeded, with the exception of the first that did
  not.  A connection holds the committed database and the working copy of its transaction;
  PostgreSQL runs a script in the transaction, SQLite's \<open>executescript\<close> commits first and then
  runs each statement on its own.  Writing log lines and printing are output only.
\<close>

record Migration =
  mig_id :: string
  mig_description :: string
  mig_sql :: string

datatype dialect = Postgres | SQLite

record Migrator =
  mg_dialect :: dialect
  mg_url :: string
  mg_override :: "Migration list option"

definition new_migrator :: "string \<Rightarrow> Migration list option \<Rightarrow> exn + Migrator" where
  "new_migrator url migrations =
     (if starts_with ''postgres://'' url \<or> starts_with ''postgresql://'' url
      then Inr \<lparr>mg_dialect = Postgres, mg_url = url, mg_override = migrations\<rparr>
      else if starts_with ''sqlite://'' url \<or> migrations \<noteq> None
      then Inr \<lparr>mg_dialect = SQLite, mg_url = url, mg_override = migrations\<rparr>
      else Inl (Exn ConfigError (''migrations target PostgreSQL; the SQLite store manages its own schema. Got url: '' @ repr_str url)))"

definition migrations_of :: "Migration list \<Rightarrow> Migrator \<Rightarrow> Migration list" where
  "migrations_of postgres_migrations mg = (case mg_override mg of Some ms \<Rightarrow> ms | None \<Rightarrow> postgres_migrations)"

section \<open>Connections\<close>

text \<open>A database: the schema and the rows of \<open>schema_migrations\<close>.\<close>

record 'db database =
  db_schema :: 'db
  db_ledger :: "(string \<times> rat) list"

record 'db conn =
  cn_committed :: "'db database"
  cn_work :: "'db database"
  cn_clk :: nat

type_synonym ('db, 'a) mig = "(exn, 'db conn, 'a) comp"

definition connect :: "'db database \<Rightarrow> nat \<Rightarrow> 'db conn" where
  "connect db n = \<lparr>cn_committed = db, cn_work = db, cn_clk = n\<rparr>"

definition commit :: "('db, unit) mig" where
  "commit = modify (\<lambda>c. c\<lparr>cn_committed := cn_work c\<rparr>)"

definition rollback :: "('db, unit) mig" where
  "rollback = modify (\<lambda>c. c\<lparr>cn_work := cn_committed c\<rparr>)"

type_synonym 'db exec = "string \<Rightarrow> 'db \<Rightarrow> exn option \<times> 'db"

definition exec_ddl :: "'db exec \<Rightarrow> dialect \<Rightarrow> string \<Rightarrow> ('db, unit) mig" where
  "exec_ddl exec dia sql = (\<lambda>c.
     case exec sql (db_schema (cn_work c)) of (err, schema) \<Rightarrow>
       let c1 = c\<lparr>cn_work := (cn_work c)\<lparr>db_schema := schema\<rparr>\<rparr>;
           c2 = (case dia of Postgres \<Rightarrow> c1 | SQLite \<Rightarrow> c1\<lparr>cn_committed := cn_work c1\<rparr>)
       in (case err of None \<Rightarrow> Inr () | Some e \<Rightarrow> Inl e, c2))"

text \<open>The \<open>INSERT\<close> of the ledger row; \<open>id\<close> is the primary key.\<close>

definition insert_ledger :: "env \<Rightarrow> string \<Rightarrow> ('db, unit) mig" where
  "insert_ledger E i = (\<lambda>c.
     if i \<in> set (map fst (db_ledger (cn_work c)))
     then (Inl (Exn IntegrityError ''schema_migrations.id''), c\<lparr>cn_clk := cn_clk c + 1\<rparr>)
     else (Inr (), c\<lparr>cn_work := (cn_work c)\<lparr>db_ledger := db_ledger (cn_work c) @ [(i, wall E (cn_clk c))]\<rparr>, cn_clk := cn_clk c + 1\<rparr>))"

section \<open>Running migrations\<close>

text \<open>\<open>applied\<close>: \<open>CREATE TABLE IF NOT EXISTS schema_migrations\<close> leaves an existing ledger as it is,
  and a database without one has an empty one.\<close>

definition applied :: "('db, string set) mig" where
  "applied = seqc commit (gets (\<lambda>c. set (map fst (db_ledger (cn_work c)))))"

definition apply_migration :: "env \<Rightarrow> 'db exec \<Rightarrow> dialect \<Rightarrow> Migration \<Rightarrow> ('db, unit) mig" where
  "apply_migration E exec dia m =
     handle (seqc (exec_ddl exec dia (mig_sql m)) (seqc (insert_ledger E (mig_id m)) commit))
       (\<lambda>e. seqc rollback (throw e))"

fun run_pending :: "env \<Rightarrow> 'db exec \<Rightarrow> dialect \<Rightarrow> string set \<Rightarrow> Migration list \<Rightarrow> ('db, string list) mig" where
  "run_pending E exec dia done_ids [] = ret []"
| "run_pending E exec dia done_ids (m # ms) =
     (if mig_id m \<in> done_ids then run_pending E exec dia done_ids ms
      else seqc (apply_migration E exec dia m)
          (bindc (run_pending E exec dia done_ids ms) (\<lambda>newly. ret (mig_id m # newly))))"

definition migrator_run :: "env \<Rightarrow> 'db exec \<Rightarrow> Migration list \<Rightarrow> Migrator \<Rightarrow> ('db, string list) mig" where
  "migrator_run E exec postgres_migrations mg =
     bindc applied (\<lambda>done_ids. run_pending E exec (mg_dialect mg) done_ids (migrations_of postgres_migrations mg))"

text \<open>\<open>POSTGRES_MIGRATIONS\<close>: the two scripts are SQL text that only the database reads, so the
  list takes them as arguments.\<close>

definition POSTGRES_MIGRATIONS :: "string \<Rightarrow> string \<Rightarrow> Migration list" where
  "POSTGRES_MIGRATIONS schema_sql rls_sql =
     [\<lparr>mig_id = ''0001_baseline_schema'', mig_description = ''core tables, indexes and constraints'', mig_sql = schema_sql\<rparr>,
      \<lparr>mig_id = ''0002_row_level_security'', mig_description = ''per-tenant row-level security policies'', mig_sql = rls_sql\<rparr>]"

definition run_migrations :: "env \<Rightarrow> 'db exec \<Rightarrow> Migration list \<Rightarrow> string \<Rightarrow> ('db, string list) mig" where
  "run_migrations E exec postgres_migrations url = (case new_migrator url None of
      Inl e \<Rightarrow> throw e
    | Inr mg \<Rightarrow> migrator_run E exec postgres_migrations mg)"

text \<open>\<open>main\<close>: the exit code and the line it prints.  \<open>db_url\<close> is the environment variable.\<close>

definition migrate_main :: "env \<Rightarrow> 'db exec \<Rightarrow> Migration list \<Rightarrow> string option \<Rightarrow> string list \<Rightarrow> ('db, nat \<times> string) mig" where
  "migrate_main E exec postgres_migrations db_url args =
     (let url = (case args of a # _ \<Rightarrow> a | [] \<Rightarrow> (case db_url of Some u \<Rightarrow> u | None \<Rightarrow> []))
      in if url = [] then ret (2, ''usage: bass-migrate <postgres-url>   (or set BASS_DB_URL)'')
      else bindc (run_migrations E exec postgres_migrations url) (\<lambda>ids.
        ret (0, if ids \<noteq> [] then ''applied '' @ nat_str (length ids) @ '' migration(s): '' @ join '', '' ids
                else ''database is up to date; nothing to apply'')))"

section \<open>What a run applies\<close>

definition pending :: "string set \<Rightarrow> Migration list \<Rightarrow> Migration list" where
  "pending done_ids ms = filter (\<lambda>m. mig_id m \<notin> done_ids) ms"

text \<open>The schema after a list of migrations, each of which succeeds.\<close>

fun migrated :: "'db exec \<Rightarrow> Migration list \<Rightarrow> 'db \<Rightarrow> 'db option" where
  "migrated exec [] db = Some db"
| "migrated exec (m # ms) db = (case exec (mig_sql m) db of
      (None, db') \<Rightarrow> migrated exec ms db'
    | (Some e, db') \<Rightarrow> None)"

text \<open>On PostgreSQL a migration is applied as a whole, or nothing of it is.\<close>

lemma apply_migration_postgres:
  assumes "cn_work c = cn_committed c" and "mig_id m \<notin> set (map fst (db_ledger (cn_work c)))"
  shows "apply_migration E exec Postgres m c =
    (case exec (mig_sql m) (db_schema (cn_work c)) of
       (None, db') \<Rightarrow> (Inr (), c\<lparr>cn_work := \<lparr>db_schema = db', db_ledger = db_ledger (cn_work c) @ [(mig_id m, wall E (cn_clk c))]\<rparr>,
         cn_committed := \<lparr>db_schema = db', db_ledger = db_ledger (cn_work c) @ [(mig_id m, wall E (cn_clk c))]\<rparr>, cn_clk := cn_clk c + 1\<rparr>)
     | (Some e, db') \<Rightarrow> (Inl e, c))"
  using assms
  by (auto simp: apply_migration_def handle_def exec_ddl_def insert_ledger_def commit_def rollback_def bindc_def Let_def
      split: prod.splits option.splits)

text \<open>What a run leaves after the first \<open>k\<close> migrations of \<open>todo\<close>: the schema they give and a ledger
  row for each, in order.\<close>

definition version_after :: "env \<Rightarrow> 'db exec \<Rightarrow> nat \<Rightarrow> 'db database \<Rightarrow> Migration list \<Rightarrow> 'db database \<Rightarrow> bool" where
  "version_after E exec n db ms db' \<longleftrightarrow>
     migrated exec ms (db_schema db) = Some (db_schema db') \<and>
     db_ledger db' = db_ledger db @ zip (map mig_id ms) (map (\<lambda>i. wall E (n + i)) [0..<length ms])"

lemma version_after_Nil [simp]: "version_after E exec n db [] db' \<longleftrightarrow> db' = db"
  by (auto simp: version_after_def)

lemma version_after_Cons:
  assumes "exec (mig_sql m) (db_schema db) = (None, s)"
    and "version_after E exec (Suc n) \<lparr>db_schema = s, db_ledger = db_ledger db @ [(mig_id m, wall E n)]\<rparr> ms db'"
  shows "version_after E exec n db (m # ms) db'"
  using assms by (simp add: version_after_def upt_conv_Cons map_Suc_upt [symmetric] o_def del: upt_Suc map_Suc_upt)

lemma run_pending_postgres:
  assumes "cn_work c = cn_committed c" "distinct (map mig_id ms)"
    and "\<And>m. m \<in> set (pending ids ms) \<Longrightarrow> mig_id m \<notin> set (map fst (db_ledger (cn_work c)))"
  shows "\<exists>k \<le> length (pending ids ms). \<exists>r c'. run_pending E exec Postgres ids ms c = (r, c') \<and>
     cn_work c' = cn_committed c' \<and>
     version_after E exec (cn_clk c) (cn_committed c) (take k (pending ids ms)) (cn_committed c') \<and>
     (case r of Inr newly \<Rightarrow> k = length (pending ids ms) \<and> newly = map mig_id (pending ids ms)
      | Inl e \<Rightarrow> k < length (pending ids ms) \<and>
          fst (exec (mig_sql (pending ids ms ! k)) (db_schema (cn_committed c'))) = Some e)"
  using assms
proof (induction ms arbitrary: c)
  case Nil
  then show ?case by (simp add: pending_def)
next
  case (Cons m ms)
  show ?case
  proof (cases "mig_id m \<in> ids")
    case True
    then have p: "pending ids (m # ms) = pending ids ms" and "run_pending E exec Postgres ids (m # ms) = run_pending E exec Postgres ids ms"
      by (simp_all add: pending_def)
    moreover have "distinct (map mig_id ms)" using Cons.prems(2) by simp
    ultimately show ?thesis using Cons.IH [OF Cons.prems(1)] Cons.prems(3) unfolding p by simp
  next
    case False
    then have p: "pending ids (m # ms) = m # pending ids ms" by (simp add: pending_def)
    obtain err s where ex: "exec (mig_sql m) (db_schema (cn_work c)) = (err, s)" by fastforce
    have new: "mig_id m \<notin> set (map fst (db_ledger (cn_work c)))" using Cons.prems(3) p by simp
    note ap = apply_migration_postgres [OF Cons.prems(1) new, of E exec, unfolded ex]
    show ?thesis
    proof (cases err)
      case (Some e)
      with ap ex False Cons.prems(1) show ?thesis
        by (intro exI [of _ 0]) (simp add: p bindc_def)
    next
      case None
      define db1 where "db1 = \<lparr>db_schema = s, db_ledger = db_ledger (cn_committed c) @ [(mig_id m, wall E (cn_clk c))]\<rparr>"
      define c1 where "c1 = c\<lparr>cn_work := db1, cn_committed := db1, cn_clk := Suc (cn_clk c)\<rparr>"
      have c1: "apply_migration E exec Postgres m c = (Inr (), c1)" "cn_work c1 = cn_committed c1"
        "cn_clk c1 = Suc (cn_clk c)" "cn_committed c1 = db1"
        using ap None Cons.prems(1) by (simp_all add: c1_def db1_def)
      have fresh: "mig_id m' \<notin> set (map fst (db_ledger (cn_work c1)))" if "m' \<in> set (pending ids ms)" for m'
        using that Cons.prems c1(2,4) p by (auto simp: pending_def image_iff db1_def)
      from Cons.IH [OF c1(2) _ fresh] Cons.prems(2)
      obtain k r c' where k: "k \<le> length (pending ids ms)"
        and run: "run_pending E exec Postgres ids ms c1 = (r, c')" "cn_work c' = cn_committed c'"
        and ver: "version_after E exec (cn_clk c1) (cn_committed c1) (take k (pending ids ms)) (cn_committed c')"
        and res: "case r of Inr newly \<Rightarrow> k = length (pending ids ms) \<and> newly = map mig_id (pending ids ms)
          | Inl e \<Rightarrow> k < length (pending ids ms) \<and>
              fst (exec (mig_sql (pending ids ms ! k)) (db_schema (cn_committed c'))) = Some e"
        by auto
      show ?thesis unfolding p
      proof (intro exI conjI)
        show "Suc k \<le> length (m # pending ids ms)" using k by simp
        show "run_pending E exec Postgres ids (m # ms) c = (map_sum id (Cons (mig_id m)) r, c')"
          using run(1) c1(1) False by (cases r) (simp_all add: bindc_def ret_def)
        show "version_after E exec (cn_clk c) (cn_committed c) (take (Suc k) (m # pending ids ms)) (cn_committed c')"
          using version_after_Cons [of exec m "cn_committed c" s E "cn_clk c"] ver c1(3,4) ex None Cons.prems(1)
          by (simp add: db1_def)
        show "case map_sum id (Cons (mig_id m)) r of
            Inr newly \<Rightarrow> Suc k = length (m # pending ids ms) \<and> newly = map mig_id (m # pending ids ms)
          | Inl e \<Rightarrow> Suc k < length (m # pending ids ms) \<and>
              fst (exec (mig_sql ((m # pending ids ms) ! Suc k)) (db_schema (cn_committed c'))) = Some e"
          using res by (cases r) simp_all
      qed (rule run(2))
    qed
  qed
qed

lemma applied_connect:
  "applied (connect db n) = (Inr (set (map fst (db_ledger db))), connect db n)"
  by (simp add: applied_def commit_def connect_def bindc_def)

lemma pending_new: "m \<in> set (pending ids ms) \<Longrightarrow> mig_id m \<notin> ids"
  by (simp add: pending_def)

lemma run_pending_none: "set (map mig_id ms) \<subseteq> ids \<Longrightarrow> run_pending E exec dia ids ms c = (Inr [], c)"
  by (induction ms) auto

lemma rerun_applies_nothing:
  assumes "set (map mig_id (migrations_of pgms mg)) \<subseteq> set (map fst (db_ledger db))"
  shows "migrator_run E exec pgms mg (connect db n) = (Inr [], connect db n)"
  using assms by (simp add: migrator_run_def bindc_def applied_connect run_pending_none)

lemma version_after_ids:
  assumes "version_after E exec n db (pending (set (map fst (db_ledger db))) ms) db'"
  shows "set (map mig_id ms) \<subseteq> set (map fst (db_ledger db'))"
proof -
  have "map fst (db_ledger db') = map fst (db_ledger db) @ map mig_id (pending (set (map fst (db_ledger db))) ms)"
    using assms by (simp add: version_after_def)
  then show ?thesis by (auto simp: pending_def)
qed

text \<open>C40: on PostgreSQL a run applies a prefix of the pending migrations in their listed order: the committed database
  is the schema those scripts give and a ledger with exactly their rows added, each with the time of its insert.  The
  run returns normally exactly when the prefix is all of them; then it returns their ids, and running again applies
  nothing and changes nothing.  A script that fails is the
  one after the prefix, its exception is raised, and nothing of it is committed.\<close>

theorem migrations_apply_in_order:
  assumes "distinct (map mig_id (migrations_of pgms mg))" and "mg_dialect mg = Postgres"
    and todo: "todo = pending (set (map fst (db_ledger db))) (migrations_of pgms mg)"
  shows "\<exists>k \<le> length todo. \<exists>r c'. migrator_run E exec pgms mg (connect db n) = (r, c') \<and>
     version_after E exec n db (take k todo) (cn_committed c') \<and>
     (case r of Inr newly \<Rightarrow> k = length todo \<and> newly = map mig_id todo \<and>
          (\<forall>n'. migrator_run E exec pgms mg (connect (cn_committed c') n') = (Inr [], connect (cn_committed c') n'))
      | Inl e \<Rightarrow> k < length todo \<and> fst (exec (mig_sql (todo ! k)) (db_schema (cn_committed c'))) = Some e)"
proof -
  let ?ids = "set (map fst (db_ledger db))"
  have run: "migrator_run E exec pgms mg (connect db n) =
      run_pending E exec Postgres ?ids (migrations_of pgms mg) (connect db n)"
    using assms(2) by (simp add: migrator_run_def bindc_def applied_connect)
  have clean: "cn_work (connect db n) = cn_committed (connect db n)"
    and conn: "cn_committed (connect db n) = db" "cn_clk (connect db n) = n" by (simp_all add: connect_def)
  obtain k r c' where k: "k \<le> length todo"
    and r: "migrator_run E exec pgms mg (connect db n) = (r, c')"
    and ver: "version_after E exec n db (take k todo) (cn_committed c')"
    and res: "case r of Inr newly \<Rightarrow> k = length todo \<and> newly = map mig_id todo
      | Inl e \<Rightarrow> k < length todo \<and> fst (exec (mig_sql (todo ! k)) (db_schema (cn_committed c'))) = Some e"
    using run_pending_postgres [OF clean assms(1), of ?ids E exec] pending_new
    unfolding run todo conn clean by blast
  have again: "migrator_run E exec pgms mg (connect (cn_committed c') n') = (Inr [], connect (cn_committed c') n')"
    if "k = length todo" for n'
    using ver that version_after_ids unfolding todo by (intro rerun_applies_nothing) (simp, blast)
  show ?thesis
    using k r ver res again by (intro exI [of _ k] conjI exI [of _ r] exI [of _ c']) (auto split: sum.splits)
qed

text \<open>A database whose statements are the scripts themselves; the script \<open>!\<close> fails half way.\<close>

definition demo_exec :: "string list exec" where
  "demo_exec sql db = (if sql = ''!'' then (Some (Exn (PyException ''SyntaxError'') ''syntax error''), db @ [''half'']) else (None, db @ [sql]))"

definition demo_migrations :: "Migration list" where
  "demo_migrations =
     [\<lparr>mig_id = ''1'', mig_description = [], mig_sql = ''A''\<rparr>, \<lparr>mig_id = ''2'', mig_description = [], mig_sql = ''!''\<rparr>,
      \<lparr>mig_id = ''3'', mig_description = [], mig_sql = ''B''\<rparr>]"

definition demo_migrator :: Migrator where
  "demo_migrator = \<lparr>mg_dialect = Postgres, mg_url = ''postgresql://db'', mg_override = Some demo_migrations\<rparr>"

definition demo_database :: "string list database" where
  "demo_database = \<lparr>db_schema = [], db_ledger = []\<rparr>"

definition tick_env :: env where
  "tick_env = \<lparr>wall = of_nat, mono = of_nat, uuid_hex = nat_str, float_str = (\<lambda>_. ''1.0'')\<rparr>"

theorem migrations_apply_in_order_witness:
  "\<exists>c'. migrator_run tick_env demo_exec [] demo_migrator (connect demo_database 7) =
       (Inl (Exn (PyException ''SyntaxError'') ''syntax error''), c') \<and>
     cn_committed c' = \<lparr>db_schema = [''A''], db_ledger = [(''1'', 7)]\<rparr>"
proof -
  have ms: "migrations_of [] demo_migrator = demo_migrations" by (simp add: migrations_of_def demo_migrator_def)
  have todo: "demo_migrations = pending (set (map fst (db_ledger demo_database))) (migrations_of [] demo_migrator)"
    by (simp add: ms pending_def demo_database_def)
  have pre: "distinct (map mig_id (migrations_of [] demo_migrator))" "mg_dialect demo_migrator = Postgres"
    by (simp_all add: ms) (simp_all add: demo_migrations_def demo_migrator_def)
  have len: "length demo_migrations = 3" by (simp add: demo_migrations_def)
  obtain k r c' where k: "k \<le> 3" and run: "migrator_run tick_env demo_exec [] demo_migrator (connect demo_database 7) = (r, c')"
    and ver: "version_after tick_env demo_exec 7 demo_database (take k demo_migrations) (cn_committed c')"
    and res: "case r of Inr newly \<Rightarrow> k = 3 \<and> newly = map mig_id demo_migrations \<and>
          (\<forall>n'. migrator_run tick_env demo_exec [] demo_migrator (connect (cn_committed c') n') = (Inr [], connect (cn_committed c') n'))
      | Inl e \<Rightarrow> k < 3 \<and> fst (demo_exec (mig_sql (demo_migrations ! k)) (db_schema (cn_committed c'))) = Some e"
    using migrations_apply_in_order [OF pre todo, of tick_env demo_exec 7] unfolding len by blast
  have "k = 0 \<or> k = 1 \<or> k = 2 \<or> k = 3" using k by auto
  then have k1: "k = 1"
    using ver res by (cases r) (auto simp: version_after_def demo_exec_def demo_database_def demo_migrations_def)
  then have "r = Inl (Exn (PyException ''SyntaxError'') ''syntax error'')"
    using res by (cases r) (simp_all add: demo_exec_def demo_migrations_def)
  moreover have "cn_committed c' = \<lparr>db_schema = [''A''], db_ledger = [(''1'', 7)]\<rparr>"
    using ver k1 by (cases "cn_committed c'") (auto simp: version_after_def demo_exec_def demo_database_def demo_migrations_def tick_env_def)
  ultimately show ?thesis using run by simp
qed

text \<open>On SQLite \<open>executescript\<close> commits what it runs, so the same failure leaves the first half of the
  script in the schema and no ledger row for it, against the comment beside the commit.\<close>

lemma sqlite_script_committed_without_ledger:
  assumes "exec (mig_sql m) (db_schema db) = (Some e, s)"
  shows "\<exists>c'. apply_migration E exec SQLite m (connect db n) = (Inl e, c') \<and>
    cn_committed c' = db\<lparr>db_schema := s\<rparr>"
  using assms by (simp add: apply_migration_def handle_def exec_ddl_def connect_def rollback_def bindc_def Let_def)

end
