(* ===== verification/InvoiceRun.thy ===== *)
theory InvoiceRun
  imports Triggers
begin

text \<open>
  The reference workflow of \<open>example_run.py\<close> from the trigger to the posted entry, through the
  orchestrator, the engine, the agent runtime, the policy gate, the connector and the store.

  \<open>stage\<close> is what holds of the process between two steps of the workflow: which run is driven,
  its context, steps and cost so far, the accounts, the rows the store needs, and, until the
  entry is \<open>posted\<close>, that the ledger has no row for it yet.
\<close>

definition post_key :: "string \<Rightarrow> string" where
  "post_key rid = rid @ '':post:create_ap_entry''"

definition stage ::
  "env \<Rightarrow> string \<Rightarrow> string \<Rightarrow> pydict \<Rightarrow> bool \<Rightarrow> pydict \<Rightarrow> int \<Rightarrow> rat \<Rightarrow> accounting \<Rightarrow> (SQLiteStore, accounting) sys \<Rightarrow> bool" where
  "stage E t rid trig is_posted ctx n cost acct s \<longleftrightarrow>
     sy_reg s = demo_registry \<and> ext (sy_world s) = acct \<and>
     r_tenant_id (sy_run s) = t \<and> r_id (sy_run s) = rid \<and> r_trigger_event (sy_run s) = trig \<and>
     r_context (sy_run s) = ctx \<and> r_steps_used (sy_run s) = n \<and> r_cost_usd (sy_run s) = cost \<and>
     list_all (\<lambda>ev. ev_tenant_id ev = t) (sy_buffer s) \<and> has_row t rid (sq_db (sy_store s)) \<and>
     (is_posted \<or> effect_row (post_key rid) (sq_db (sy_store s)) = None \<and>
        approval_row (new_id E (sq_ids (sy_store s)) ''appr'') (sq_db (sy_store s)) = None)"

lemma has_row_owns: "has_row t i tb \<Longrightarrow> owns t i tb"
  by (auto simp: has_row_def owns_def)

lemma has_row_checkpoint: "has_row t i (log_events rows (update_run run u tb)) \<longleftrightarrow> has_row t i tb"
  by (cases "run_row i tb") (auto simp: has_row_def run_row_checkpoint set_run_columns_def simp del: run_row_log)

lemma other_rows_checkpoint [simp]:
  "effect_row k (log_events rows (update_run run u tb)) = effect_row k tb"
  "approval_row k (log_events rows (update_run run u tb)) = approval_row k tb"
  by (simp_all add: effect_row_def approval_row_def)

text \<open>A step of the loop around a step handler that works from one stage to another.\<close>

lemma drive_step_stage:
  assumes "stage E t rid trig p ctx n cost acct s"
    and "wf_steps build_workflow i = Some step" "s_max_attempts step = 3" "n \<le> 25" "cost \<le> 1/2"
    and step: "\<And>s. stage E t rid trig p ctx (n + 1) cost acct s \<Longrightarrow>
      \<exists>s'. run_step E (sqlite_ops E) en step s = (Inr nxt, s') \<and> stage E t rid trig p' ctx' (n + 1) cost' acct' s'"
  shows "\<exists>s'. drive_step E (sqlite_ops E) en build_workflow \<lparr>b_max_usd = 1/2, b_max_steps = 25\<rparr> i s = (Inr nxt, s') \<and>
    stage E t rid trig p' ctx' (n + 1) cost' acct' s' \<and>
    (nxt = None \<longrightarrow> r_status (sy_run s') = SUCCEEDED \<and> r_result (sy_run s') = dget ctx' ''result'' (PDict ctx')) \<and>
    (\<exists>row. run_row rid (sq_db (sy_store s')) = Some row \<and> same_columns (sy_run s') (row_run row))"
proof -
  obtain s0 where enter: "enter_step step s = (Inr (), s0)" and s0: "stage E t rid trig p ctx (n + 1) cost acct s0"
    using assms(1) by (simp add: stage_def enter_step_def emit_def)
  from step [OF s0] obtain s1 where run: "run_step E (sqlite_ops E) en step s0 = (Inr nxt, s1)"
    and s1: "stage E t rid trig p' ctx' (n + 1) cost' acct' s1" by blast
  obtain s2 where adv: "advance nxt s1 = (Inr (), s2)" and s2: "stage E t rid trig p' ctx' (n + 1) cost' acct' s2"
    "nxt = None \<longrightarrow> r_status (sy_run s2) = SUCCEEDED \<and> r_result (sy_run s2) = dget ctx' ''result'' (PDict ctx')"
    using s1 by (cases nxt) (auto simp: stage_def advance_def emit_def bindc_apply)
  obtain d where d: "checkpoint E (sy_run s2) (sy_buffer s2) (sy_store s2) = (Inr (), d)"
    "sq_db d = log_events (stamped E (sq_seq (sy_store s2)) (sq_clk (sy_store s2) + 1) (sy_buffer s2))
       (update_run (sy_run s2) (wall E (sq_clk (sy_store s2))) (sq_db (sy_store s2)))" "sq_ids d = sq_ids (sy_store s2)"
    using checkpoint_ok [of "sy_run s2" "sy_store s2" "sy_buffer s2" E] s2(1)
    by (auto simp: stage_def has_row_owns list_all_iff)
  have "budget_check \<lparr>b_max_usd = 1/2, b_max_steps = 25\<rparr> (sy_run s) = None"
    using assms(1,4,5) by (simp add: stage_def)
  moreover have "run_step_with_retry E (sqlite_ops E) en step s0 = (Inr nxt, s1)"
    using assms(3) run by (simp add: run_step_with_retry_def upto.simps handle_def)
  ultimately have driven: "drive_step E (sqlite_ops E) en build_workflow \<lparr>b_max_usd = 1/2, b_max_steps = 25\<rparr> i s =
      (Inr nxt, s2\<lparr>sy_store := d, sy_buffer := []\<rparr>)"
    using assms(2) enter adv d(1)
    by (simp add: drive_step_def bindc_apply handle_def engine_checkpoint_def on_store_apply del: budget_check_None)
  have after: "stage E t rid trig p' ctx' (n + 1) cost' acct' (s2\<lparr>sy_store := d, sy_buffer := []\<rparr>)"
    using s2(1) d by (simp add: stage_def has_row_checkpoint)
  have saved: "\<exists>row. run_row rid (sq_db d) = Some row \<and> same_columns (sy_run s2) (row_run row)"
  proof -
    have run: "has_row t rid (sq_db (sy_store s2))" "r_tenant_id (sy_run s2) = t" "r_id (sy_run s2) = rid"
      using s2(1) by (simp_all add: stage_def)
    then obtain row where row: "run_row rid (sq_db (sy_store s2)) = Some row" "r_tenant_id (row_run row) = t"
      by (auto simp: has_row_def)
    have "run_row rid (sq_db d) = Some (set_run_columns (sy_run s2) (wall E (sq_clk (sy_store s2))) row)"
      unfolding d(2) run_row_checkpoint row(1) using row(2) run(2,3) run_row_id [OF row(1)] by simp
    then show ?thesis using row(2) run(2,3) run_row_id [OF row(1)] by (simp add: same_columns_def set_run_columns_def)
  qed
  let ?s3 = "s2\<lparr>sy_store := d, sy_buffer := []\<rparr>"
  have "sy_run ?s3 = sy_run s2" "sy_store ?s3 = d" by simp_all
  with driven after saved s2(2) show ?thesis by (intro exI [of _ ?s3] conjI) (simp_all only:)
qed

lemma drive_step_next:
  assumes "stage E t rid trig p ctx n cost acct s"
    and "wf_steps build_workflow i = Some step" "s_max_attempts step = 3" "n \<le> 25" "cost \<le> 1/2"
    and "\<And>s. stage E t rid trig p ctx (n + 1) cost acct s \<Longrightarrow>
      \<exists>s'. run_step E (sqlite_ops E) en step s = (Inr nxt, s') \<and> stage E t rid trig p' ctx' (n + 1) cost' acct' s'"
  shows "\<exists>s'. drive_step E (sqlite_ops E) en build_workflow \<lparr>b_max_usd = 1/2, b_max_steps = 25\<rparr> i s = (Inr nxt, s') \<and>
    stage E t rid trig p' ctx' (n + 1) cost' acct' s'"
  using drive_step_stage [OF assms] by blast

section \<open>The four steps\<close>

definition invoice_fields :: "pydict \<Rightarrow> pydict" where
  "invoice_fields trig =
     [(''vendor'', dget trig ''vendor'' (PStr ''Globex Corp'')), (''invoice_number'', dget trig ''invoice_number'' (PStr ''INV-4471'')),
      (''amount'', dget trig ''amount'' (PFloat (Fin 8200))), (''currency'', PStr ''USD'')]"

definition vendor_record :: "pyval \<Rightarrow> pyval" where
  "vendor_record vendor = (case fst (lookup_vendor [(''vendor'', vendor)] []) of Returned v \<Rightarrow> v | _ \<Rightarrow> PNone)"

lemma agent_answers:
  assumes "en_respond en agent task [] (ext (sy_world s)) = (Inr (final_response c out), sc, x)" and "0 < a_max_steps agent"
  shows "\<exists>s'. runtime_run E en agent task s = (Inr out, s') \<and> sy_store s' = sy_store s \<and> sy_reg s' = sy_reg s \<and>
    ext (sy_world s') = x \<and> sy_run s' = (sy_run s)\<lparr>r_cost_usd := r_cost_usd (sy_run s) + c\<rparr> \<and>
    (list_all (\<lambda>ev. ev_tenant_id ev = r_tenant_id (sy_run s)) (sy_buffer s) \<longrightarrow>
     list_all (\<lambda>ev. ev_tenant_id ev = r_tenant_id (sy_run s)) (sy_buffer s'))"
proof -
  obtain k where "nat (a_max_steps agent) = Suc k" using assms(2) by (cases "nat (a_max_steps agent)") auto
  then show ?thesis
    using assms(1)
    by (simp add: runtime_run_def outside_def zoom_def final_response_def eng_prims bindc_apply Let_def)
qed

lemma step_kinds:
  "run_step E S en extract_step = run_agent E en extract_step"
  "run_step E S en validate_step = run_tool E S en validate_step"
  "run_step E S en decide_step = run_branch decide_step"
  "run_step E S en post_step = run_tool E S en post_step"
  by (simp_all add: run_step_def extract_step_def validate_step_def decide_step_def post_step_def mk_step_def)

lemma extract_stage:
  assumes "stage E t rid trig False [] n cost acct s"
  shows "\<exists>s'. run_step E (sqlite_ops E) (mock_engine ap) extract_step s = (Inr (Some ''validate''), s') \<and>
    stage E t rid trig False [(''extract'', PDict (invoice_fields trig))] n (cost + 2/1000) acct s'"
proof -
  define agent where "agent = the (build_agents ''invoice_extractor'')"
  have agent: "en_agents (mock_engine ap) ''invoice_extractor'' = Some agent" "a_name agent = ''invoice_extractor''"
    "0 < a_max_steps agent"
    by (simp_all add: agent_def mock_engine_def build_agents_def mk_agent_def)
  have step: "s_agent extract_step = Some ''invoice_extractor''" "s_args extract_step = []" "s_id extract_step = ''extract''"
    "s_next extract_step = Some ''validate''"
    by (simp_all add: extract_step_def mk_step_def)
  have "en_respond (mock_engine ap) agent [(''email'', PDict trig)] [] x =
      (Inr (final_response (2/1000) (PDict (invoice_fields trig))), [], x)" for x
    using agent(2) by (simp add: mock_engine_def mock_respond_def invoice_fields_def dget_def [of "[(''email'', PDict trig)]"])
  from agent_answers [OF this agent(3), where s = s and E = E] obtain s1 where
    "runtime_run E (mock_engine ap) agent [(''email'', PDict trig)] s = (Inr (PDict (invoice_fields trig)), s1)"
    "sy_store s1 = sy_store s" "sy_reg s1 = sy_reg s" "ext (sy_world s1) = ext (sy_world s)"
    "sy_run s1 = (sy_run s)\<lparr>r_cost_usd := r_cost_usd (sy_run s) + 2/1000\<rparr>"
    "list_all (\<lambda>ev. ev_tenant_id ev = r_tenant_id (sy_run s)) (sy_buffer s) \<longrightarrow>
     list_all (\<lambda>ev. ev_tenant_id ev = r_tenant_id (sy_run s)) (sy_buffer s1)" by blast
  then show ?thesis
    using assms agent(1) by (auto simp: step_kinds run_agent_def step bindc_apply stage_def set_context_def)
qed

text \<open>A call through the healthy connector of the example answers at once.\<close>

lemma execute_answers:
  assumes "tr_tools demo_registry name = Some tool" "t_connector tool = ''accounting''"
    and "t_fn tool args (ext w) = (Returned v, x)"
  shows "execute E name args (demo_registry, w) = (Inr v, demo_registry, w\<lparr>execs := execs w @ [(name, args)], ext := x\<rparr>)"
proof -
  have upd: "demo_registry\<lparr>tr_connectors := (tr_connectors demo_registry)(''accounting'' \<mapsto> new_connector ''accounting'' default_reliability)\<rparr> =
      demo_registry"
    using demo_tool(2) by (simp add: fun_upd_idem)
  show ?thesis
    using assms upd
    by (simp add: execute_def get_tool_def connector_run_def conn_allow_def new_connector_def new_breaker_def
        default_reliability_def upt_rec [of 0] conn_success_def record_success_def demo_tool(2))
qed

lemma demo_lookup:
  "tr_tools demo_registry ''lookup_vendor'' = Some lookup_vendor_tool" "t_connector lookup_vendor_tool = ''accounting''"
  "t_name lookup_vendor_tool = ''lookup_vendor''" "\<not> t_side_effect lookup_vendor_tool" "t_cost_usd lookup_vendor_tool = 0"
  "t_fn lookup_vendor_tool = lookup_vendor"
  by (simp_all add: demo_registry_def default_registry_def register_def register_connector_def empty_registry_def
      lookup_vendor_tool_def create_ap_entry_tool_def new_connector_def)

lemma lookup_allowed:
  "d_effect (check (en_policy (mock_engine ap)) (system_agent ''lookup_vendor'') lookup_vendor_tool args ctx) = ALLOW"
  by (simp add: check_def mock_engine_def policy_engine_def default_policies_def system_agent_def mk_agent_def demo_lookup)

lemma validate_stage:
  assumes "stage E t rid trig False [(''extract'', PDict (invoice_fields trig))] n cost acct s"
  shows "\<exists>s'. run_step E (sqlite_ops E) (mock_engine ap) validate_step s = (Inr (Some ''decide''), s') \<and>
    stage E t rid trig False [(''extract'', PDict (invoice_fields trig)),
      (''validate'', vendor_record (dget trig ''vendor'' (PStr ''Globex Corp'')))] n cost acct s'"
proof -
  let ?args = "[(''vendor'', dget trig ''vendor'' (PStr ''Globex Corp''))]"
  have step: "s_tool validate_step = Some ''lookup_vendor''" "s_id validate_step = ''validate''" "s_next validate_step = Some ''decide''"
    "resolve (s_args validate_step) [(''extract'', PDict (invoice_fields trig))] = Inr ?args"
    by (simp_all add: validate_step_def mk_step_def extracted_def invoice_fields_def)
  have look: "t_fn lookup_vendor_tool ?args x = (Returned (vendor_record (dget trig ''vendor'' (PStr ''Globex Corp''))), x)" for x
    by (simp add: demo_lookup lookup_vendor_def vendor_record_def Let_def)
  have ex: "execute E ''lookup_vendor'' ?args (demo_registry, w) =
      (Inr (vendor_record (dget trig ''vendor'' (PStr ''Globex Corp''))), demo_registry,
       w\<lparr>execs := execs w @ [(''lookup_vendor'', ?args)], ext := ext w\<rparr>)" for w
    by (rule execute_answers [OF demo_lookup(1,2) look])
  show ?thesis
    using assms lookup_allowed [of ap ?args] ex
    by (simp add: stage_def step_kinds run_tool_def step get_tool_def demo_lookup bindc_apply Let_def tool_gate_def eng_prims
        tool_act_def exec_tool_def zoom_def)
qed

lemma decide_stage:
  assumes "stage E t rid trig False ctx n cost acct s" and "map_of ctx ''extract'' = Some (PDict (invoice_fields trig))"
    and "above_5000 (dget trig ''amount'' (PFloat (Fin 8200))) = Inr b"
  shows "\<exists>s'. run_step E (sqlite_ops E) (mock_engine ap) decide_step s = (Inr (Some ''post''), s') \<and>
    stage E t rid trig False ctx n cost acct s'"
proof -
  have "take_branch (s_branches decide_step) ctx = Inr (Some ''post'')"
    using assms(2,3) by (cases b) (simp_all add: decide_step_def mk_step_def extracted_def invoice_fields_def)
  then show ?thesis
    using assms(1) by (simp add: stage_def step_kinds run_branch_def bindc_apply emit_def)
qed

lemma demo_post_tool:
  "t_cost_usd create_ap_entry_tool = 0" "s_tool post_step = Some ''create_ap_entry''" "s_id post_step = ''post''" "s_next post_step = None"
  by (simp_all add: create_ap_entry_tool_def post_step_def mk_step_def)

definition posted_entry :: "pydict \<Rightarrow> pyval" where
  "posted_entry trig = PDict [(''vendor'', dget trig ''vendor'' (PStr ''Globex Corp'')),
     (''invoice_number'', dget trig ''invoice_number'' (PStr ''INV-4471'')), (''amount'', dget trig ''amount'' (PFloat (Fin 8200))),
     (''status'', PStr ''posted'')]"

text \<open>The decision of the reference policies on the entry, for an amount that is a number.\<close>

lemma post_decision:
  assumes "above_5000 (dget args ''amount'' (PInt 0)) = Inr b"
  shows "d_effect (check (en_policy (mock_engine ap)) (system_agent ''create_ap_entry'') create_ap_entry_tool args ctx) =
    (if b then REQUIRE_APPROVAL else ALLOW)"
proof -
  have "\<exists>f. py_float (dget args ''amount'' (PInt 0)) = Inr f \<and> float_gt f 5000 = b"
    using assms by (cases "dget args ''amount'' (PInt 0)") auto
  then show ?thesis
    by (auto simp: check_def mock_engine_def policy_engine_def default_policies_def system_agent_def mk_agent_def demo)
qed

lemma effect_row_approvals [simp]:
  "effect_row k (insert_approval row tb) = effect_row k tb" "effect_row k (decide_approval a b c d e tb) = effect_row k tb"
  "has_row t i (insert_approval row tb) = has_row t i tb" "has_row t i (decide_approval a b c d e tb) = has_row t i tb"
  by (simp_all add: effect_row_def has_row_def run_row_def)

lemma gate_opens:
  assumes "stage E t rid trig False ctx n cost acct s" and "above_5000 (dget args ''amount'' (PInt 0)) = Inr b"
    and "b \<longrightarrow> ap = Some True"
  shows "\<exists>s'. tool_gate (sqlite_ops E) (mock_engine ap) post_step ''create_ap_entry'' create_ap_entry_tool args s = (Inr (), s') \<and>
    stage E t rid trig True ctx n cost acct s' \<and> effect_row (post_key rid) (sq_db (sy_store s')) = None"
proof (cases b)
  case False
  then show ?thesis
    using assms(1) post_decision [OF assms(2), of ap]
    by (simp add: tool_gate_def bindc_apply eng_prims stage_def)
next
  case True
  then have approver: "en_approval_fn (mock_engine ap) = Some (\<lambda>run step tool args x. (Inr True, x))"
    using assms(3) by (simp add: mock_engine_def)
  show ?thesis
    using True assms(1) post_decision [OF assms(2), of ap]
    by (auto simp: tool_gate_def bindc_apply eng_prims stage_def await_approval_def approver approve_sync_def
        request_approval_def on_store_apply create_approval_def assert_owns_eq has_row_owns sq_defs outside_def
        resolve_approval_def approval_row_insert)
qed

lemma effect_row_insert:
  "effect_row (fx_key row) tb = None \<Longrightarrow> effect_row (fx_key row) (insert_effect row tb) = Some row"
  by (simp add: effect_row_def insert_effect_def find_append)

lemma dget_Cons: "dget ((k, v) # d) j dflt = (if j = k then v else dget d j dflt)"
  by (simp add: dget_def)

lemma post_stage:
  assumes "stage E t rid trig False ctx n cost acct s" and "map_of ctx ''extract'' = Some (PDict (invoice_fields trig))"
    and "above_5000 (dget trig ''amount'' (PFloat (Fin 8200))) = Inr b" and "b \<longrightarrow> ap = Some True"
    and "map_of acct (PStr (post_key rid)) = None"
  shows "\<exists>s'. run_step E (sqlite_ops E) (mock_engine ap) post_step s = (Inr None, s') \<and>
    stage E t rid trig True (AList.update ''post'' (posted_entry trig) ctx) n cost (acct @ [(PStr (post_key rid), posted_entry trig)]) s'"
proof -
  let ?args = "[(''vendor'', dget trig ''vendor'' (PStr ''Globex Corp'')), (''invoice_number'', dget trig ''invoice_number'' (PStr ''INV-4471'')),
    (''amount'', dget trig ''amount'' (PFloat (Fin 8200)))]"
  let ?keyed = "AList.update ''_idempotency_key'' (PStr (post_key rid)) ?args"
  have args: "resolve (s_args post_step) ctx = Inr ?args"
    using assms(2) by (simp add: post_step_def mk_step_def extracted_def invoice_fields_def)
  have key: "effect_key (sy_run s) post_step ''create_ap_entry'' = post_key rid"
    using assms(1) by (simp add: effect_key_def stage_def post_key_def demo_post_tool)
  have "dget ?args ''amount'' (PInt 0) = dget trig ''amount'' (PFloat (Fin 8200))" by (simp add: dget_def [of ?args])
  then obtain s1 where gate: "tool_gate (sqlite_ops E) (mock_engine ap) post_step ''create_ap_entry'' create_ap_entry_tool ?args s = (Inr (), s1)"
    and s1: "stage E t rid trig True ctx n cost acct s1" "effect_row (post_key rid) (sq_db (sy_store s1)) = None"
    using gate_opens [OF assms(1), of ?args b ap] assms(3,4) by auto
  have "AList.update (PStr (post_key rid)) (posted_entry trig) acct = acct @ [(PStr (post_key rid), posted_entry trig)]"
    using assms(5) by (induction acct) auto
  then have "t_fn create_ap_entry_tool ?keyed acct = (Returned (posted_entry trig), acct @ [(PStr (post_key rid), posted_entry trig)])"
    using assms(5) by (simp add: demo create_ap_entry_def entry_key_def dget_Cons post_key_def posted_entry_def Let_def)
  moreover have acct: "ext (sy_world s1) = acct" "sy_reg s1 = demo_registry" using s1(1) by (simp_all add: stage_def)
  ultimately have ex: "execute E ''create_ap_entry'' ?keyed (sy_reg s1, sy_world s1) =
      (Inr (posted_entry trig), demo_registry, (sy_world s1)\<lparr>execs := execs (sy_world s1) @ [(''create_ap_entry'', ?keyed)],
         ext := acct @ [(PStr (post_key rid), posted_entry trig)]\<rparr>)"
    using execute_answers [OF demo_tool(1,4), of ?keyed "sy_world s1"] by simp
  have act: "\<exists>s'. tool_act E (sqlite_ops E) post_step ''create_ap_entry'' create_ap_entry_tool (post_key rid) ?args s1 = (Inr None, s') \<and>
    stage E t rid trig True (AList.update ''post'' (posted_entry trig) ctx) n cost (acct @ [(PStr (post_key rid), posted_entry trig)]) s'"
    using s1 ex
    by (simp add: tool_act_def demo_tool(5) exec_tool_def zoom_def bindc_apply eng_prims on_store_apply record_effect_def sq_defs
        stage_def demo_post_tool has_row_def run_row_def insert_effect_def del: AList.update.simps)
  have "effect_row (post_key rid) (sq_db (sy_store s)) = None" "r_context (sy_run s) = ctx" "sy_reg s = demo_registry"
    using assms(1) by (simp_all add: stage_def)
  then have "run_tool E (sqlite_ops E) (mock_engine ap) post_step s =
      tool_act E (sqlite_ops E) post_step ''create_ap_entry'' create_ap_entry_tool (post_key rid) ?args s1"
    using gate key args
    by (simp add: run_tool_def demo_post_tool get_tool_def demo_tool bindc_apply on_store_apply get_effect_def query_def Let_def)
  with act show ?thesis by (simp add: step_kinds)
qed

section \<open>From the trigger to the entry\<close>

lemma build_workflow_steps:
  "wf_steps build_workflow ''extract'' = Some extract_step" "wf_steps build_workflow ''validate'' = Some validate_step"
  "wf_steps build_workflow ''decide'' = Some decide_step" "wf_steps build_workflow ''post'' = Some post_step"
  "s_max_attempts extract_step = 3" "s_max_attempts validate_step = 3" "s_max_attempts decide_step = 3" "s_max_attempts post_step = 3"
  by (simp_all add: build_workflow_def extract_step_def validate_step_def decide_step_def post_step_def mk_step_def)

lemma drive_invoice:
  assumes "stage E t rid trig False [] 0 0 acct s"
    and "above_5000 (dget trig ''amount'' (PFloat (Fin 8200))) = Inr b" and "b \<longrightarrow> ap = Some True"
    and "map_of acct (PStr (post_key rid)) = None"
  shows "\<exists>s' row ctx. drive E (sqlite_ops E) (mock_engine ap) build_workflow \<lparr>b_max_usd = 1/2, b_max_steps = 25\<rparr> (Some ''extract'') s = (Inr None, s') \<and>
    stage E t rid trig True ctx 4 (2/1000) (acct @ [(PStr (post_key rid), posted_entry trig)]) s' \<and>
    r_status (sy_run s') = SUCCEEDED \<and> map_of ctx ''post'' = Some (posted_entry trig) \<and>
    run_row rid (sq_db (sy_store s')) = Some row \<and> same_columns (sy_run s') (row_run row)"
proof -
  let ?en = "mock_engine ap" and ?B = "\<lparr>b_max_usd = 1/2, b_max_steps = 25 :: int\<rparr> :: Budget"
  let ?c1 = "[(''extract'', PDict (invoice_fields trig))]"
  let ?c2 = "?c1 @ [(''validate'', vendor_record (dget trig ''vendor'' (PStr ''Globex Corp'')))]"
  have ctx: "map_of ?c2 ''extract'' = Some (PDict (invoice_fields trig))" by simp
  obtain s1 where s1: "drive_step E (sqlite_ops E) ?en build_workflow ?B ''extract'' s = (Inr (Some ''validate''), s1)"
    "stage E t rid trig False ?c1 (0 + 1) (0 + 2/1000) acct s1"
    using drive_step_next [OF assms(1) build_workflow_steps(1,5) _ _ extract_stage] by fastforce
  obtain s2 where s2: "drive_step E (sqlite_ops E) ?en build_workflow ?B ''validate'' s1 = (Inr (Some ''decide''), s2)"
    "stage E t rid trig False ?c2 (0 + 1 + 1) (0 + 2/1000) acct s2"
    using drive_step_next [OF s1(2) build_workflow_steps(2,6) _ _ validate_stage] by fastforce
  obtain s3 where s3: "drive_step E (sqlite_ops E) ?en build_workflow ?B ''decide'' s2 = (Inr (Some ''post''), s3)"
    "stage E t rid trig False ?c2 (0 + 1 + 1 + 1) (0 + 2/1000) acct s3"
    using drive_step_next [OF s2(2) build_workflow_steps(3,7) _ _ decide_stage [OF _ ctx assms(2)]] by fastforce
  obtain s4 row where s4: "drive_step E (sqlite_ops E) ?en build_workflow ?B ''post'' s3 = (Inr None, s4)"
    "stage E t rid trig True (AList.update ''post'' (posted_entry trig) ?c2) (0 + 1 + 1 + 1 + 1) (0 + 2/1000) (acct @ [(PStr (post_key rid), posted_entry trig)]) s4"
    "r_status (sy_run s4) = SUCCEEDED" "run_row rid (sq_db (sy_store s4)) = Some row" "same_columns (sy_run s4) (row_run row)"
    using drive_step_stage [OF s3(2) build_workflow_steps(4,8) _ _ post_stage [OF _ ctx assms(2-4)]] by fastforce
  have "drive E (sqlite_ops E) ?en build_workflow ?B (Some ''extract'') s = (Inr None, s4)"
    using s1(1) s2(1) s3(1) s4(1) by simp
  moreover have "map_of (AList.update ''post'' (posted_entry trig) ?c2) ''post'' = Some (posted_entry trig)"
    by (simp add: update_conv')
  moreover have "stage E t rid trig True (AList.update ''post'' (posted_entry trig) ?c2) 4 (2/1000) (acct @ [(PStr (post_key rid), posted_entry trig)]) s4"
    using s4(2) by simp
  ultimately show ?thesis using s4(3-5) by blast
qed

lemma insert_run_others [simp]:
  "effect_row k (insert_run run u tb) = effect_row k tb" "approval_row k (insert_run run u tb) = approval_row k tb"
  by (simp_all add: effect_row_def approval_row_def insert_run_def)

text \<open>C5: an invoice gets posted.  Fire the reference workflow on any new trigger whose amount is a number, over a
  database and an accounting system that do not know the run yet, with a healthy connector and an approver that agrees
  when the amount is above 5000.  The run succeeds within four steps and two tenths of a cent; the accounting system has
  exactly one entry more, with the vendor, number and amount of the invoice, under the idempotency key of the step; and
  the database shows the run as succeeded with that entry in its context.\<close>

theorem invoice_is_posted:
  fixes E s trig
  defines "rid \<equiv> new_id E (sy_ids s) ''run''"
  assumes "sy_reg s = demo_registry" and "sy_buffer s = []"
    and "above_5000 (dget trig ''amount'' (PFloat (Fin 8200))) = Inr b" and "b \<longrightarrow> ap = Some True"
    and "run_row rid (sq_db (sy_store s)) = None"
    and "run_by_key (tn_id tenant) (derive_idempotency_key E trig) (sq_db (sy_store s)) = None"
    and "effect_row (post_key rid) (sq_db (sy_store s)) = None" and "map_of (ext (sy_world s)) (PStr (post_key rid)) = None"
    and "approval_row (new_id E (sq_ids (sy_store s)) ''appr'') (sq_db (sy_store s)) = None"
  shows "\<exists>run s' row. fire E (sqlite_ops E) (mock_engine ap) tenant build_workflow trig s = (Inr run, s') \<and>
    r_status run = SUCCEEDED \<and> r_steps_used run = 4 \<and> r_cost_usd run = 2/1000 \<and>
    ext (sy_world s') = ext (sy_world s) @ [(PStr (post_key rid), posted_entry trig)] \<and>
    run_row rid (sq_db (sy_store s')) = Some row \<and> r_status (row_run row) = SUCCEEDED \<and>
    map_of (r_context (row_run row)) ''post'' = Some (posted_entry trig)"
proof -
  let ?run = "trigger_run E (sy_ids s) (tn_id tenant) build_workflow trig"
  let ?d = "(sy_store s)\<lparr>sq_clk := sq_clk (sy_store s) + 1, sq_db := insert_run ?run (wall E (sq_clk (sy_store s))) (sq_db (sy_store s))\<rparr>"
  have run: "r_id ?run = rid" "r_tenant_id ?run = tn_id tenant" "r_idempotency_key ?run = derive_idempotency_key E trig"
    "r_cursor_step ?run = Some ''extract''" "r_status ?run = PENDING" "r_context ?run = []" "r_steps_used ?run = 0"
    "r_cost_usd ?run = 0" "r_trigger_event ?run = trig" "wf_start build_workflow = ''extract''"
    by (simp_all add: trigger_run_def mk_run_def rid_def build_workflow_def)
  have created: "create_or_get_run E ?run (sy_store s) = (Inr (?run, True), ?d)"
    using assms(6,7) run(1-3) by (cases rule: create_or_get_run_cases [of ?run "sy_store s" E]) simp_all
  obtain s1 where s1: "fire E (sqlite_ops E) (mock_engine ap) tenant build_workflow trig s = resume E (sqlite_ops E) (mock_engine ap) build_workflow s1"
    "sy_run s1 = ?run" "sy_store s1 = ?d" "sy_reg s1 = sy_reg s" "sy_world s1 = sy_world s"
    "list_all (\<lambda>ev. ev_tenant_id ev = tn_id tenant) (sy_buffer s1)"
    using created run(2) assms(3)
    by (simp add: fire_def register_workflow_def new_run_def set_run_def bindc_apply on_store_apply emit_def metric_def)
  let ?s2 = "s1\<lparr>sy_run := (sy_run s1)\<lparr>r_status := RUNNING\<rparr>\<rparr>"
  have row: "has_row (tn_id tenant) rid (sq_db ?d)"
    using assms(6) run(1,2) by (simp add: has_row_def run_row_insert_run)
  have start: "stage E (tn_id tenant) rid trig False [] 0 0 (ext (sy_world s)) ?s2"
    using assms(2,8,10) run s1(2-6) row by (simp add: stage_def)
  obtain s3 row ctx where s3:
    "drive E (sqlite_ops E) (mock_engine ap) build_workflow \<lparr>b_max_usd = 1/2, b_max_steps = 25\<rparr> (Some ''extract'') ?s2 = (Inr None, s3)"
    and st: "stage E (tn_id tenant) rid trig True ctx 4 (2/1000) (ext (sy_world s) @ [(PStr (post_key rid), posted_entry trig)]) s3"
    and fin: "r_status (sy_run s3) = SUCCEEDED" "map_of ctx ''post'' = Some (posted_entry trig)"
      "run_row rid (sq_db (sy_store s3)) = Some row" "same_columns (sy_run s3) (row_run row)"
    using drive_invoice [OF start assms(4,5,9)] by blast
  have budget: "wf_budget_usd build_workflow = 1/2" "wf_max_steps build_workflow = 25" by (simp_all add: build_workflow_def)
  have "\<exists>s'. resume E (sqlite_ops E) (mock_engine ap) build_workflow s1 = (Inr (sy_run s3), s') \<and>
      sy_store s' = sy_store s3 \<and> sy_world s' = sy_world s3"
    using s3 run(4,5) s1(2) by (simp add: resume_def budget set_status_def metric_def handle_def bindc_apply)
  then show ?thesis using s1(1) st fin by (auto simp: stage_def same_columns_def)
qed

theorem invoice_is_posted_witness:
  "\<exists>run s' row. fire demo_env (sqlite_ops demo_env) (mock_engine (Some True)) acme build_workflow (invoice 8200) demo_sys = (Inr run, s') \<and>
    r_status run = SUCCEEDED \<and> r_steps_used run = 4 \<and> r_cost_usd run = 2/1000 \<and>
    ext (sy_world s') = [(PStr (post_key (new_id demo_env 0 ''run'')), posted_entry (invoice 8200))] \<and>
    run_row (new_id demo_env 0 ''run'') (sq_db (sy_store s')) = Some row \<and> r_status (row_run row) = SUCCEEDED \<and>
    map_of (r_context (row_run row)) ''post'' = Some (posted_entry (invoice 8200))"
proof -
  have st: "sy_reg demo_sys = demo_registry" "sy_buffer demo_sys = []" "sy_ids demo_sys = 0" "ext (sy_world demo_sys) = []"
    "sy_store demo_sys = new_sqlite"
    by (simp_all add: demo_sys_def fresh_sys_def demo_world_def)
  have none: "run_row i (sq_db new_sqlite) = None" "run_by_key t k (sq_db new_sqlite) = None" "effect_row k (sq_db new_sqlite) = None"
    "approval_row k (sq_db new_sqlite) = None" for i t k
    by (simp_all add: run_row_def run_by_key_def effect_row_def approval_row_def new_sqlite_def empty_tables_def)
  have "above_5000 (dget (invoice 8200) ''amount'' (PFloat (Fin 8200))) = Inr True"
    by (simp add: invoice_def dget_def)
  from invoice_is_posted [of demo_sys "invoice 8200" True "Some True" demo_env acme, OF st(1,2) this] st none
  show ?thesis by simp
qed

end
