(* ===== verification/Webhook.thy ===== *)
theory Webhook
  imports Tools PyStrings
begin

text \<open>
  \<open>connectors.http_call\<close> and \<open>webhook.py\<close>: an HTTP operation behind a connector, and the
  connector that posts notifications.

  The network is a parameter \<open>net\<close>: what a request that \<open>urllib\<close> sends is answered with, on
  the external state.  A reply is a response, one of the two exceptions the operation looks
  at, any other exception, or no answer within the connector's timeout.
\<close>

record HttpRequest =
  rq_url :: string
  rq_method :: string
  rq_headers :: pydict
  rq_data :: "string option"

datatype reply = Response int string | HTTPError int string | URLError string | Broken exn | NoAnswer

type_synonym 'x network = "HttpRequest \<Rightarrow> 'x \<Rightarrow> reply \<times> 'x"

section \<open>\<open>http_call\<close>\<close>

text \<open>\<open>d.setdefault(k, v)\<close>.\<close>

definition setdefault :: "string \<Rightarrow> pyval \<Rightarrow> pydict \<Rightarrow> pydict" where
  "setdefault k v d = (case map_of d k of None \<Rightarrow> d @ [(k, v)] | Some _ \<Rightarrow> d)"

text \<open>\<open>dict(args.get("headers", {}))\<close>.  The callers give a dictionary or nothing; a list of pairs,
  which \<open>dict\<close> would take too, is refused here.\<close>

definition as_headers :: "pyval \<Rightarrow> exn + pydict" where
  "as_headers v = (case v of PDict d \<Rightarrow> Inr d | _ \<Rightarrow> Inl (Exn TypeError ''headers are not a dictionary''))"

text \<open>\<open>urllib.request.Request\<close> keeps each header under \<open>key.capitalize()\<close>, a later one over an earlier one;
  header names are ASCII.\<close>

definition ascii_upper :: "char \<Rightarrow> char" where
  "ascii_upper c = (let n = of_char c :: nat in if 97 \<le> n \<and> n \<le> 122 then char_of (n - 32) else c)"

definition py_capitalize :: "string \<Rightarrow> string" where
  "py_capitalize s = (case s of [] \<Rightarrow> [] | c # cs \<Rightarrow> ascii_upper c # map ascii_lower cs)"

definition add_headers :: "pydict \<Rightarrow> pydict" where
  "add_headers headers = foldl (\<lambda>d (k, v). AList.update (py_capitalize k) v d) [] headers"

definition http_outcome :: "reply \<Rightarrow> outcome" where
  "http_outcome r = (case r of
      Response status body \<Rightarrow> Returned (PDict [(''status'', PInt status), (''body'', PStr body)])
    | HTTPError code body \<Rightarrow>
        if 500 \<le> code then Raised (Exn Transient (''http '' @ int_str code))
        else Returned (PDict [(''status'', PInt code), (''body'', PStr body)])
    | URLError reason \<Rightarrow> Raised (Exn Transient (''connection error: '' @ reason))
    | Broken e \<Rightarrow> Raised e
    | NoAnswer \<Rightarrow> TimedOut)"

definition http_call :: "env \<Rightarrow> 'x network \<Rightarrow> pydict \<Rightarrow> 'x \<Rightarrow> outcome \<times> 'x" where
  "http_call E net args x =
     (case dget args ''method'' (PStr ''GET'') of
        PStr meth \<Rightarrow>
          (case as_headers (dget args ''headers'' (PDict [])) of
             Inl e \<Rightarrow> (Raised e, x)
           | Inr given \<Rightarrow>
               let data = map_option (dumps_default E) (map_of args ''json'');
                   headers = (if data = None then given else setdefault ''Content-Type'' (PStr ''application/json'') given)
               in (case map_of args ''url'' of
                     None \<Rightarrow> (Raised (Exn KeyError (repr_str ''url'')), x)
                   | Some url \<Rightarrow> map_prod http_outcome id
                       (net \<lparr>rq_url = py_str (float_str E) url, rq_method = py_upper meth, rq_headers = add_headers headers,
                            rq_data = data\<rparr> x)))
      | _ \<Rightarrow> (Raised (Exn (PyException ''AttributeError'') ''object has no attribute upper''), x))"

section \<open>The webhook connector\<close>

record WebhookConnector =
  wh_url :: string
  wh_name :: string
  wh_headers :: pydict

text \<open>The constructor: the webhook and the connector it owns.\<close>

definition new_webhook ::
  "string \<Rightarrow> string \<Rightarrow> pydict \<Rightarrow> ReliabilityConfig option \<Rightarrow> Connector option \<Rightarrow> exn + WebhookConnector \<times> Connector" where
  "new_webhook url nm headers config connector =
     (let low = map ascii_lower url in
      if \<not> (starts_with ''http://'' low \<or> starts_with ''https://'' low)
      then Inl (Exn ConnectorError (''webhook url must be http(s): '' @ repr_str url))
      else Inr (\<lparr>wh_url = url, wh_name = nm, wh_headers = headers\<rparr>,
        case connector of Some c \<Rightarrow> c
        | None \<Rightarrow> new_connector nm (case config of Some cfg \<Rightarrow> cfg | None \<Rightarrow> default_reliability)))"

definition post_payload :: "pydict \<Rightarrow> pydict" where
  "post_payload args = filter (\<lambda>(k, v). k \<noteq> ''_idempotency_key'') args"

definition post_headers :: "env \<Rightarrow> WebhookConnector \<Rightarrow> pydict \<Rightarrow> pydict" where
  "post_headers E wh args =
     (let key = dget args ''_idempotency_key'' PNone in
      if truthy key then setdefault ''Idempotency-Key'' (PStr (py_str (float_str E) key)) (wh_headers wh)
      else wh_headers wh)"

text \<open>\<open>int(resp.get("status", 0))\<close>: \<open>http_call\<close> answers with an integer there, anything else is
  refused.\<close>

definition post_result :: "pyval \<Rightarrow> exn + pyval" where
  "post_result resp = (case resp of
      PDict r \<Rightarrow> (case dget r ''status'' (PInt 0) of
          PInt status \<Rightarrow> Inr (PDict [(''status'', PInt status), (''ok'', PBool (200 \<le> status \<and> status < 300)),
                                 (''body'', dget r ''body'' (PStr []))])
        | _ \<Rightarrow> Inl (Exn TypeError ''status is not a number''))
    | _ \<Rightarrow> Inl (Exn (PyException ''AttributeError'') ''object has no attribute get''))"

definition webhook_post ::
  "env \<Rightarrow> 'x network \<Rightarrow> WebhookConnector \<Rightarrow> pydict \<Rightarrow> 'x conn_state \<Rightarrow> (exn + pyval) \<times> 'x conn_state" where
  "webhook_post E net wh args =
     bindc (connector_run E (http_call E net)
        [(''method'', PStr ''POST''), (''url'', PStr (wh_url wh)), (''headers'', PDict (post_headers E wh args)),
         (''json'', PDict (post_payload args))]) (\<lambda>resp. liftE (post_result resp))"

text \<open>The tool around \<open>post\<close>.  Its external state is the webhook's own connector with the world
  behind it; \<open>late\<close> says whether the call outlasts the timeout of the connector the tool is run
  through, which then sees no answer.\<close>

definition webhook_tool ::
  "env \<Rightarrow> 'x network \<Rightarrow> (pydict \<Rightarrow> 'x conn_state \<Rightarrow> bool) \<Rightarrow> string \<Rightarrow> string \<Rightarrow> string \<Rightarrow> string \<Rightarrow>
     ReliabilityConfig option \<Rightarrow> exn + (WebhookConnector \<times> Connector) \<times> 'x conn_state Tool" where
  "webhook_tool E net late url nm description connector_name config =
     (case new_webhook url connector_name [] config None of
        Inl e \<Rightarrow> Inl e
      | Inr (wh, c) \<Rightarrow> Inr ((wh, c),
          \<lparr>t_name = nm, t_description = description, t_connector = connector_name,
           t_fn = (\<lambda>args s. case webhook_post E net wh args s of (r, s') \<Rightarrow>
              (if late args s then TimedOut else case r of Inl e \<Rightarrow> Raised e | Inr v \<Rightarrow> Returned v, s')),
           t_side_effect = True, t_cost_usd = 0,
           t_input_schema = [(''type'', PStr ''object''), (''properties'', PDict [(''text'', PDict [(''type'', PStr ''string'')])]),
             (''required'', PList [PStr ''text''])]\<rparr>))"

section \<open>What reaches the endpoint\<close>

text \<open>The one request a call of \<open>post\<close> sends, perhaps several times.\<close>

definition webhook_request :: "env \<Rightarrow> WebhookConnector \<Rightarrow> pydict \<Rightarrow> HttpRequest" where
  "webhook_request E wh args =
     \<lparr>rq_url = wh_url wh, rq_method = ''POST'',
      rq_headers = add_headers (setdefault ''Content-Type'' (PStr ''application/json'') (post_headers E wh args)),
      rq_data = Some (dumps_default E (PDict (post_payload args)))\<rparr>"

definition answer :: "reply \<Rightarrow> (int \<times> string) option" where
  "answer r = (case r of Response status body \<Rightarrow> Some (status, body)
    | HTTPError code body \<Rightarrow> if 500 \<le> code then None else Some (code, body)
    | _ \<Rightarrow> None)"

definition delivery :: "int \<times> string \<Rightarrow> pyval" where
  "delivery a = PDict [(''status'', PInt (fst a)), (''ok'', PBool (200 \<le> fst a \<and> fst a < 300)), (''body'', PStr (snd a))]"

abbreviation post_args :: "env \<Rightarrow> WebhookConnector \<Rightarrow> pydict \<Rightarrow> pydict" where
  "post_args E wh args \<equiv> [(''method'', PStr ''POST''), (''url'', PStr (wh_url wh)), (''headers'', PDict (post_headers E wh args)),
     (''json'', PDict (post_payload args))]"

lemma py_upper_POST: "py_upper ''POST'' = ''POST''"
  by (simp add: py_upper_def upper_char_def)

lemma http_call_post:
  "http_call E net (post_args E wh args) x = map_prod http_outcome id (net (webhook_request E wh args) x)"
  by (simp add: http_call_def webhook_request_def dget_def as_headers_def py_upper_POST py_str_def)

lemma post_result_outcome:
  "http_outcome r = Returned v \<Longrightarrow> \<exists>a. answer r = Some a \<and> post_result v = Inr (delivery a)"
  by (auto simp: http_outcome_def answer_def post_result_def delivery_def dget_def split: reply.splits if_splits)

lemma iter_post:
  "iter_ext (http_call E net) (post_args E wh args) k x = ((\<lambda>x. snd (net (webhook_request E wh args) x)) ^^ k) x"
  by (simp add: http_call_post)

text \<open>What a header of a given name, as \<open>urllib\<close> spells it, is in a dictionary of headers: the last one.\<close>

definition last_header :: "string \<Rightarrow> pydict \<Rightarrow> pyval option" where
  "last_header K headers = map_of (rev (map (\<lambda>(k, v). (py_capitalize k, v)) headers)) K"

lemma add_headers_from:
  "map_of (foldl (\<lambda>d (k, v). AList.update (py_capitalize k) v d) base headers) K =
     (case last_header K headers of None \<Rightarrow> map_of base K | Some v \<Rightarrow> Some v)"
  by (induction headers arbitrary: base) (auto simp: last_header_def map_add_def update_conv' split: option.splits)

lemma add_headers_lookup: "map_of (add_headers headers) K = last_header K headers"
  by (simp add: add_headers_def add_headers_from split: option.split)

lemma last_header_setdefault:
  "last_header K (setdefault k v d) = (if py_capitalize k = K \<and> map_of d k = None then Some v else last_header K d)"
  by (auto simp: last_header_def setdefault_def split: option.splits)

lemma capitalized [simp]:
  "py_capitalize ''Idempotency-Key'' = ''Idempotency-key''" "py_capitalize ''Content-Type'' = ''Content-type''"
  by (simp_all add: py_capitalize_def ascii_upper_def ascii_lower_def char_of_eq_iff)

lemma setdefault_lookup: "map_of (setdefault k v d) j = (if j = k \<and> map_of d k = None then Some v else map_of d j)"
  by (auto simp: setdefault_def map_add_def split: option.splits)

text \<open>C33: a notification is delivered at most \<open>max_retries + 1\<close> times, and each time as the same request: a POST to the
  configured URL, whose body is the JSON text of the arguments without the idempotency key.  When there is a key and the
  webhook has no header \<open>Idempotency-Key\<close> of its own, the request carries the key in that header (which \<open>urllib\<close> spells
  \<open>Idempotency-key\<close>); otherwise it carries the webhook's own header of that name in any spelling, if there is one.  The
  content type is likewise JSON unless the webhook sets \<open>Content-Type\<close>.  A result is the status and body of the last
  answer, and \<open>ok\<close> is whether the status is 2xx.\<close>

theorem webhook_delivery:
  assumes "webhook_post E net wh args (c, w) = (r, (c', w'))"
  shows "\<exists>req k. k \<le> nat (max_retries (c_config c) + 1) \<and>
    ext w' = ((\<lambda>x. snd (net req x)) ^^ k) (ext w) \<and>
    (\<forall>v. r = Inr v \<longrightarrow> 0 < k \<and> (\<exists>a. answer (fst (net req (((\<lambda>x. snd (net req x)) ^^ (k - 1)) (ext w)))) = Some a \<and> v = delivery a)) \<and>
    rq_url req = wh_url wh \<and> rq_method req = ''POST'' \<and>
    rq_data req = Some (dumps_default E (PDict (filter (\<lambda>kv. fst kv \<noteq> ''_idempotency_key'') args))) \<and>
    map_of (rq_headers req) ''Idempotency-key'' =
      (if truthy (dget args ''_idempotency_key'' PNone) \<and> map_of (wh_headers wh) ''Idempotency-Key'' = None
       then Some (PStr (py_str (float_str E) (dget args ''_idempotency_key'' PNone)))
       else last_header ''Idempotency-key'' (wh_headers wh)) \<and>
    map_of (rq_headers req) ''Content-type'' =
      (if map_of (wh_headers wh) ''Content-Type'' = None then Some (PStr ''application/json'')
       else last_header ''Content-type'' (wh_headers wh))"
proof -
  let ?req = "webhook_request E wh args"
  obtain r0 where run: "connector_run E (http_call E net) (post_args E wh args) (c, w) = (r0, (c', w'))"
    and r: "r = (case r0 of Inl e \<Rightarrow> Inl e | Inr resp \<Rightarrow> post_result resp)"
    using assms(1) by (auto simp: webhook_post_def bindc_def split: prod.splits sum.splits)
  obtain k where k: "k \<le> nat (max_retries (c_config c) + 1)" "ext w' = ((\<lambda>x. snd (net ?req x)) ^^ k) (ext w)"
    and last: "\<And>v. r0 = Inr v \<Longrightarrow> 0 < k \<and>
      http_outcome (fst (net ?req (((\<lambda>x. snd (net ?req x)) ^^ (k - 1)) (ext w)))) = Returned v"
    using connector_run_calls [OF run] unfolding iter_post http_call_post by auto
  have "0 < k \<and> (\<exists>a. answer (fst (net ?req (((\<lambda>x. snd (net ?req x)) ^^ (k - 1)) (ext w)))) = Some a \<and> v = delivery a)"
    if "r = Inr v" for v
    using that r last post_result_outcome by (cases r0) fastforce+
  moreover have "rq_url ?req = wh_url wh" "rq_method ?req = ''POST''"
    "rq_data ?req = Some (dumps_default E (PDict (filter (\<lambda>kv. fst kv \<noteq> ''_idempotency_key'') args)))"
    by (simp_all add: webhook_request_def post_payload_def split_def)
  moreover have "map_of (rq_headers ?req) ''Idempotency-key'' =
      (if truthy (dget args ''_idempotency_key'' PNone) \<and> map_of (wh_headers wh) ''Idempotency-Key'' = None
       then Some (PStr (py_str (float_str E) (dget args ''_idempotency_key'' PNone)))
       else last_header ''Idempotency-key'' (wh_headers wh))"
    "map_of (rq_headers ?req) ''Content-type'' =
      (if map_of (wh_headers wh) ''Content-Type'' = None then Some (PStr ''application/json'')
       else last_header ''Content-type'' (wh_headers wh))"
    by (auto simp: webhook_request_def add_headers_lookup last_header_setdefault post_headers_def setdefault_lookup Let_def)
  ultimately show ?thesis using k by blast
qed

text \<open>Networks for the examples; the external state is the list of requests that were made.\<close>

definition dead_network :: "HttpRequest list network" where
  "dead_network req reqs = (URLError ''refused'', reqs @ [req])"

definition refusing_network :: "HttpRequest list network" where
  "refusing_network req reqs = (HTTPError 404 ''no such hook'', reqs @ [req])"

definition demo_hook :: WebhookConnector where
  "demo_hook = \<lparr>wh_url = ''https://hooks/x'', wh_name = ''webhook'', wh_headers = []\<rparr>"

lemma iter_reqs: "((\<lambda>reqs. snd (refusing_network req reqs)) ^^ k) reqs = reqs @ replicate k req"
  by (induction k) (simp_all add: refusing_network_def replicate_append_same)

theorem webhook_delivery_witness:
  "\<exists>req r c' w'. webhook_post ex_env refusing_network demo_hook [(''text'', PStr ''hi''), (''_idempotency_key'', PStr ''k1'')]
      (new_connector ''webhook'' default_reliability, ex_world []) = (r, (c', w')) \<and>
    set (ext w') \<subseteq> {req} \<and> length (ext w') \<le> 4 \<and> map_of (rq_headers req) ''Idempotency-key'' = Some (PStr ''k1'') \<and>
    (\<forall>v. r = Inr v \<longrightarrow> v = delivery (404, ''no such hook''))"
proof -
  let ?args = "[(''text'', PStr ''hi''), (''_idempotency_key'', PStr ''k1'')]" and ?c = "new_connector ''webhook'' default_reliability"
  obtain r c' w' where run: "webhook_post ex_env refusing_network demo_hook ?args (?c, ex_world []) = (r, (c', w'))"
    by (metis prod.exhaust)
  obtain req k where k: "k \<le> nat (max_retries (c_config ?c) + 1)"
    "ext w' = ((\<lambda>x. snd (refusing_network req x)) ^^ k) (ext (ex_world []))"
    and v: "\<forall>v. r = Inr v \<longrightarrow> 0 < k \<and> (\<exists>a. answer (fst (refusing_network req
       (((\<lambda>x. snd (refusing_network req x)) ^^ (k - 1)) (ext (ex_world []))))) = Some a \<and> v = delivery a)"
    and key: "map_of (rq_headers req) ''Idempotency-key'' = Some (PStr ''k1'')"
    using webhook_delivery [OF run] by (auto simp: demo_hook_def dget_def py_str_def)
  have "max_retries (c_config ?c) = 3" by (simp add: new_connector_def default_reliability_def)
  with k have "k \<le> 4" "ext w' = replicate k req" by (simp_all add: iter_reqs ex_world_def)
  moreover have "r = Inr v \<Longrightarrow> v = delivery (404, ''no such hook'')" for v
    using v by (auto simp: refusing_network_def answer_def)
  ultimately show ?thesis using run key by (intro exI [of _ req] exI [of _ r] exI [of _ c'] exI [of _ w']) auto
qed

text \<open>A client error is final.  When the breaker lets the call through and the endpoint answers with a status below
  500, exactly one request is made, no delay is slept, and the answer is returned.\<close>

theorem webhook_answer_is_final:
  assumes "fst (conn_allow E (c, w))" and "0 \<le> max_retries (c_config c)"
    and "net (webhook_request E wh args) (ext w) = (rep, x)" and "answer rep = Some a"
  shows "\<exists>c' w'. webhook_post E net wh args (c, w) = (Inr (delivery a), (c', w')) \<and> ext w' = x \<and> sleeps w' = sleeps w"
proof -
  obtain w1 where w1: "conn_allow E (c, w) = (True, (c, w1))" "ext w1 = ext w" "sleeps w1 = sleeps w"
    using assms(1) conn_allow_simps [of E "(c, w)"] by (cases "conn_allow E (c, w)") auto
  obtain v where v: "http_outcome rep = Returned v" "post_result v = Inr (delivery a)"
    using assms(4) by (auto simp: answer_def http_outcome_def post_result_def delivery_def dget_def split: reply.splits if_splits)
  have atts: "[0..<nat (max_retries (c_config c) + 1)] = 0 # [1..<nat (max_retries (c_config c) + 1)]"
    using assms(2) by (simp add: upt_conv_Cons)
  have "connector_run E (http_call E net) (post_args E wh args) (c, w) = (Inr v, conn_success (c, w1\<lparr>ext := x\<rparr>))"
    using w1 v assms(3) by (simp add: connector_run_def atts http_call_post del: upt_Suc)
  then show ?thesis
    using v w1 by (simp add: webhook_post_def bindc_def conn_success_def)
qed

theorem webhook_answer_is_final_witness:
  "\<exists>c' w'. webhook_post ex_env refusing_network demo_hook [(''text'', PStr ''hi'')]
      (new_connector ''webhook'' default_reliability, ex_world []) =
      (Inr (PDict [(''status'', PInt 404), (''ok'', PBool False), (''body'', PStr ''no such hook'')]), (c', w')) \<and>
    length (ext w') = 1 \<and> sleeps w' = []"
  using webhook_answer_is_final [of ex_env "new_connector ''webhook'' default_reliability" "ex_world []" refusing_network demo_hook
      "[(''text'', PStr ''hi'')]" "HTTPError 404 ''no such hook''" _ "(404, ''no such hook'')"]
  by (auto simp: refusing_network_def new_connector_def default_reliability_def conn_allow_def new_breaker_def answer_def
      delivery_def ex_world_def)

text \<open>The tool is run through a connector of the registry as well as through the webhook's own, and a
  connection error is transient for both: with the default settings an unreachable endpoint gets
  eight requests, not four, before the inner breaker opens.\<close>

definition hook_registry :: "HttpRequest list conn_state ToolRegistry" where
  "hook_registry =
     (case webhook_tool ex_env dead_network (\<lambda>_ _. False) ''https://hooks/x'' ''notify'' [] ''webhook'' None of
        Inl e \<Rightarrow> empty_registry
      | Inr (_, tool) \<Rightarrow>
          (case register tool (register_connector (new_connector ''webhook'' default_reliability) empty_registry) of
             Inl e \<Rightarrow> empty_registry | Inr reg \<Rightarrow> reg))"

lemma webhook_tool_retries_twice:
  "length (ext (snd (ext (snd (snd (execute ex_env ''notify'' [(''text'', PStr ''hi'')]
     (hook_registry, ex_world (new_connector ''webhook'' default_reliability, ex_world [])))))))) = 8"
  by code_simp

end
