(* ===== verification/Spec2Isabelle.thy ===== *)
theory Spec2Isabelle
  imports RateLimit Gate Bounds Contention RowSecurity Logging Scheduler RunColumns Deployment Migrate InvoiceRun Webhook Providers
begin

text \<open>
  Verification of Bass, the AI automation platform of \<open>src/reference/bass\<close>.

  \<^bold>\<open>The program.\<close>  A trigger event (a message, a webhook, a cron slot) is fired by the orchestrator: the
  event gets an idempotency key, the store inserts a run or returns the one that has the key, and the workflow
  engine drives a new run step by step.  A step is a tool call, an agent, a branch or an approval.  Tool calls of
  steps and of agents pass the policy engine and go through the tool registry and a connector (circuit breaker,
  retries).  A mutating step looks its key up in a ledger of effects before it acts and records the result after.
  After each step the run and its events are written in one transaction, so that another process can resume it.
  Around this are the HTTP API with tokens, roles and rate limits, the scheduler, the runner and the Temporal
  activity that resume runs, the webhook and model adapters, configuration, migrations and metrics.

  \<^bold>\<open>Theories and sources.\<close>  One theory per component; the definitions keep the source's names.

  \<^item> \<open>Prelude\<close>: computations over a state that return a value or raise (\<open>comp\<close>, \<open>bindc\<close>, \<open>throw\<close>, \<open>handle\<close>), the
    locale \<open>frame\<close> of relations that a computation keeps, list lemmas.  \<open>PyValues\<close>, \<open>PyNumbers\<close>, \<open>PyStrings\<close>: the
    Python values, conversions and string methods the sources use.  \<open>Json\<close>, \<open>JsonLoads\<close>: \<open>json.dumps\<close> and
    \<open>json.loads\<close>, and that the second reads back what the first wrote.  \<open>Sha256\<close>: \<open>hashlib.sha256\<close> and HMAC on
    words.  \<open>Regex\<close>: the part of \<open>re\<close> that \<open>redaction.py\<close> needs.
  \<^item> \<open>Models\<close>: \<open>errors.py\<close>, \<open>models.py\<close>.  \<open>Budgets\<close>, \<open>Policy\<close>, \<open>Redaction\<close>, \<open>Connectors\<close>, \<open>RateLimit\<close>,
    \<open>Observability\<close>, \<open>Logging\<close> (both \<open>observability.py\<close>, the second with \<open>tracing.py\<close>), \<open>Tools\<close>, \<open>Agent\<close>, \<open>Workflow\<close>, \<open>Auth\<close>, \<open>Api\<close>, \<open>Migrate\<close>, \<open>Webhook\<close>, \<open>Providers\<close>: the
    files of these names.
  \<^item> \<open>StoreTables\<close>: the tables of the schema, the SQL statements on them and the \<open>Store\<close> protocol as a record of
    operations.  \<open>SQLiteStore\<close> (\<open>store.py\<close>) and \<open>PostgresStore\<close> (\<open>store_postgres.py\<close>): the two stores, method by
    method.  \<open>RowSecurity\<close>: the second with the row-level security policies of \<open>RLS_SQL\<close>.  \<open>RunColumns\<close>: how a run is written to and read from text columns.
  \<^item> \<open>Orchestrator\<close>: \<open>orchestrator.py\<close> and \<open>SystemRunner\<close> of \<open>runner.py\<close>.  \<open>Cron\<close>, \<open>Scheduler\<close>: \<open>schedule.py\<close>.
    \<open>Config\<close>: \<open>config.py\<close>, \<open>secrets.py\<close>, \<open>open_store\<close>.  \<open>Deployment\<close>: the factories of \<open>api.py\<close> and \<open>runner.py\<close>
    and \<open>temporal_adapter.py\<close>.  \<open>Example\<close>: the invoice workflow of \<open>example_run.py\<close>.

  \<^bold>\<open>State and operations.\<close>  An engine process is the record \<open>sys\<close> of \<open>Agent\<close>: the run it drives, the buffered events,
  the registry with its connectors, the metrics, the store, and the world with everything outside the process.  A
  method that may raise is a computation on that state or on the store's; \<open>except\<close> clauses are \<open>handle\<close> with the
  class test \<open>is_a\<close>.  A store's state has the tables, the counter behind \<open>events.seq\<close> and counters for the clock
  and for ids.  A process that dies at any store operation is \<open>crash_ops\<close> (\<open>StoreContract\<close>); a thread that shares the
  store with others is \<open>shared_ops\<close> (\<open>Sharing\<close>): the calls of the others happen between any two of its own.

  \<^bold>\<open>Interfaces.\<close>  \<open>store\<close> is the contract of the protocol, discharged for both stores and kept by \<open>crash_ops\<close>;
  \<open>ledger_store\<close> is the weaker contract that also a shared store keeps and that exactly-once rests on.
  \<open>frame\<close>, \<open>engine_frame\<close>, \<open>drive_frame\<close> and \<open>orch_frame\<close> lift a relation from the primitives to the handlers, the
  loop and the entry points; \<open>run_scope\<close>, \<open>store_invariant\<close> and
  \<open>retention_invariant\<close> (where only some purges are allowed) lift relations and predicates of the store.
  \<open>fixed_window\<close> is the limiter, \<open>secrets_provider\<close> the source of secrets, \<open>separators\<close> the styles of JSON text.

  \<^bold>\<open>What is shown.\<close>

  \<^item> \<open>Ledger\<close>, \<open>Gate\<close>, \<open>Isolation\<close>: exactly-once effects across crashes and threads, the policy gate on every path to a
    tool, tenant isolation of writes and reads; here the first and the last also over PostgreSQL.  \<open>RowSecurity\<close>: the
    database enforces isolation by itself, and the store cannot work under a role that is bound by it.  \<open>Deployment\<close>:
    Temporal's retries act once.
  \<^item> \<open>Bounds\<close>, \<open>Durable\<close>, \<open>StoreInvariant\<close>, \<open>AuditLog\<close>: termination, what the step and cost ceilings stop (one step late), durable outcomes,
    the schema's constraints, the append-only log, checkpoints, retention and cancellation.
  \<^item> \<open>Triggers\<close>, \<open>Contention\<close>, \<open>Scheduler\<close>: repeated and racing deliveries and cron slots act once.  \<open>InvoiceRun\<close>:
    the invoice workflow succeeds and posts exactly one entry.
  \<^item> \<open>PostgresStore\<close>: refinement of the SQLite store, method by method, up to ties of \<open>ORDER BY\<close> and negative limits.  \<open>RunColumns\<close>, \<open>JsonLoads\<close>, \<open>Auth\<close>, \<open>Providers\<close>: round trips.
    \<open>Cron\<close>: equivalence with a reference semantics.  \<open>RateLimit\<close>, \<open>Connectors\<close>, \<open>Webhook\<close>: admission and retry bounds.
    \<open>Api\<close>: authentication, roles and limits guard every endpoint.  \<open>Migrate\<close>: order and atomicity.  \<open>Policy\<close>,
    \<open>Redaction\<close>: fail-closed decisions and masking.  \<open>Logging\<close>: a log line is one JSON object.
  \<^item> Lemmas beside them record behaviour that differs from what the documentation says, for example
    \<open>overlapping_steps_both_act\<close>, \<open>last_step_overwrites_cancel\<close>, \<open>none_result_runs_again\<close>, \<open>webhook_tool_retries_twice\<close>.

  \<^bold>\<open>Loops and fuel.\<close>  The loop of \<open>_drive\<close> is a function whose measure is the steps left in the budget, because every
  iteration that goes on uses a step; \<open>drive_fuel\<close> is the loop with fuel and \<open>drive_terminates\<close> gives the bound.  The
  agent loop runs over \<open>max_steps\<close>, a connector over \<open>max_retries + 1\<close>.  The JSON decoder has fuel of three times the
  length of the text plus two, which \<open>scan_value_enough\<close> shows to be enough.

  \<^bold>\<open>Abstractions.\<close>  A finite \<open>float\<close> is the rational it denotes, without rounding; infinities and NaN are kept.  The
  round trips through JSON text (\<open>storable\<close>) ask that the text of a finite float denotes it.  Where \<open>ORDER BY\<close> leaves a tie,
  PostgreSQL may take any row and any order (\<open>Ties\<close>), SQLite the order of insertion.
  Strings have code points below 256.  Clocks, UUIDs and the text of floats are functions of the record \<open>env\<close>, and no
  theorem assumes UUIDs to be different unless it says so.  The model behind an agent, the approver, the tools,
  the network, the SDK clients, Redis and the database that runs migration scripts are parameters that act on an
  arbitrary external state.  The lines the components log and the spans of the engine are left out of their models.  A store method is atomic, as the
  lock of the store makes it within a process; over PostgreSQL several processes that interleave inside one
  transaction are not modelled.

  \<^bold>\<open>Not modelled.\<close>  The tracer behind \<open>tracing.py\<close>, \<open>dashboard.py\<close> (one HTML page),
  \<open>example_run_live.py\<close> and the printing of \<open>example_run.py\<close>, \<open>__init__.py\<close>, \<open>ping\<close>,
  \<open>close\<close> and the opening of connections, the scripts \<open>docs/build_site.py\<close> and \<open>scripts/export_openapi.py\<close>, Temporal's
  \<open>execute_activity\<close> and FastAPI's own request parsing: libraries outside the repository do the work there.
\<close>

interpretation production: store "crash_ops (postgres_ops pick E)" "pg_db \<circ> fst" for pick E
  by (rule postgres.crash_ops_store)

text \<open>C7: tenants are isolated in production too.  Over PostgreSQL, whichever rows it picks on a tie, and with a crash at
  any store operation, requests of other tenants leave every run, event, approval and ledger entry of a tenant as it was.\<close>

theorem postgres_tenant_isolation:
  assumes "\<forall>q\<in>set qs. request_tenant q \<noteq> t" and "approval_ids_distinct (pg_db (fst (sy_store s)))"
  shows "tenant_view t (pg_db (fst (sy_store (serve_all E (crash_ops (postgres_ops pick E)) en qs s)))) =
    tenant_view t (pg_db (fst (sy_store s)))"
  using production.serve_all_others [OF assms(1), of s] assms(2) by simp

definition pg_dead :: PostgresStore where
  "pg_dead = \<lparr>pg_db = sq_db dead_db, pg_seq = 0, pg_clk = 0, pg_ids = 0\<rparr>"

theorem postgres_tenant_isolation_witness:
  "tenant_view ''acme'' (pg_db (fst (sy_store (serve_all demo_env (crash_ops (postgres_ops default_ties demo_env)) (mock_engine None)
      [Fire (acme\<lparr>tn_id := ''evil''\<rparr>) build_workflow (invoice 9), Cancel ''evil'' ''run_1'']
      (fresh_sys (pg_dead, 30) demo_registry demo_world new_metrics 0))))) =
    ([\<lparr>row_run = dead_run, row_started_at = 0, row_updated_at = 0\<rparr>], [], [], [posted_row])"
  using postgres_tenant_isolation [of "[Fire (acme\<lparr>tn_id := ''evil''\<rparr>) build_workflow (invoice 9), Cancel ''evil'' ''run_1'']"
      "''acme''" "fresh_sys (pg_dead, 30) demo_registry demo_world new_metrics 0" demo_env default_ties "mock_engine None"]
  by (simp add: fresh_sys_def approval_ids_distinct_def pg_dead_def dead_db_def empty_tables_def new_sqlite_def tenant_view_def demo)

text \<open>C6: exactly once in production too.  Over PostgreSQL, whatever requests a process serves and wherever it dies, the
  ledger only grows, and every call it makes of a mutating tool that only workflow steps reach carries an idempotency key
  for which the ledger had no result when the process started.\<close>

theorem postgres_exactly_once:
  assumes "registry_inv (sy_reg s)"
    and "s' = serve_all E (crash_ops (postgres_ops pick E)) en qs s"
  shows "effects_grow (pg_db (fst (sy_store s))) (pg_db (fst (sy_store s'))) \<and>
    (\<exists>new. execs (sy_world s') = execs (sy_world s) @ new \<and>
      (\<forall>name args t. (name, args) \<in> set new \<and> tr_tools (sy_reg s) name = Some t \<and> t_side_effect t \<and> \<not> agent_reachable en name \<longrightarrow>
        (\<exists>key. map_of args ''_idempotency_key'' = Some (PStr key) \<and> \<not> ledgered key (pg_db (fst (sy_store s))))))"
  using production.once_serve_all [of en s E pick E qs] assms
  by (fastforce simp: once_rel_def fresh_call_def list_all_iff)

theorem postgres_exactly_once_witness:
  "\<exists>new. execs (sy_world (serve_all demo_env (crash_ops (postgres_ops default_ties demo_env)) (mock_engine None)
      [Resume acme ''run_1'' build_workflow] (fresh_sys (pg_dead, 30) demo_registry demo_world new_metrics 0))) = execs demo_world @ new \<and>
    (\<forall>name args t. (name, args) \<in> set new \<and> tr_tools demo_registry name = Some t \<and> t_side_effect t \<and>
       \<not> agent_reachable (mock_engine None) name \<longrightarrow>
       (\<exists>key. map_of args ''_idempotency_key'' = Some (PStr key) \<and> key \<noteq> ''run_1:post:create_ap_entry''))"
proof -
  let ?s = "fresh_sys (pg_dead, 30) demo_registry demo_world new_metrics 0"
  have "ledgered ''run_1:post:create_ap_entry'' (sq_db dead_db)" by code_simp
  then have "ledgered ''run_1:post:create_ap_entry'' (pg_db (fst (sy_store ?s)))" by (simp add: fresh_sys_def pg_dead_def)
  moreover have "registry_inv (sy_reg ?s)" "sy_reg ?s = demo_registry" "sy_world ?s = demo_world"
    using demo_registry_inv by (simp_all add: fresh_sys_def)
  ultimately show ?thesis
    using postgres_exactly_once [OF _ refl, of ?s demo_env default_ties "mock_engine None" "[Resume acme ''run_1'' build_workflow]"]
    by (metis (no_types, lifting))
qed

end
